(* ===== verification/Prelude.thy ===== *)
theory Prelude
  imports Main "HOL-Library.Word" "HOL-Library.AList" "HOL-Library.Signed_Division"
begin

text \<open>
  Shared vocabulary of the development.

  \<^item> Go maps that the code iterates over are association lists without duplicate keys
    (\<open>wf_map\<close>); the order of the list is the iteration order of one run, which Go leaves
    open, so a theorem about every such list covers every iteration order. A read of a missing
    key yields the zero value of the element type (\<open>map_get\<close>).
  \<^item> A loop \<open>for k, v := range m\<close> that writes a second map is \<open>range_update\<close>.
  \<^item> Unsigned 64-bit counters are natural numbers with the wrap-around of Go written out
    (\<open>add64\<close>, \<open>sub64\<close>).
\<close>

section \<open>Rule collections of the development\<close>

named_theorems wf_intros \<open>well-formedness of the results of map operations\<close>
named_theorems lookup_simps \<open>what a lookup returns after an operation on maps\<close>
named_theorems amount_simps \<open>the integer amount of one resource type after an operation\<close>

section \<open>Go maps as association lists\<close>

type_synonym 'v gomap = "(string \<times> 'v) list"

text \<open>Times are nanoseconds; the zero time of Go is \<open>None\<close>.\<close>

type_synonym gotime = "int option"

definition wf_map :: "('k \<times> 'v) list \<Rightarrow> bool" where
  "wf_map m \<longleftrightarrow> distinct (map fst m)"

definition map_get :: "'v \<Rightarrow> ('k \<times> 'v) list \<Rightarrow> 'k \<Rightarrow> 'v" where
  "map_get d m k = (case map_of m k of None \<Rightarrow> d | Some v \<Rightarrow> v)"

definition map_has :: "('k \<times> 'v) list \<Rightarrow> 'k \<Rightarrow> bool" where
  "map_has m k \<longleftrightarrow> k \<in> set (map fst m)"

text \<open>\<open>for k, v := range src { dst[k] = f k dst[k] v }\<close>, where \<open>d\<close> is the zero value.\<close>

definition range_update ::
    "('k \<Rightarrow> 'v \<Rightarrow> 'w \<Rightarrow> 'v) \<Rightarrow> 'v \<Rightarrow> ('k \<times> 'w) list \<Rightarrow> ('k \<times> 'v) list \<Rightarrow> ('k \<times> 'v) list" where
  "range_update f d src dst =
     fold (\<lambda>(k, v) out. AList.update k (f k (map_get d out k) v) out) src dst"

text \<open>The sum of a measure over the values of a map.\<close>

definition map_sum :: "('v \<Rightarrow> int) \<Rightarrow> ('k \<times> 'v) list \<Rightarrow> int" where
  "map_sum f m = (\<Sum>p \<leftarrow> m. f (snd p))"

lemma wf_map_simps [simp]:
  "wf_map []"
  "wf_map ((k, v) # m) \<longleftrightarrow> k \<notin> fst ` set m \<and> wf_map m"
  by (auto simp: wf_map_def)

lemma wf_map_update [wf_intros]: "wf_map m \<Longrightarrow> wf_map (AList.update k v m)"
  by (simp add: wf_map_def distinct_update)

lemma wf_map_delete [wf_intros]: "wf_map m \<Longrightarrow> wf_map (AList.delete k m)"
  by (simp add: wf_map_def distinct_delete)

lemma wf_map_filter [wf_intros]: "wf_map m \<Longrightarrow> wf_map (filter P m)"
  unfolding wf_map_def by (rule distinct_map_filter)

lemma wf_map_map_ran [wf_intros]: "wf_map m \<Longrightarrow> wf_map (map (\<lambda>(k, v). (k, f k v)) m)"
  by (induction m) force+

lemma wf_map_range_update [wf_intros]: "wf_map dst \<Longrightarrow> wf_map (range_update f d src dst)"
  unfolding range_update_def
  by (induction src arbitrary: dst) (auto intro: wf_intros)

lemma map_has_map_of: "map_has m k \<longleftrightarrow> map_of m k \<noteq> None"
  by (simp add: map_has_def map_of_eq_None_iff)

lemma map_get_Some [simp]: "map_of m k = Some v \<Longrightarrow> map_get d m k = v"
  by (simp add: map_get_def)

lemma map_get_None [simp]: "map_of m k = None \<Longrightarrow> map_get d m k = d"
  by (simp add: map_get_def)

lemma map_get_Nil [simp]: "map_get d [] k = d"
  by (simp add: map_get_def)

lemma map_get_Cons [simp]:
  "map_get d ((k', v) # m) k = (if k = k' then v else map_get d m k)"
  by (simp add: map_get_def)

lemma map_of_wf: "wf_map m \<Longrightarrow> (k, v) \<in> set m \<longleftrightarrow> map_of m k = Some v"
  by (simp add: wf_map_def)

lemma map_of_map_ran [lookup_simps]:
  "map_of (map (\<lambda>(k, v). (k, f k v)) m) k = map_option (f k) (map_of m k)"
  by (induction m) auto

lemma map_of_filter_val [lookup_simps]:
  "wf_map m \<Longrightarrow>
   map_of (filter (\<lambda>(k, v). P v) m) k =
     (case map_of m k of None \<Rightarrow> None | Some v \<Rightarrow> if P v then Some v else None)"
proof (induction m)
  case (Cons p m)
  obtain k' v' where p: "p = (k', v')" by fastforce
  with Cons.prems have "map_of m k' = None" by (simp add: map_of_eq_None_iff)
  with p Cons show ?case
    by (cases "k = k'") (auto split: option.splits)
qed simp

lemma map_of_range_update [lookup_simps]:
  "wf_map src \<Longrightarrow>
   map_of (range_update f d src dst) k =
     (case map_of src k of None \<Rightarrow> map_of dst k | Some v \<Rightarrow> Some (f k (map_get d dst k) v))"
  unfolding range_update_def
proof (induction src arbitrary: dst)
  case (Cons p src)
  obtain k' v' where p: "p = (k', v')" by fastforce
  with Cons.prems have "map_of src k' = None" by (simp add: map_of_eq_None_iff)
  with p Cons show ?case
    by (cases "k = k'") (auto simp: map_get_def update_conv' split: option.splits)
qed simp

lemma list_all_map_of:
  "wf_map m \<Longrightarrow> list_all (\<lambda>(k, v). P k v) m \<longleftrightarrow> (\<forall>k v. map_of m k = Some v \<longrightarrow> P k v)"
  by (auto simp: list_all_iff map_of_wf)

lemma list_ex_map_of:
  "wf_map m \<Longrightarrow> list_ex (\<lambda>(k, v). P k v) m \<longleftrightarrow> (\<exists>k v. map_of m k = Some v \<and> P k v)"
  by (auto simp: list_ex_iff Bex_def map_of_wf)

lemma AList_update_new: "map_of m k = None \<Longrightarrow> AList.update k v m = m @ [(k, v)]"
  by (induction m) (auto split: if_splits)

lemma map_sum_simps [simp]:
  "map_sum f [] = 0" "map_sum f (p # m) = f (snd p) + map_sum f m"
  by (simp_all add: map_sum_def)

lemma map_sum_update_new:
  "map_of m k = None \<Longrightarrow> map_sum f (AList.update k v m) = map_sum f m + f v"
  by (simp add: AList_update_new map_sum_def)

lemma map_sum_update:
  "map_of m k = Some u \<Longrightarrow> map_sum f (AList.update k v m) = map_sum f m - f u + f v"
  by (induction m) (auto split: if_splits)

lemma delete_absent: "map_of m k = None \<Longrightarrow> AList.delete k m = m"
  by (induction m) (auto simp: AList.delete_eq split: if_splits)

lemma map_sum_delete:
  "wf_map m \<Longrightarrow> map_of m k = Some u \<Longrightarrow> map_sum f (AList.delete k m) = map_sum f m - f u"
proof (induction m)
  case (Cons p m)
  obtain k' v where p: "p = (k', v)" by fastforce
  show ?case
  proof (cases "k = k'")
    case True
    have "map_of m k' = None" using Cons.prems(1) p by (simp add: map_of_eq_None_iff)
    with True Cons.prems p show ?thesis by (simp add: delete_absent)
  qed (use Cons p in simp)
qed simp

section \<open>Unsigned 64-bit arithmetic\<close>

definition add64 :: "nat \<Rightarrow> nat \<Rightarrow> nat" where
  "add64 a b = (a + b) mod 2 ^ 64"

definition sub64 :: "nat \<Rightarrow> nat \<Rightarrow> nat" where
  "sub64 a b = (a + 2 ^ 64 - b) mod 2 ^ 64"

lemma add64_exact: "a + b < 2 ^ 64 \<Longrightarrow> add64 a b = a + b"
  by (simp add: add64_def)

lemma sub64_exact: "b \<le> a \<Longrightarrow> a < 2 ^ 64 \<Longrightarrow> sub64 a b = a - b"
proof -
  assume ab: "b \<le> a" "a < 2 ^ 64"
  then have "a + 2 ^ 64 - b = (a - b) + 2 ^ 64" by simp
  moreover have "a - b < 2 ^ 64" using ab by linarith
  ultimately show ?thesis unfolding sub64_def by (simp only: mod_add_self2 mod_less)
qed

lemma sub64_wraps: "a < b \<Longrightarrow> b \<le> 2 ^ 64 \<Longrightarrow> sub64 a b = 2 ^ 64 - (b - a)"
proof -
  assume ab: "a < b" "b \<le> 2 ^ 64"
  then have "a + 2 ^ 64 - b = 2 ^ 64 - (b - a)" by simp
  with ab show ?thesis unfolding sub64_def by simp
qed

end
