(* ===== verification/Quantities.thy ===== *)
theory Quantities
  imports Prelude
begin

text \<open>
  Resource quantities: \<open>type Quantity int64\<close> of \<open>pkg/common/resources/resources.go\<close> and
  the wrapping-safe calculators \<open>addVal\<close>, \<open>subVal\<close> and \<open>mulVal\<close>. A quantity is a 64-bit
  word read as a two's complement number (\<open>qval\<close>); the plain operators wrap as in Go, and the
  order is the signed one. The calculators are shown to be the exact operations cut off at the
  ends of the range (\<open>sat64\<close>).
\<close>

section \<open>The type Quantity\<close>

datatype quantity = Quantity (int64: "64 word")

definition qval :: "quantity \<Rightarrow> int" where
  "qval q = sint (int64 q)"

abbreviation min_int64 :: int where
  "min_int64 \<equiv> - (2 ^ 63)"

abbreviation max_int64 :: int where
  "max_int64 \<equiv> 2 ^ 63 - 1"

definition in_int64 :: "int \<Rightarrow> bool" where
  "in_int64 i \<longleftrightarrow> min_int64 \<le> i \<and> i \<le> max_int64"

definition sat64 :: "int \<Rightarrow> int" where
  "sat64 i = max min_int64 (min max_int64 i)"

text \<open>Conversion of an integer to \<open>int64\<close>: reduction modulo 2 to the power 64.\<close>

definition quantity_of_int :: "int \<Rightarrow> quantity" where
  "quantity_of_int i = Quantity (word_of_int i)"

definition MinInt64 :: quantity where
  "MinInt64 = Quantity (- 0x8000000000000000)"

definition MaxInt64 :: quantity where
  "MaxInt64 = Quantity 0x7FFFFFFFFFFFFFFF"

instantiation quantity :: "{zero, plus, uminus, times, linorder}"
begin

definition zero_quantity :: quantity where
  "zero_quantity = Quantity 0"

definition plus_quantity :: "quantity \<Rightarrow> quantity \<Rightarrow> quantity" where
  "plus_quantity a b = Quantity (int64 a + int64 b)"

definition uminus_quantity :: "quantity \<Rightarrow> quantity" where
  "uminus_quantity a = Quantity (- int64 a)"

definition times_quantity :: "quantity \<Rightarrow> quantity \<Rightarrow> quantity" where
  "times_quantity a b = Quantity (int64 a * int64 b)"

definition less_eq_quantity :: "quantity \<Rightarrow> quantity \<Rightarrow> bool" where
  "less_eq_quantity a b \<longleftrightarrow> sint (int64 a) \<le> sint (int64 b)"

definition less_quantity :: "quantity \<Rightarrow> quantity \<Rightarrow> bool" where
  "less_quantity a b \<longleftrightarrow> sint (int64 a) < sint (int64 b)"

instance
proof
  fix a b c :: quantity
  show "a < b \<longleftrightarrow> a \<le> b \<and> \<not> b \<le> a"
    by (auto simp: less_eq_quantity_def less_quantity_def)
  show "a \<le> a" and "a \<le> b \<or> b \<le> a"
    by (auto simp: less_eq_quantity_def)
  show "a \<le> b \<Longrightarrow> b \<le> c \<Longrightarrow> a \<le> c"
    by (simp add: less_eq_quantity_def)
  show "a \<le> b \<Longrightarrow> b \<le> a \<Longrightarrow> a = b"
    by (cases a; cases b) (auto simp: less_eq_quantity_def dest: signed_word_eqI)
qed

end

text \<open>Go's integer division truncates towards zero and wraps for the one quotient out of range.\<close>

definition quot64 :: "quantity \<Rightarrow> quantity \<Rightarrow> quantity" where
  "quot64 a b = quantity_of_int (qval a sdiv qval b)"

section \<open>Reading quantities as integers\<close>

lemma qval_range: "in_int64 (qval q)"
  using sint_ge [of "int64 q"] sint_lt [of "int64 q"] by (simp add: in_int64_def qval_def)

lemma qval_eq_iff: "a = b \<longleftrightarrow> qval a = qval b"
  by (cases a; cases b) (auto simp: qval_def signed_word_eqI)

lemma qval_le_iff: "a \<le> b \<longleftrightarrow> qval a \<le> qval b"
  by (simp add: less_eq_quantity_def qval_def)

lemma qval_less_iff: "a < b \<longleftrightarrow> qval a < qval b"
  by (simp add: less_quantity_def qval_def)

lemma qval_Quantity [simp]: "qval (Quantity w) = sint w"
  by (simp add: qval_def)

lemma qval_0 [simp]: "qval 0 = 0"
  by (simp add: qval_def zero_quantity_def)

lemma qval_consts [simp]: "qval MinInt64 = min_int64" "qval MaxInt64 = max_int64"
  by (simp_all add: qval_def MinInt64_def MaxInt64_def)

lemma qval_max [simp]: "qval (max a b) = max (qval a) (qval b)"
  by (simp add: max_def qval_le_iff)

lemma qval_min [simp]: "qval (min a b) = min (qval a) (qval b)"
  by (simp add: min_def qval_le_iff)

definition wrap64 :: "int \<Rightarrow> int" where
  "wrap64 i = (i + 2 ^ 63) mod 2 ^ 64 - 2 ^ 63"

lemma sint_word_of_int_64: "sint (word_of_int i :: 64 word) = wrap64 i"
  by (simp add: int_word_sint wrap64_def)

lemma qval_of_int: "qval (quantity_of_int i) = wrap64 i"
  by (simp add: qval_def quantity_of_int_def sint_word_of_int_64)

lemma wrap64_in_range: "in_int64 (wrap64 i)"
proof -
  have "0 \<le> (i + 2 ^ 63) mod 2 ^ 64" "(i + 2 ^ 63) mod 2 ^ 64 < (2 ^ 64 :: int)" by simp_all
  then show ?thesis by (simp add: in_int64_def wrap64_def)
qed

lemma wrap64_id: "in_int64 i \<Longrightarrow> wrap64 i = i"
  by (simp add: in_int64_def wrap64_def)

lemma wrap64_cong: "wrap64 i mod 2 ^ 64 = i mod 2 ^ 64"
  unfolding wrap64_def by (simp add: mod_simps)

lemma int64_of_qval: "int64 q = word_of_int (qval q)"
  by (simp add: qval_def)

lemma qval_plus: "qval (a + b) = wrap64 (qval a + qval b)"
  by (simp add: plus_quantity_def qval_def flip: sint_word_of_int_64)

lemma qval_times: "qval (a * b) = wrap64 (qval a * qval b)"
  by (simp add: times_quantity_def qval_def flip: sint_word_of_int_64)

lemma qval_uminus: "qval (- a) = wrap64 (- qval a)"
  by (simp add: uminus_quantity_def qval_def flip: sint_word_of_int_64)

lemma sat64_in_range: "in_int64 (sat64 i)"
  by (simp add: sat64_def in_int64_def)

lemma sat64_id [simp]: "in_int64 i \<Longrightarrow> sat64 i = i"
  by (simp add: sat64_def in_int64_def)

lemma sat64_cases:
  "i < min_int64 \<Longrightarrow> sat64 i = min_int64"
  "max_int64 < i \<Longrightarrow> sat64 i = max_int64"
  by (auto simp: sat64_def)

section \<open>Wrapping-safe calculators\<close>

definition addVal :: "quantity \<Rightarrow> quantity \<Rightarrow> quantity" where
  "addVal valA valB =
     (let result = valA + valB
      in if (result < valA) \<noteq> (valB < 0)
         then (if valA < 0 then MinInt64 else MaxInt64)
         else result)"

definition subVal :: "quantity \<Rightarrow> quantity \<Rightarrow> quantity" where
  "subVal valA valB = addVal valA (- valB)"

definition mulVal :: "quantity \<Rightarrow> quantity \<Rightarrow> quantity" where
  "mulVal valA valB =
     (if valA = 0 \<or> valB = 0 then 0
      else
        let result = valA * valB
        in if quot64 result valB \<noteq> valA \<or> (valA = MinInt64 \<and> valB = Quantity (- 1))
           then (if (valA < 0) \<noteq> (valB < 0) then MinInt64 else MaxInt64)
           else result)"

lemma wrap64_period: "wrap64 (i + 2 ^ 64) = wrap64 i"
proof -
  have "i + 2 ^ 64 + 2 ^ 63 = i + 2 ^ 63 + (2 ^ 64 :: int)" by (simp only: ac_simps)
  then show ?thesis unfolding wrap64_def by (simp only: mod_add_self2)
qed

lemma wrap64_add_cases:
  assumes "in_int64 a" "in_int64 b"
  shows "wrap64 (a + b) =
    (if a + b < min_int64 then a + b + 2 ^ 64
     else if max_int64 < a + b then a + b - 2 ^ 64 else a + b)"
proof -
  consider "a + b < min_int64" | "max_int64 < a + b" | "in_int64 (a + b)"
    unfolding in_int64_def by linarith
  then show ?thesis
  proof cases
    case 1
    then have "in_int64 (a + b + 2 ^ 64)" using assms by (simp add: in_int64_def)
    with 1 show ?thesis using wrap64_period [of "a + b"] wrap64_id by simp
  next
    case 2
    then have "in_int64 (a + b - 2 ^ 64)" using assms by (simp add: in_int64_def)
    with 2 show ?thesis using wrap64_period [of "a + b - 2 ^ 64"] wrap64_id by simp
  next
    case 3
    then show ?thesis by (simp add: wrap64_id) (simp add: in_int64_def)
  qed
qed

text \<open>The sign test of \<open>addVal\<close> detects every overflow, and the value returned is the nearest
  representable one.\<close>

lemma qval_addVal [amount_simps]: "qval (addVal a b) = sat64 (qval a + qval b)"
  using qval_range [of a] qval_range [of b] wrap64_add_cases [of "qval a" "qval b"]
  by (auto simp: addVal_def Let_def qval_less_iff qval_plus sat64_def in_int64_def)

lemma qval_subVal_gen:
  "qval (subVal a b) = sat64 (qval a + (if b = MinInt64 then min_int64 else - qval b))"
proof (cases "b = MinInt64")
  case True
  then show ?thesis by (simp add: subVal_def qval_addVal qval_uminus wrap64_def)
next
  case False
  then have "qval b \<noteq> min_int64" by (simp add: qval_eq_iff)
  then have "in_int64 (- qval b)" using qval_range [of b] by (auto simp: in_int64_def)
  with False show ?thesis by (simp add: subVal_def qval_addVal qval_uminus wrap64_id)
qed

lemma qval_subVal [amount_simps]:
  "b \<noteq> MinInt64 \<Longrightarrow> qval (subVal a b) = sat64 (qval a - qval b)"
  by (simp add: qval_subVal_gen)

section \<open>Multiplication\<close>

lemma sdiv_mult_cancel: assumes "(b::int) \<noteq> 0" shows "(a * b) sdiv b = a"
proof -
  have "\<bar>a * b\<bar> div \<bar>b\<bar> = \<bar>a\<bar>" using assms by (simp add: abs_mult)
  moreover have "sgn (a * b) * sgn b = sgn a" 
    by (simp only: sgn_mult mult.assoc sgn_mult_self_eq) (simp add: assms)
  ultimately show ?thesis
    by (simp only: signed_divide_int_def) (simp add: sgn_mult_abs)
qed

lemma sdiv_abs_le: "2 \<le> \<bar>b\<bar> \<Longrightarrow> \<bar>a sdiv b\<bar> \<le> \<bar>a\<bar> div (2::int)"
proof -
  assume b: "2 \<le> \<bar>b\<bar>"
  have n: "0 \<le> \<bar>a\<bar> div \<bar>b\<bar>" by (simp add: div_int_pos_iff)
  have "\<bar>a sdiv b\<bar> = \<bar>sgn a * sgn b\<bar> * (\<bar>a\<bar> div \<bar>b\<bar>)"
    using n by (simp add: signed_divide_int_def abs_mult)
  also have "\<dots> \<le> 1 * (\<bar>a\<bar> div \<bar>b\<bar>)" using n by (intro mult_right_mono) (auto simp: sgn_if)
  also have "\<dots> \<le> \<bar>a\<bar> div 2" using b by (simp add: zdiv_mono2)
  finally show ?thesis .
qed

lemma mult_detect:
  assumes A: "in_int64 A" and B: "in_int64 B" "B \<noteq> 0" "\<not> (A = min_int64 \<and> B = -1)"
    and eq: "wrap64 (wrap64 (A * B) sdiv B) = A"
  shows "in_int64 (A * B)"
proof (rule ccontr)
  assume out: "\<not> in_int64 (A * B)"
  define R where "R = wrap64 (A * B)"
  have R: "in_int64 R" by (simp add: R_def wrap64_in_range)
  have "B \<noteq> 1" using A out by auto
  moreover have "B \<noteq> - 1" using A B(3) out by (auto simp: in_int64_def)
  ultimately have B2: "2 \<le> \<bar>B\<bar>" using B(2) by linarith
  have "\<bar>R sdiv B\<bar> \<le> \<bar>R\<bar> div 2" using B2 by (rule sdiv_abs_le)
  moreover have "\<bar>R\<bar> div 2 \<le> 2 ^ 62" using R by (auto simp: in_int64_def abs_if)
  ultimately have "in_int64 (R sdiv B)" by (auto simp: in_int64_def abs_le_iff)
  with eq have q: "R sdiv B = A" by (simp add: wrap64_id R_def)
  have r: "R smod B = R - A * B" using q minus_sdiv_mult_eq_smod [of R B] by simp
  have "2 ^ 64 dvd R - A * B"
    using wrap64_cong [of "A * B"] by (simp only: R_def mod_eq_dvd_iff)
  moreover have "\<bar>R - A * B\<bar> < 2 ^ 64"
    using smod_int_range [of B R] B r by (auto simp: in_int64_def)
  ultimately have "R = A * B" by (meson dvd_imp_le_int eq_iff_diff_eq_0 linorder_not_le order_trans abs_ge_self)
  with R out show False by simp
qed
lemma qval_quot64: "qval (quot64 a b) = wrap64 (qval a sdiv qval b)"
  by (simp add: quot64_def qval_of_int)

lemma qval_minus1: "qval (Quantity (- 1)) = - 1"
  by (simp add: qval_def)

lemma mulVal_test_iff:
  assumes "qval b \<noteq> 0"
  shows "quot64 (a * b) b \<noteq> a \<or> (a = MinInt64 \<and> b = Quantity (- 1)) \<longleftrightarrow>
    \<not> in_int64 (qval a * qval b)"
proof
  assume "\<not> in_int64 (qval a * qval b)"
  then show "quot64 (a * b) b \<noteq> a \<or> (a = MinInt64 \<and> b = Quantity (- 1))"
    using mult_detect [of "qval a" "qval b"] qval_range [of a] qval_range [of b] assms
    by (auto simp: qval_eq_iff qval_quot64 qval_times qval_minus1)
next
  assume l: "quot64 (a * b) b \<noteq> a \<or> (a = MinInt64 \<and> b = Quantity (- 1))"
  show "\<not> in_int64 (qval a * qval b)"
  proof
    assume r: "in_int64 (qval a * qval b)"
    then have "\<not> (a = MinInt64 \<and> b = Quantity (- 1))"
      by (auto simp: qval_minus1 in_int64_def)
    moreover have "quot64 (a * b) b = a"
      using r assms qval_range [of a]
      by (simp add: qval_eq_iff qval_quot64 qval_times wrap64_id sdiv_mult_cancel)
    ultimately show False using l by simp
  qed
qed

lemma sat64_mult_out:
  assumes "\<not> in_int64 (a * b)"
  shows "sat64 (a * b) = (if (a < 0) \<noteq> (b < 0) then min_int64 else max_int64)"
proof (cases "(a < 0) \<noteq> (b < 0)")
  case True
  then have "a * b \<le> 0" by (auto simp: mult_le_0_iff)
  with assms True show ?thesis by (auto simp: in_int64_def sat64_def)
next
  case False
  then have "0 \<le> a * b" by (auto simp: zero_le_mult_iff)
  with assms False show ?thesis by (auto simp: in_int64_def sat64_def)
qed

lemma qval_mulVal [amount_simps]: "qval (mulVal a b) = sat64 (qval a * qval b)"
proof (cases "a = 0 \<or> b = 0")
  case True
  then show ?thesis by (auto simp: mulVal_def sat64_def)
next
  case False
  then have nz: "qval b \<noteq> 0" by (simp add: qval_eq_iff)
  show ?thesis
  proof (cases "in_int64 (qval a * qval b)")
    case True
    with False mulVal_test_iff [OF nz, of a] show ?thesis
      by (auto simp: mulVal_def Let_def qval_times wrap64_id)
  next
    case out: False
    with False mulVal_test_iff [OF nz, of a] show ?thesis
      by (auto simp: mulVal_def Let_def qval_less_iff sat64_mult_out)
  qed
qed

section \<open>Properties\<close>



text \<open>
  Subtracting the smallest 64-bit integer does not saturate upwards: its negation wraps to
  itself, so that zero minus the minimum is reported as the minimum instead of the maximum.
\<close>

lemma subVal_min_wraps:
  "qval (subVal 0 MinInt64) = min_int64 \<and> sat64 (qval 0 - qval MinInt64) = max_int64"
  by (simp add: qval_subVal_gen sat64_def)

end
