(* ===== verification/QuantityParse.thy ===== *)
theory QuantityParse
  imports Quantities
begin

text \<open>
  Parsing of configured quantities (\<open>pkg/common/resources/quantity.go\<close>): a decimal number with
  an optional SI suffix, and printing of a quantity (\<open>Quantity.string\<close>). Strings are byte
  lists; the white space trimmed at the ends is the ASCII white space. The regular expression
  \<open>legal\<close> is written as a matcher that splits the digits from the suffix.
\<close>

section \<open>Characters and decimal numbers\<close>

definition is_digit :: "char \<Rightarrow> bool" where
  "is_digit c \<longleftrightarrow> (48::nat) \<le> of_char c \<and> of_char c \<le> (57::nat)"

text \<open>\<open>unicode.IsSpace\<close> on ASCII, and the class \<open>\s\<close> of the regular expression (no vertical tab).\<close>

definition is_space :: "char \<Rightarrow> bool" where
  "is_space c \<longleftrightarrow> ((9::nat) \<le> of_char c \<and> of_char c \<le> (13::nat)) \<or> of_char c = (32::nat)"

definition is_re_space :: "char \<Rightarrow> bool" where
  "is_re_space c \<longleftrightarrow> is_space c \<and> of_char c \<noteq> (11::nat)"

definition TrimSpace :: "string \<Rightarrow> string" where
  "TrimSpace s = rev (dropWhile is_space (rev (dropWhile is_space s)))"

definition digits_val :: "string \<Rightarrow> nat" where
  "digits_val ds = foldl (\<lambda>n c. 10 * n + (of_char c - 48)) 0 ds"

datatype parse_error = InvalidQuantity | InvalidQuantityOverflow | InvalidSuffix

text \<open>\<open>strconv.ParseInt(number, 10, 64)\<close> on a string of digits.\<close>

definition ParseInt :: "string \<Rightarrow> int option" where
  "ParseInt ds = (let n = int (digits_val ds) in if n \<le> max_int64 then Some n else None)"

section \<open>The parser\<close>

text \<open>\<open>^([0-9]+)\s*(([mkKMGTPE]i?)?)$\<close>: the number and the suffix of a legal value.\<close>

definition legal :: "string \<Rightarrow> (string \<times> string) option" where
  "legal s =
     (let number = takeWhile is_digit s;
          suffix = dropWhile is_re_space (dropWhile is_digit s)
      in if number = [] then None
         else case suffix of
             [] \<Rightarrow> Some (number, suffix)
           | [c] \<Rightarrow> if c \<in> set ''mkKMGTPE'' then Some (number, suffix) else None
           | [c, d] \<Rightarrow> if c \<in> set ''mkKMGTPE'' \<and> d = CHR ''i'' then Some (number, suffix) else None
           | _ \<Rightarrow> None)"

definition multipliers :: "(string \<times> int) list" where
  "multipliers =
     [('''', 1), (''m'', 1), (''k'', 10 ^ 3), (''M'', 10 ^ 6), (''G'', 10 ^ 9), (''T'', 10 ^ 12),
      (''P'', 10 ^ 15), (''E'', 10 ^ 18), (''Ki'', 2 ^ 10), (''Mi'', 2 ^ 20), (''Gi'', 2 ^ 30),
      (''Ti'', 2 ^ 40), (''Pi'', 2 ^ 50), (''Ei'', 2 ^ 60)]"

definition parse :: "string \<Rightarrow> bool \<Rightarrow> parse_error + quantity" where
  "parse value milli =
     (case legal (TrimSpace value) of
        None \<Rightarrow> Inl InvalidQuantity
      | Some (number, suffix) \<Rightarrow>
          (case ParseInt number of
             None \<Rightarrow> Inl InvalidQuantityOverflow
           | Some result \<Rightarrow>
               (case map_of multipliers suffix of
                  None \<Rightarrow> Inl InvalidSuffix
                | Some scale \<Rightarrow>
                    if suffix = ''m'' \<and> \<not> milli then Inl InvalidSuffix
                    else
                      let bigResult = result * scale;
                          bigResult = (if milli \<and> suffix \<noteq> ''m'' then bigResult * 1000 else bigResult)
                      in if in_int64 bigResult then Inr (quantity_of_int bigResult)
                         else Inl InvalidQuantityOverflow)))"

definition ParseQuantity :: "string \<Rightarrow> parse_error + quantity" where
  "ParseQuantity value = parse value False"

definition ParseVCore :: "string \<Rightarrow> parse_error + quantity" where
  "ParseVCore value = parse value True"

section \<open>Printing\<close>

fun show_nat :: "nat \<Rightarrow> string" where
  "show_nat n = (if n < 10 then [char_of (48 + n)] else show_nat (n div 10) @ [char_of (48 + n mod 10)])"

declare show_nat.simps [simp del]

text \<open>\<open>Quantity.string\<close>: \<open>strconv.FormatInt(int64(q), 10)\<close>.\<close>

definition quantity_string :: "quantity \<Rightarrow> string" where
  "quantity_string q =
     (if q < 0 then CHR ''-'' # show_nat (nat (- qval q)) else show_nat (nat (qval q)))"

section \<open>Printing and parsing agree\<close>

lemma of_char_digit [simp]: "d < 10 \<Longrightarrow> of_char (char_of (48 + d) :: char) = (48 + d :: nat)"
  by (simp add: of_char_of)

lemma show_nat_digits: "list_all is_digit (show_nat n)"
proof (induction n rule: show_nat.induct)
  case (1 n)
  then show ?case
    by (cases "n < 10") (simp_all add: show_nat.simps [of n] is_digit_def)
qed

lemma show_nat_nonempty: "show_nat n \<noteq> []"
  by (simp add: show_nat.simps)

lemma digits_val_show_nat: "digits_val (show_nat n) = n"
proof (induction n rule: show_nat.induct)
  case (1 n)
  then show ?case
    by (cases "n < 10") (simp_all add: show_nat.simps [of n] digits_val_def)
qed

lemma digit_not_space: "is_digit c \<Longrightarrow> \<not> is_space c"
  by (auto simp: is_digit_def is_space_def)

lemma TrimSpace_id:
  "s \<noteq> [] \<Longrightarrow> \<not> is_space (hd s) \<Longrightarrow> \<not> is_space (last s) \<Longrightarrow> TrimSpace s = s"
  by (simp add: TrimSpace_def dropWhile_eq_self_iff [THEN iffD2] hd_rev)

lemma suffix_chars:
  assumes "(sfx, scale) \<in> set multipliers"
  shows "list_all (\<lambda>c. \<not> is_space c \<and> \<not> is_digit c) sfx"
  using assms by (auto simp: multipliers_def is_space_def is_digit_def)

lemma TrimSpace_number:
  assumes "list_all is_digit ds" "ds \<noteq> []" "list_all (\<lambda>c. \<not> is_space c \<and> \<not> is_digit c) sfx"
  shows "TrimSpace (ds @ sfx) = ds @ sfx"
proof (rule TrimSpace_id)
  show "ds @ sfx \<noteq> []" using assms by simp
  show "\<not> is_space (hd (ds @ sfx))"
    using assms by (cases ds) (auto dest: digit_not_space)
  have "\<forall>c \<in> set (ds @ sfx). \<not> is_space c"
    using assms by (auto simp: list_all_iff dest: digit_not_space)
  then show "\<not> is_space (last (ds @ sfx))" using assms by (meson last_in_set append_is_Nil_conv)
qed

lemma split_number:
  assumes "list_all is_digit ds" "list_all (\<lambda>c. \<not> is_space c \<and> \<not> is_digit c) sfx"
  shows "takeWhile is_digit (ds @ sfx) = ds"
    and "dropWhile is_re_space (dropWhile is_digit (ds @ sfx)) = sfx"
proof -
  have all: "\<forall>c \<in> set ds. is_digit c" using assms(1) by (simp add: list_all_iff)
  then show "takeWhile is_digit (ds @ sfx) = ds"
    using assms(2) by (cases sfx) (simp_all add: takeWhile_append2)
  from all assms(2) have d: "dropWhile is_digit (ds @ sfx) = sfx"
    by (cases sfx) (simp_all add: dropWhile_append2)
  show "dropWhile is_re_space (dropWhile is_digit (ds @ sfx)) = sfx"
    unfolding d using assms(2) by (cases sfx) (simp_all add: is_re_space_def)
qed

lemma legal_number:
  assumes "list_all is_digit ds" "ds \<noteq> []" "(sfx, scale) \<in> set multipliers"
  shows "legal (ds @ sfx) = Some (ds, sfx)"
  using assms(2,3) split_number [OF assms(1) suffix_chars [OF assms(3)]]
  unfolding legal_def multipliers_def by auto

lemma map_of_multipliers:
  "(sfx, scale) \<in> set multipliers \<Longrightarrow> map_of multipliers sfx = Some scale"
  by (rule map_of_is_SomeI) (simp_all add: multipliers_def)

text \<open>Every number printed with a suffix of the table is read back as the scaled number.\<close>

lemma parse_number:
  assumes "(sfx, scale) \<in> set multipliers" "sfx = ''m'' \<longrightarrow> milli"
  shows "parse (show_nat n @ sfx) milli =
    (let v = int n * scale * (if milli \<and> sfx \<noteq> ''m'' then 1000 else 1)
     in if int n \<le> max_int64 \<and> in_int64 v then Inr (quantity_of_int v)
        else Inl InvalidQuantityOverflow)"
proof -
  have "legal (TrimSpace (show_nat n @ sfx)) = Some (show_nat n, sfx)"
    using assms(1) by (simp add: TrimSpace_number legal_number show_nat_digits
        show_nat_nonempty suffix_chars)
  with assms show ?thesis
    by (auto simp: parse_def map_of_multipliers ParseInt_def digits_val_show_nat Let_def)
qed

lemma quantity_of_int_qval: "quantity_of_int (qval q) = q"
  by (simp add: qval_eq_iff qval_of_int wrap64_id qval_range)

section \<open>Properties\<close>



end
