(* ===== verification/Resources.thy ===== *)
theory Resources
  imports QuantityParse
begin

text \<open>
  Sparse resource vectors: \<open>type Resource struct\<close> and its operations in
  \<open>pkg/common/resources/resources.go\<close>. The struct has one field, the map of quantities, and is
  modelled by that map; a pointer that may be nil is an option (\<open>None\<close> is nil). Operations that
  update their receiver return the updated receiver. Logging is left out. The operations on
  floating point ratios are not part of this theory.
\<close>

section \<open>Data\<close>

type_synonym resource = "quantity gomap"

abbreviation rget :: "resource \<Rightarrow> string \<Rightarrow> quantity" where
  "rget r k \<equiv> map_get 0 r k"

definition NewResource :: resource where
  "NewResource = []"

text \<open>\<open>if r == nil { r = Zero }\<close>\<close>

definition orZero :: "resource option \<Rightarrow> resource" where
  "orZero r = (case r of None \<Rightarrow> NewResource | Some m \<Rightarrow> m)"

definition NewResourceFromMap :: "resource option \<Rightarrow> resource" where
  "NewResourceFromMap m = (case m of None \<Rightarrow> NewResource | Some m' \<Rightarrow> m')"

text \<open>The configured value of the CPU type is read in cores; its name is a constant of the
  scheduler interface and a parameter here.\<close>

fun newResourceFromConf_loop ::
    "string \<Rightarrow> string gomap \<Rightarrow> resource \<Rightarrow> parse_error + resource" where
  "newResourceFromConf_loop cpu [] res = Inr res"
| "newResourceFromConf_loop cpu ((key, strVal) # m) res =
     (case (if key = cpu then ParseVCore strVal else ParseQuantity strVal) of
        Inl err \<Rightarrow> Inl err
      | Inr intValue \<Rightarrow> newResourceFromConf_loop cpu m (AList.update key intValue res))"

definition NewResourceFromConf :: "string \<Rightarrow> string gomap \<Rightarrow> parse_error + resource" where
  "NewResourceFromConf cpu configMap = newResourceFromConf_loop cpu configMap NewResource"

definition cloneMap :: "resource \<Rightarrow> resource" where
  "cloneMap m = range_update (\<lambda>_ _ v. v) 0 m NewResource"

definition Clone :: "resource option \<Rightarrow> resource option" where
  "Clone r = (case r of None \<Rightarrow> None | Some m \<Rightarrow> Some (cloneMap m))"

definition Prune :: "resource option \<Rightarrow> resource option" where
  "Prune r = (case r of None \<Rightarrow> None | Some m \<Rightarrow> Some (filter (\<lambda>(k, v). v \<noteq> 0) m))"

section \<open>Addition and subtraction\<close>

definition AddTo :: "resource option \<Rightarrow> resource option \<Rightarrow> resource option" where
  "AddTo r add =
     (case r of
        None \<Rightarrow> None
      | Some m \<Rightarrow>
          (case add of None \<Rightarrow> Some m | Some a \<Rightarrow> Some (range_update (\<lambda>_. addVal) 0 a m)))"

definition SubFrom :: "resource option \<Rightarrow> resource option \<Rightarrow> resource option" where
  "SubFrom r sub =
     (case r of
        None \<Rightarrow> None
      | Some m \<Rightarrow>
          (case sub of None \<Rightarrow> Some m | Some s \<Rightarrow> Some (range_update (\<lambda>_. subVal) 0 s m)))"

definition Add :: "resource option \<Rightarrow> resource option \<Rightarrow> resource option" where
  "Add left right =
     (let left = orZero left
      in case right of
           None \<Rightarrow> Clone (Some left)
         | Some r \<Rightarrow> Some (range_update (\<lambda>_. addVal) 0 r (cloneMap left)))"

definition Sub :: "resource option \<Rightarrow> resource option \<Rightarrow> resource option" where
  "Sub left right =
     (let left = orZero left
      in case right of
           None \<Rightarrow> Clone (Some left)
         | Some r \<Rightarrow> Some (range_update (\<lambda>_. subVal) 0 r (cloneMap left)))"

definition SubOnlyExisting :: "resource option \<Rightarrow> resource option \<Rightarrow> resource option" where
  "SubOnlyExisting base delta =
     (case (base, delta) of
        (Some b, Some d) \<Rightarrow>
          Some (range_update (\<lambda>k _ _. subVal (rget b k) (rget d k)) 0 b NewResource)
      | _ \<Rightarrow> Clone base)"

definition AddOnlyExisting :: "resource option \<Rightarrow> resource option \<Rightarrow> resource option" where
  "AddOnlyExisting base delta =
     (case (base, delta) of
        (Some b, Some d) \<Rightarrow>
          Some (range_update (\<lambda>k _ _. addVal (rget b k) (rget d k)) 0 b NewResource)
      | _ \<Rightarrow> Clone base)"

definition subNonNegative_step ::
    "string \<times> quantity \<Rightarrow> resource \<times> string \<Rightarrow> resource \<times> string" where
  "subNonNegative_step = (\<lambda>(k, v) (out, message).
     let out = AList.update k (subVal (rget out k) v) out
     in if rget out k < 0
        then (AList.update k 0 out,
              if message = [] then ''resource quantity less than zero for: '' @ k
              else message @ '', '' @ k)
        else (out, message))"

definition subNonNegative :: "resource option \<Rightarrow> resource option \<Rightarrow> resource option \<times> string" where
  "subNonNegative left right =
     (let left = orZero left
      in case right of
           None \<Rightarrow> (Clone (Some left), [])
         | Some r \<Rightarrow>
             (case fold subNonNegative_step r (cloneMap left, []) of
                (out, message) \<Rightarrow> (Some out, message)))"

definition SubEliminateNegative :: "resource option \<Rightarrow> resource option \<Rightarrow> resource option" where
  "SubEliminateNegative left right = fst (subNonNegative left right)"

definition SubErrorNegative ::
    "resource option \<Rightarrow> resource option \<Rightarrow> resource option \<times> string option" where
  "SubErrorNegative left right =
     (case subNonNegative left right of
        (res, message) \<Rightarrow> (res, if message \<noteq> [] then Some message else None))"

definition Multiply :: "resource option \<Rightarrow> quantity \<Rightarrow> resource option" where
  "Multiply base ratio =
     (case base of
        None \<Rightarrow> Some NewResource
      | Some b \<Rightarrow>
          if ratio = 0 then Some NewResource
          else Some (range_update (\<lambda>_ _ v. mulVal v ratio) 0 b NewResource))"

section \<open>Comparisons\<close>

definition fitIn :: "resource option \<Rightarrow> resource option \<Rightarrow> bool \<Rightarrow> bool \<Rightarrow> bool" where
  "fitIn r smaller skipUndef actual =
     (let r = orZero r
      in case smaller of
           None \<Rightarrow> True
         | Some s \<Rightarrow>
             list_all (\<lambda>(k, v).
               let ok = map_has r k; largerValue = rget r k
               in if skipUndef \<and> \<not> ok then True
                  else let largerValue = (if \<not> actual then max 0 largerValue else largerValue)
                       in \<not> v > largerValue) s)"

definition FitIn :: "resource option \<Rightarrow> resource option \<Rightarrow> bool" where
  "FitIn r smaller = fitIn r smaller False False"

definition FitInMaxUndef :: "resource option \<Rightarrow> resource option \<Rightarrow> bool" where
  "FitInMaxUndef r smaller = fitIn r smaller True False"

definition FitInActual :: "resource option \<Rightarrow> resource option \<Rightarrow> bool" where
  "FitInActual r smaller = fitIn r smaller True True"

definition Equals :: "resource option \<Rightarrow> resource option \<Rightarrow> bool" where
  "Equals left right =
     (case (left, right) of
        (None, None) \<Rightarrow> True
      | (Some l, Some r) \<Rightarrow>
          list_all (\<lambda>(k, v). rget r k = v) l \<and> list_all (\<lambda>(k, v). rget l k = v) r
      | _ \<Rightarrow> False)"

definition DeepEquals :: "resource option \<Rightarrow> resource option \<Rightarrow> bool" where
  "DeepEquals left right =
     (case (left, right) of
        (None, None) \<Rightarrow> True
      | (Some l, Some r) \<Rightarrow>
          length r = length l \<and> list_all (\<lambda>(k, v). map_has r k \<and> rget r k = v) l
      | _ \<Rightarrow> False)"

text \<open>The first argument says whether the receiver and the argument are the same pointer.\<close>

definition MatchAny :: "bool \<Rightarrow> resource option \<Rightarrow> resource option \<Rightarrow> bool" where
  "MatchAny same r other =
     (case (r, other) of
        (Some m, Some p) \<Rightarrow> if same then True else list_ex (\<lambda>(k, v). map_has p k) m
      | _ \<Rightarrow> False)"

definition IsEmpty :: "resource option \<Rightarrow> bool" where
  "IsEmpty r = (case r of None \<Rightarrow> True | Some m \<Rightarrow> length m = 0)"

definition IsZero :: "resource option \<Rightarrow> bool" where
  "IsZero zero = (case zero of None \<Rightarrow> True | Some m \<Rightarrow> list_all (\<lambda>(k, v). v = 0) m)"

definition EqualsOrEmpty :: "resource option \<Rightarrow> resource option \<Rightarrow> bool" where
  "EqualsOrEmpty left right =
     (if IsZero left \<and> IsZero right then True else Equals left right)"

definition StrictlyGreaterThan :: "resource option \<Rightarrow> resource option \<Rightarrow> bool" where
  "StrictlyGreaterThan larger smaller =
     (let l = orZero larger; s = orZero smaller
      in if list_ex (\<lambda>(k, v). rget s k > v) l \<or> list_ex (\<lambda>(k, v). rget l k < v) s then False
         else list_ex (\<lambda>(k, v). rget s k \<noteq> v) l \<or> list_ex (\<lambda>(k, v). rget l k \<noteq> v) s)"

definition StrictlyGreaterThanOrEquals :: "resource option \<Rightarrow> resource option \<Rightarrow> bool" where
  "StrictlyGreaterThanOrEquals larger smaller =
     (let l = orZero larger; s = orZero smaller
      in \<not> list_ex (\<lambda>(k, v). rget s k > v) l \<and> \<not> list_ex (\<lambda>(k, v). rget l k < v) s)"

definition internalStrictlyOnlyExisting ::
    "resource option \<Rightarrow> resource option \<Rightarrow> bool \<Rightarrow> bool" where
  "internalStrictlyOnlyExisting r smaller doEqualsCheck =
     (let r = orZero r; smaller = orZero smaller;
          isAllPositiveInLarger = \<not> list_ex (\<lambda>(k, v). IsEmpty (Some smaller) \<and> v \<le> 0) r;
          atleastOneResourcePresent = list_ex (\<lambda>(k, v). map_has smaller k) r;
          equal = list_ex (\<lambda>(k, v). map_has smaller k \<and> rget smaller k \<le> v) r;
          notEqual = list_ex (\<lambda>(k, v). map_has smaller k \<and> rget smaller k \<noteq> v) r
      in if list_ex (\<lambda>(k, v). map_has smaller k \<and> rget smaller k > v) r then False
         else if IsEmpty (Some smaller) \<and> \<not> IsEmpty (Some r) then isAllPositiveInLarger
         else if atleastOneResourcePresent then (if doEqualsCheck then equal else notEqual)
         else \<not> IsEmpty (Some r) \<and> \<not> IsEmpty (Some smaller))"

definition StrictlyGreaterThanOnlyExisting :: "resource option \<Rightarrow> resource option \<Rightarrow> bool" where
  "StrictlyGreaterThanOnlyExisting r smaller = internalStrictlyOnlyExisting r smaller False"

definition StrictlyGreaterThanOrEqualsOnlyExisting ::
    "resource option \<Rightarrow> resource option \<Rightarrow> bool" where
  "StrictlyGreaterThanOrEqualsOnlyExisting r smaller = internalStrictlyOnlyExisting r smaller True"

definition StrictlyGreaterThanZero :: "resource option \<Rightarrow> bool" where
  "StrictlyGreaterThanZero larger =
     (case larger of
        None \<Rightarrow> False
      | Some l \<Rightarrow>
          if list_ex (\<lambda>(k, v). v < 0) l then False else list_ex (\<lambda>(k, v). v > 0) l)"

definition HasNegativeValue :: "resource option \<Rightarrow> bool" where
  "HasNegativeValue r = (case r of None \<Rightarrow> False | Some m \<Rightarrow> list_ex (\<lambda>(k, v). v < 0) m)"

text \<open>Integer division by zero panics in Go: \<open>None\<close>.\<close>

definition TypeMatching :: "resource option \<Rightarrow> resource option \<Rightarrow> nat option" where
  "TypeMatching r other =
     (case (r, other) of
        (Some m, Some p) \<Rightarrow>
          let matchingResTypes = length (filter (\<lambda>(k, v). map_has m k) p)
          in if length m = 0 then None else Some (matchingResTypes * 100 div length m)
      | _ \<Rightarrow> Some 0)"

section \<open>Component-wise minimum and maximum\<close>

definition minIfPresent :: "resource \<Rightarrow> string \<Rightarrow> quantity \<Rightarrow> quantity" where
  "minIfPresent other k v = (if map_has other k then min v (rget other k) else v)"

definition ComponentWiseMin :: "resource option \<Rightarrow> resource option \<Rightarrow> resource option" where
  "ComponentWiseMin left right =
     (case (left, right) of
        (None, None) \<Rightarrow> None
      | (None, Some r) \<Rightarrow> Clone (Some r)
      | (Some l, None) \<Rightarrow> Clone (Some l)
      | (Some l, Some r) \<Rightarrow>
          let out = range_update (\<lambda>k _ v. minIfPresent r k v) 0 l NewResource
          in Some (range_update (\<lambda>k _ v. minIfPresent l k v) 0 r out))"

definition ComponentWiseMinOnlyExisting ::
    "resource option \<Rightarrow> resource option \<Rightarrow> resource option" where
  "ComponentWiseMinOnlyExisting left right =
     (case (left, right) of
        (None, _) \<Rightarrow> None
      | (Some l, None) \<Rightarrow> Clone (Some l)
      | (Some l, Some r) \<Rightarrow> Some (range_update (\<lambda>k _ v. minIfPresent r k v) 0 l NewResource))"

definition MergeIfNotPresent :: "resource option \<Rightarrow> resource option \<Rightarrow> resource option" where
  "MergeIfNotPresent left right =
     (case (left, right) of
        (None, None) \<Rightarrow> None
      | (None, Some r) \<Rightarrow> Clone (Some r)
      | (Some l, None) \<Rightarrow> Clone (Some l)
      | (Some l, Some r) \<Rightarrow>
          Some (fold (\<lambda>(k, v) out. if \<not> map_has l k then AList.update k v out else out)
                  r (cloneMap l)))"

definition ComponentWiseMax :: "resource option \<Rightarrow> resource option \<Rightarrow> resource option" where
  "ComponentWiseMax left right =
     (case (left, right) of
        (Some l, Some r) \<Rightarrow>
          let out = range_update (\<lambda>k _ v. max v (rget r k)) 0 l NewResource
          in Some (range_update (\<lambda>k _ v. max v (rget l k)) 0 r out)
      | _ \<Rightarrow> Some NewResource)"

section \<open>Amounts\<close>

text \<open>The amount of a type in a resource: zero where the type, or the whole resource, is missing.\<close>

definition amount :: "resource option \<Rightarrow> string \<Rightarrow> int" where
  "amount r k = qval (rget (orZero r) k)"

definition res_has :: "resource option \<Rightarrow> string \<Rightarrow> bool" where
  "res_has r k \<longleftrightarrow> map_of (orZero r) k \<noteq> None"

definition wf_res :: "resource option \<Rightarrow> bool" where
  "wf_res r \<longleftrightarrow> wf_map (orZero r)"

lemma orZero_simps [simp]: "orZero None = []" "orZero (Some m) = m"
  by (simp_all add: orZero_def NewResource_def)

lemma wf_res_simps [simp]: "wf_res None" "wf_res (Some m) \<longleftrightarrow> wf_map m"
  by (simp_all add: wf_res_def)

lemma amount_None [simp]: "amount None k = 0"
  by (simp add: amount_def)

lemma res_has_None [simp]: "\<not> res_has None k"
  by (simp add: res_has_def)

lemma amount_range: "in_int64 (amount r k)"
  by (simp add: amount_def qval_range)

lemma amount_bounds: "min_int64 \<le> amount r k" "amount r k \<le> max_int64"
  using amount_range [of r k] by (auto simp: in_int64_def)

lemma amount_undefined: "\<not> res_has r k \<Longrightarrow> amount r k = 0"
  by (simp add: res_has_def amount_def)

lemma amount_of_Some: "map_of (orZero r) k = Some v \<Longrightarrow> amount r k = qval v"
  by (simp add: amount_def)

lemma res_hasE:
  assumes "res_has r k"
  obtains v where "map_of (orZero r) k = Some v" "amount r k = qval v"
  using assms by (auto simp: res_has_def amount_def)

lemma map_of_cloneMap [lookup_simps]: "wf_map m \<Longrightarrow> map_of (cloneMap m) k = map_of m k"
  by (simp add: cloneMap_def lookup_simps NewResource_def split: option.splits)

lemma wf_cloneMap [wf_intros]: "wf_map (cloneMap m)"
  by (simp add: cloneMap_def NewResource_def wf_intros)

lemma cloneMap_id: "wf_map m \<Longrightarrow> cloneMap m = m"
proof -
  have "range_update (\<lambda>_ _ v. v) d m acc = acc @ m" if "wf_map (acc @ m)" for d acc
    using that
  proof (induction m arbitrary: acc)
    case (Cons p m)
    obtain k v where p: "p = (k, v)" by fastforce
    with Cons.prems have "AList.update k v acc = acc @ [(k, v)]"
      by (induction acc) auto
    with p Cons.IH [of "acc @ [(k, v)]"] Cons.prems show ?case
      by (simp add: range_update_def)
  qed (simp add: range_update_def)
  then show "wf_map m \<Longrightarrow> cloneMap m = m"
    by (simp add: cloneMap_def NewResource_def)
qed

lemma Clone_id: "wf_res r \<Longrightarrow> Clone r = r"
  by (cases r) (simp_all add: Clone_def cloneMap_id)

lemmas res_op_defs =
  Clone_def Prune_def AddTo_def SubFrom_def Add_def Sub_def SubOnlyExisting_def AddOnlyExisting_def
  Multiply_def ComponentWiseMin_def ComponentWiseMinOnlyExisting_def ComponentWiseMax_def Let_def
  NewResource_def

lemma wf_res_ops [wf_intros]:
  "wf_res r \<Longrightarrow> wf_res (Clone r)"
  "wf_res r \<Longrightarrow> wf_res (Prune r)"
  "wf_res r \<Longrightarrow> wf_res (AddTo r s)"
  "wf_res r \<Longrightarrow> wf_res (SubFrom r s)"
  "wf_res (Add l r)"
  "wf_res (Sub l r)"
  "wf_res (SubOnlyExisting l r)"
  "wf_res (AddOnlyExisting l r)"
  "wf_res (Multiply l q)"
  "wf_res (ComponentWiseMin l r)"
  "wf_res (ComponentWiseMinOnlyExisting l r)"
  "wf_res (ComponentWiseMax l r)"
  by (auto simp: res_op_defs intro!: wf_intros split: option.splits)

lemma lookup_ops [lookup_simps]:
  "wf_res r \<Longrightarrow> map_of (orZero (Prune r)) k =
     (case map_of (orZero r) k of None \<Rightarrow> None | Some v \<Rightarrow> if v = 0 then None else Some v)"
  "wf_res s \<Longrightarrow> r \<noteq> None \<Longrightarrow> map_of (orZero (AddTo r s)) k =
     (case map_of (orZero s) k of None \<Rightarrow> map_of (orZero r) k
      | Some v \<Rightarrow> Some (addVal (rget (orZero r) k) v))"
  "wf_res s \<Longrightarrow> r \<noteq> None \<Longrightarrow> map_of (orZero (SubFrom r s)) k =
     (case map_of (orZero s) k of None \<Rightarrow> map_of (orZero r) k
      | Some v \<Rightarrow> Some (subVal (rget (orZero r) k) v))"
  "wf_res r \<Longrightarrow> wf_res s \<Longrightarrow> map_of (orZero (Add r s)) k =
     (case map_of (orZero s) k of None \<Rightarrow> map_of (orZero r) k
      | Some v \<Rightarrow> Some (addVal (rget (orZero r) k) v))"
  "wf_res r \<Longrightarrow> wf_res s \<Longrightarrow> map_of (orZero (Sub r s)) k =
     (case map_of (orZero s) k of None \<Rightarrow> map_of (orZero r) k
      | Some v \<Rightarrow> Some (subVal (rget (orZero r) k) v))"
  by (auto simp: res_op_defs lookup_simps cloneMap_id wf_res_def split: option.splits)

lemma Prune_nonNone [simp]: "Prune r = None \<longleftrightarrow> r = None"
  by (simp add: Prune_def split: option.splits)

lemma Add_Sub_nonNone [simp]: "Add l r \<noteq> None" "Sub l r \<noteq> None"
  by (simp_all add: Add_def Sub_def Clone_def Let_def split: option.splits)

lemma AddTo_SubFrom_nonNone [simp]: "AddTo r s = None \<longleftrightarrow> r = None" "SubFrom r s = None \<longleftrightarrow> r = None"
  by (simp_all add: AddTo_def SubFrom_def split: option.splits)

lemma amount_nil_add [simp]: "sat64 (amount r k) = amount r k"
  by (simp add: amount_range)

lemma amount_Clone [amount_simps]: "wf_res r \<Longrightarrow> amount (Clone r) k = amount r k"
  by (simp add: Clone_id)

lemma amount_Prune [amount_simps]: "wf_res r \<Longrightarrow> amount (Prune r) k = amount r k"
  by (cases "map_of (orZero r) k") (simp_all add: amount_def map_get_def lookup_simps)

lemma amount_Add [amount_simps]:
  "wf_res r \<Longrightarrow> wf_res s \<Longrightarrow> amount (Add r s) k = sat64 (amount r k + amount s k)"
  by (cases "map_of (orZero s) k")
    (simp_all add: amount_def map_get_def lookup_simps amount_simps qval_range split: option.splits)

lemma amount_Sub [amount_simps]:
  "wf_res r \<Longrightarrow> wf_res s \<Longrightarrow> amount s k \<noteq> min_int64 \<Longrightarrow>
   amount (Sub r s) k = sat64 (amount r k - amount s k)"
  by (cases "map_of (orZero s) k")
    (auto simp: amount_def map_get_def lookup_simps qval_subVal_gen qval_range split: option.splits)

lemma amount_AddTo [amount_simps]:
  "r \<noteq> None \<Longrightarrow> wf_res s \<Longrightarrow> amount (AddTo r s) k = sat64 (amount r k + amount s k)"
  by (cases "map_of (orZero s) k")
    (simp_all add: amount_def map_get_def lookup_simps amount_simps qval_range split: option.splits)

lemma amount_SubFrom [amount_simps]:
  "r \<noteq> None \<Longrightarrow> wf_res s \<Longrightarrow> amount s k \<noteq> min_int64 \<Longrightarrow>
   amount (SubFrom r s) k = sat64 (amount r k - amount s k)"
  by (cases "map_of (orZero s) k")
    (auto simp: amount_def map_get_def lookup_simps qval_subVal_gen qval_range split: option.splits)

lemma res_has_ops [lookup_simps]:
  "wf_res r \<Longrightarrow> res_has (Clone r) k \<longleftrightarrow> res_has r k"
  "wf_res r \<Longrightarrow> res_has (Prune r) k \<longleftrightarrow> amount r k \<noteq> 0"
  "wf_res r \<Longrightarrow> wf_res s \<Longrightarrow> res_has (Add r s) k \<longleftrightarrow> res_has r k \<or> res_has s k"
  "wf_res r \<Longrightarrow> wf_res s \<Longrightarrow> res_has (Sub r s) k \<longleftrightarrow> res_has r k \<or> res_has s k"
  "r \<noteq> None \<Longrightarrow> wf_res s \<Longrightarrow> res_has (AddTo r s) k \<longleftrightarrow> res_has r k \<or> res_has s k"
  "r \<noteq> None \<Longrightarrow> wf_res s \<Longrightarrow> res_has (SubFrom r s) k \<longleftrightarrow> res_has r k \<or> res_has s k"
  by (auto simp: Clone_id res_has_def amount_def lookup_simps qval_eq_iff split: option.splits if_splits)

lemma lookup_OnlyExisting [lookup_simps]:
  "wf_res b \<Longrightarrow> d \<noteq> None \<Longrightarrow> map_of (orZero (SubOnlyExisting b d)) k =
     (if res_has b k then Some (subVal (rget (orZero b) k) (rget (orZero d) k)) else None)"
  "wf_res b \<Longrightarrow> d \<noteq> None \<Longrightarrow> map_of (orZero (AddOnlyExisting b d)) k =
     (if res_has b k then Some (addVal (rget (orZero b) k) (rget (orZero d) k)) else None)"
  by (auto simp: SubOnlyExisting_def AddOnlyExisting_def Clone_def NewResource_def res_has_def
      lookup_simps split: option.splits)

lemma OnlyExisting_nil [simp]:
  "wf_res b \<Longrightarrow> SubOnlyExisting b None = b" "wf_res b \<Longrightarrow> AddOnlyExisting b None = b"
  "SubOnlyExisting None d = None" "AddOnlyExisting None d = None"
  by (auto simp: SubOnlyExisting_def AddOnlyExisting_def Clone_def cloneMap_id split: option.splits)

lemma res_has_OnlyExisting [lookup_simps]:
  "wf_res b \<Longrightarrow> res_has (SubOnlyExisting b d) k \<longleftrightarrow> res_has b k"
  "wf_res b \<Longrightarrow> res_has (AddOnlyExisting b d) k \<longleftrightarrow> res_has b k"
  by (cases d; simp add: res_has_def [of "SubOnlyExisting b d"] res_has_def [of "AddOnlyExisting b d"]
      lookup_simps; simp add: res_has_def)+

lemma amount_SubOnlyExisting [amount_simps]:
  "wf_res b \<Longrightarrow> amount d k \<noteq> min_int64 \<Longrightarrow>
   amount (SubOnlyExisting b d) k = (if res_has b k then sat64 (amount b k - amount d k) else 0)"
  by (cases d)
    (auto simp: amount_undefined, auto simp: amount_def map_get_def lookup_simps qval_subVal_gen)

lemma amount_AddOnlyExisting [amount_simps]:
  "wf_res b \<Longrightarrow>
   amount (AddOnlyExisting b d) k = (if res_has b k then sat64 (amount b k + amount d k) else 0)"
  by (cases d)
    (auto simp: amount_undefined, auto simp: amount_def map_get_def lookup_simps qval_addVal)

lemma lookup_ComponentWiseMin [lookup_simps]:
  assumes "wf_res l" "wf_res r"
  shows "map_of (orZero (ComponentWiseMin l r)) k =
    (case (map_of (orZero l) k, map_of (orZero r) k) of
       (None, None) \<Rightarrow> None | (Some a, None) \<Rightarrow> Some a | (None, Some b) \<Rightarrow> Some b
     | (Some a, Some b) \<Rightarrow> Some (min a b))"
  using assms
  by (auto simp: ComponentWiseMin_def Clone_def cloneMap_id Let_def lookup_simps NewResource_def
      minIfPresent_def map_has_map_of min.commute split: option.splits)

lemma ComponentWiseMin_None [simp]: "ComponentWiseMin l r = None \<longleftrightarrow> l = None \<and> r = None"
  by (auto simp: ComponentWiseMin_def Clone_def Let_def split: option.splits)

lemma res_has_ComponentWiseMin [lookup_simps]:
  "wf_res l \<Longrightarrow> wf_res r \<Longrightarrow> res_has (ComponentWiseMin l r) k \<longleftrightarrow> res_has l k \<or> res_has r k"
  by (auto simp: res_has_def lookup_simps split: option.splits)

lemma amount_ComponentWiseMin [amount_simps]:
  "wf_res l \<Longrightarrow> wf_res r \<Longrightarrow> amount (ComponentWiseMin l r) k =
     (if res_has l k \<and> res_has r k then min (amount l k) (amount r k)
      else if res_has l k then amount l k else amount r k)"
  by (auto simp: res_has_def amount_def map_get_def lookup_simps split: option.splits)


section \<open>What the comparisons decide\<close>

text \<open>A loop over the entries of a well-formed resource sees exactly the types it defines.\<close>

lemma list_all_entries:
  "wf_map m \<Longrightarrow> list_all (\<lambda>(k, v). P k v) m \<longleftrightarrow> (\<forall>k. res_has (Some m) k \<longrightarrow> P k (rget m k))"
  by (auto simp: list_all_map_of res_has_def)

lemma list_ex_entries:
  "wf_map m \<Longrightarrow> list_ex (\<lambda>(k, v). P k v) m \<longleftrightarrow> (\<exists>k. res_has (Some m) k \<and> P k (rget m k))"
  by (force simp: list_ex_map_of res_has_def)

lemma res_has_Some_iff: "map_has m k \<longleftrightarrow> res_has (Some m) k"
  by (simp add: map_has_map_of res_has_def)

lemma res_has_orZero: "res_has (Some (orZero r)) k \<longleftrightarrow> res_has r k"
  by (simp add: res_has_def)

lemma amount_Some: "amount (Some m) k = qval (rget m k)"
  by (simp add: amount_def)

lemma amount_orZero: "qval (rget (orZero r) k) = amount r k"
  by (simp add: amount_def)

lemmas entry_simps =
  list_all_entries list_ex_entries res_has_Some_iff res_has_orZero amount_orZero wf_res_def
  qval_le_iff qval_less_iff

lemma fitIn_iff:
  "wf_res s \<Longrightarrow> fitIn r s skip actual \<longleftrightarrow>
   (\<forall>k. res_has s k \<longrightarrow> (skip \<and> \<not> res_has r k) \<or>
        amount s k \<le> (if actual then amount r k else max 0 (amount r k)))"
  by (cases s) (auto simp: fitIn_def Let_def entry_simps amount_Some not_less)

lemma StrictlyGreaterThanOrEquals_iff:
  assumes "wf_res l" "wf_res s"
  shows "StrictlyGreaterThanOrEquals l s \<longleftrightarrow> (\<forall>k. amount s k \<le> amount l k)"
proof -
  have "StrictlyGreaterThanOrEquals l s \<longleftrightarrow>
      (\<forall>k. res_has l k \<or> res_has s k \<longrightarrow> amount s k \<le> amount l k)"
    using assms by (auto simp: StrictlyGreaterThanOrEquals_def Let_def entry_simps not_less)
  then show ?thesis by (metis amount_undefined order_refl)
qed

lemma StrictlyGreaterThan_iff:
  assumes "wf_res l" "wf_res s"
  shows "StrictlyGreaterThan l s \<longleftrightarrow>
    (\<forall>k. amount s k \<le> amount l k) \<and> (\<exists>k. amount s k \<noteq> amount l k)"
proof -
  have "StrictlyGreaterThan l s \<longleftrightarrow>
      (\<forall>k. res_has l k \<or> res_has s k \<longrightarrow> amount s k \<le> amount l k) \<and>
      (\<exists>k. (res_has l k \<or> res_has s k) \<and> amount s k \<noteq> amount l k)"
    using assms
    by (auto simp: StrictlyGreaterThan_def Let_def entry_simps not_less qval_eq_iff)
  then show ?thesis by (metis amount_undefined order_refl)
qed

lemma Equals_iff:
  assumes "wf_res l" "wf_res r"
  shows "Equals l r \<longleftrightarrow> (l = None \<longleftrightarrow> r = None) \<and> (\<forall>k. amount l k = amount r k)"
proof -
  have "Equals l r \<longleftrightarrow> (l = None \<longleftrightarrow> r = None) \<and>
      (\<forall>k. res_has l k \<or> res_has r k \<longrightarrow> amount l k = amount r k)"
    using assms
    by (auto simp: Equals_def entry_simps qval_eq_iff amount_Some split: option.splits)
  then show ?thesis by (metis amount_undefined)
qed

lemma IsZero_iff: "wf_res r \<Longrightarrow> IsZero r \<longleftrightarrow> (\<forall>k. amount r k = 0)"
  by (cases r; simp add: IsZero_def entry_simps qval_eq_iff amount_Some)
    (metis amount_Some amount_undefined)

lemma StrictlyGreaterThanZero_iff:
  "wf_res r \<Longrightarrow> StrictlyGreaterThanZero r \<longleftrightarrow> (\<forall>k. 0 \<le> amount r k) \<and> (\<exists>k. 0 < amount r k)"
proof -
  assume "wf_res r"
  then have "StrictlyGreaterThanZero r \<longleftrightarrow>
      (\<forall>k. res_has r k \<longrightarrow> 0 \<le> amount r k) \<and> (\<exists>k. res_has r k \<and> 0 < amount r k)"
    by (cases r) (auto simp: StrictlyGreaterThanZero_def entry_simps amount_Some not_less)
  then show ?thesis by (metis amount_undefined order_less_irrefl order_refl)
qed

lemma HasNegativeValue_iff: "wf_res r \<Longrightarrow> HasNegativeValue r \<longleftrightarrow> (\<exists>k. amount r k < 0)"
  by (cases r; simp add: HasNegativeValue_def entry_simps amount_Some)
    (metis amount_Some amount_undefined order_less_irrefl)

lemma IsEmpty_iff: "IsEmpty r \<longleftrightarrow> (\<forall>k. \<not> res_has r k)"
  by (cases r) (auto simp: IsEmpty_def res_has_def map_of_eq_None_iff)

lemma SGTOrEqualsOnlyExisting_iff:
  assumes "wf_res r" "wf_res s"
  shows "StrictlyGreaterThanOrEqualsOnlyExisting r s \<longleftrightarrow>
    (\<exists>k. res_has r k) \<and>
    (if \<forall>k. \<not> res_has s k then \<forall>k. res_has r k \<longrightarrow> 0 < amount r k
     else \<forall>k. res_has r k \<and> res_has s k \<longrightarrow> amount s k \<le> amount r k)"
  using assms
  unfolding StrictlyGreaterThanOrEqualsOnlyExisting_def internalStrictlyOnlyExisting_def Let_def
    IsEmpty_iff
  by (auto simp: entry_simps not_less not_le)


section \<open>Subtraction that reports negative results\<close>

lemma wf_subNonNegative_step:
  "wf_map out \<Longrightarrow> wf_map (fst (subNonNegative_step p (out, msg)))"
  by (cases p) (simp add: subNonNegative_step_def Let_def wf_intros)

lemma map_of_subNonNegative_step:
  "map_of (fst (subNonNegative_step (k', v) (out, msg))) k =
     (if k = k' then Some (max 0 (subVal (rget out k) v)) else map_of out k)"
  by (auto simp: subNonNegative_step_def Let_def update_conv' map_get_def max_def)

lemma msg_subNonNegative_step:
  "snd (subNonNegative_step (k, v) (out, msg)) = [] \<longleftrightarrow> msg = [] \<and> \<not> subVal (rget out k) v < 0"
  by (auto simp: subNonNegative_step_def Let_def update_conv' map_get_def)

lemma wf_subNonNegative_fold:
  "wf_map out \<Longrightarrow> wf_map (fst (fold subNonNegative_step src (out, msg)))"
proof (induction src arbitrary: out msg)
  case (Cons p src)
  then show ?case
    using wf_subNonNegative_step [of out p msg]
    by (cases "subNonNegative_step p (out, msg)") simp
qed simp

lemma map_of_subNonNegative_fold:
  "wf_map src \<Longrightarrow>
   map_of (fst (fold subNonNegative_step src (out, msg))) k =
     (case map_of src k of None \<Rightarrow> map_of out k
      | Some v \<Rightarrow> Some (max 0 (subVal (rget out k) v)))"
proof (induction src arbitrary: out msg)
  case (Cons p src)
  obtain k' v where p: "p = (k', v)" by fastforce
  obtain out' msg' where step: "subNonNegative_step p (out, msg) = (out', msg')" by fastforce
  have out': "map_of out' k =
      (if k = k' then Some (max 0 (subVal (rget out k) v)) else map_of out k)"
    using map_of_subNonNegative_step [of k' v out msg k] step p by simp
  have new: "map_of src k' = None"
    using Cons.prems p by (simp add: map_of_eq_None_iff)
  have IH: "map_of (fst (fold subNonNegative_step src (out', msg'))) k =
     (case map_of src k of None \<Rightarrow> map_of out' k
      | Some v \<Rightarrow> Some (max 0 (subVal (rget out' k) v)))"
    using Cons.prems p by (intro Cons.IH) simp
  show ?case
    using IH step p out' new by (cases "k = k'") (simp_all add: map_get_def split: option.splits)
qed simp

lemma msg_subNonNegative_fold:
  "wf_map src \<Longrightarrow>
   snd (fold subNonNegative_step src (out, msg)) = [] \<longleftrightarrow>
     msg = [] \<and> list_all (\<lambda>(k, v). \<not> subVal (rget out k) v < 0) src"
proof (induction src arbitrary: out msg)
  case (Cons p src)
  obtain k' v where p: "p = (k', v)" by fastforce
  obtain out' msg' where step: "subNonNegative_step p (out, msg) = (out', msg')" by fastforce
  have msg': "msg' = [] \<longleftrightarrow> msg = [] \<and> \<not> subVal (rget out k') v < 0"
    using msg_subNonNegative_step [of k' v out msg] step p by simp
  have "rget out' j = rget out j" if "(j, w) \<in> set src" for j w
    using that map_of_subNonNegative_step [of k' v out msg j] step p Cons.prems
    by (force simp: map_get_def)
  then have "list_all (\<lambda>(k, v). \<not> subVal (rget out' k) v < 0) src \<longleftrightarrow>
      list_all (\<lambda>(k, v). \<not> subVal (rget out k) v < 0) src"
    by (intro list.pred_cong) auto
  with Cons.IH [of out' msg'] Cons.prems step p msg' show ?case by auto
qed simp

lemma fst_subNonNegative:
  assumes "wf_res l" "wf_res r"
  shows "fst (subNonNegative l r) = Some (fst (fold subNonNegative_step (orZero r) (orZero l, [])))"
    and "snd (subNonNegative l r) = snd (fold subNonNegative_step (orZero r) (orZero l, []))"
  using assms
  by (cases r; simp add: subNonNegative_def Let_def Clone_def wf_res_def cloneMap_id
      split: prod.splits)+

lemma wf_subNonNegative [wf_intros]:
  assumes "wf_res l" "wf_res r"
  shows "wf_res (fst (subNonNegative l r))"
  using assms wf_subNonNegative_fold [of "orZero l"]
  by (simp add: fst_subNonNegative) (simp add: wf_res_def)

lemma subNonNegative_lookup:
  assumes "wf_res l" "wf_res r"
  shows "map_of (orZero (fst (subNonNegative l r))) k =
      (case map_of (orZero r) k of None \<Rightarrow> map_of (orZero l) k
       | Some v \<Rightarrow> Some (max 0 (subVal (rget (orZero l) k) v)))"
  using assms map_of_subNonNegative_fold [of "orZero r" "orZero l" "[]" k]
  by (simp add: fst_subNonNegative) (simp add: wf_res_def)

lemma amount_SubEliminateNegative [amount_simps]:
  assumes "wf_res l" "wf_res r" "amount r k \<noteq> min_int64"
  shows "amount (SubEliminateNegative l r) k =
    (if res_has r k then max 0 (sat64 (amount l k - amount r k)) else amount l k)"
  using assms subNonNegative_lookup [OF assms(1,2), of k]
  by (auto simp: SubEliminateNegative_def amount_def map_get_def res_has_def qval_subVal_gen
      split: option.splits)

lemma FitIn_iff:
  "wf_res s \<Longrightarrow> FitIn r s \<longleftrightarrow> (\<forall>k. res_has s k \<longrightarrow> amount s k \<le> max 0 (amount r k))"
  by (simp add: FitIn_def fitIn_iff)

lemma FitInMaxUndef_iff:
  "wf_res s \<Longrightarrow> FitInMaxUndef r s \<longleftrightarrow>
   (\<forall>k. res_has s k \<longrightarrow> res_has r k \<longrightarrow> amount s k \<le> max 0 (amount r k))"
  by (auto simp: FitInMaxUndef_def fitIn_iff)

lemma FitInActual_iff:
  "wf_res s \<Longrightarrow> FitInActual r s \<longleftrightarrow>
   (\<forall>k. res_has s k \<longrightarrow> res_has r k \<longrightarrow> amount s k \<le> amount r k)"
  by (auto simp: FitInActual_def fitIn_iff)

lemma FitInMaxUndef_ComponentWiseMin:
  assumes "wf_res a" "wf_res b" "wf_res s"
  shows "FitInMaxUndef (ComponentWiseMin a b) s \<longleftrightarrow> FitInMaxUndef a s \<and> FitInMaxUndef b s"
proof -
  have "(res_has (ComponentWiseMin a b) k \<longrightarrow> x \<le> max 0 (amount (ComponentWiseMin a b) k)) \<longleftrightarrow>
      (res_has a k \<longrightarrow> x \<le> max 0 (amount a k)) \<and> (res_has b k \<longrightarrow> x \<le> max 0 (amount b k))"
    for k x
    using assms by (auto simp: lookup_simps amount_simps max_def min_def)
  then show ?thesis
    using assms(3) by (simp only: FitInMaxUndef_iff) blast
qed

lemma sat64_neg_iff: "sat64 i < 0 \<longleftrightarrow> i < 0"
  by (auto simp: sat64_def)

section \<open>Remaining lookups\<close>

lemma lookup_ComponentWiseMax [lookup_simps]:
  "wf_map l \<Longrightarrow> wf_map r \<Longrightarrow> map_of (orZero (ComponentWiseMax (Some l) (Some r))) k =
     (if map_has l k \<or> map_has r k then Some (max (rget l k) (rget r k)) else None)"
  by (auto simp: ComponentWiseMax_def Let_def lookup_simps NewResource_def map_has_map_of
      max.commute split: option.splits)

lemma lookup_ComponentWiseMinOnlyExisting [lookup_simps]:
  "wf_map l \<Longrightarrow> map_of (orZero (ComponentWiseMinOnlyExisting (Some l) (Some r))) k =
     map_option (minIfPresent r k) (map_of l k)"
  by (auto simp: ComponentWiseMinOnlyExisting_def lookup_simps NewResource_def split: option.splits)

lemma lookup_MergeIfNotPresent [lookup_simps]:
  assumes "wf_map l" "wf_map r"
  shows "map_of (orZero (MergeIfNotPresent (Some l) (Some r))) k =
     (if map_has l k then map_of l k else map_of r k)"
proof -
  have "map_of (fold (\<lambda>(k, v) out. if \<not> map_has l k then AList.update k v out else out) r acc) k =
     (if map_has l k then map_of acc k else case map_of r k of None \<Rightarrow> map_of acc k | Some v \<Rightarrow> Some v)"
    for acc
    using assms(2)
  proof (induction r arbitrary: acc)
    case (Cons p r)
    obtain k' v where p: "p = (k', v)" by fastforce
    then have "map_of r k' = None" using Cons.prems by (simp add: map_of_eq_None_iff)
    with Cons p show ?case by (cases "k = k'") (auto simp: update_conv' split: option.splits)
  qed simp
  with assms show ?thesis
    by (auto simp: MergeIfNotPresent_def cloneMap_id map_has_map_of split: option.splits)
qed

lemma amount_Multiply [amount_simps]:
  "wf_res b \<Longrightarrow> amount (Multiply b q) k = sat64 (amount b k * qval q)"
  by (cases b)
    (auto simp: Multiply_def amount_def map_get_def lookup_simps NewResource_def amount_simps
      sat64_def split: option.splits)

lemma DeepEquals_iff:
  assumes "wf_map l" "wf_map r"
  shows "DeepEquals (Some l) (Some r) \<longleftrightarrow> map_of l = map_of r"
proof
  assume eq: "map_of l = map_of r"
  have "set (map fst l) = dom (map_of l)" "set (map fst r) = dom (map_of r)"
    by (simp_all add: dom_map_of_conv_image_fst)
  then have "length l = length r"
    using assms eq unfolding wf_map_def by (metis distinct_card length_map)
  with eq assms show "DeepEquals (Some l) (Some r)"
    by (auto simp: DeepEquals_def list_all_map_of map_has_map_of)
next
  assume d: "DeepEquals (Some l) (Some r)"
  have sub: "map_of l \<subseteq>\<^sub>m map_of r"
    using d assms by (force simp: DeepEquals_def list_all_map_of map_le_def map_has_map_of)
  then have "fst ` set l \<subseteq> fst ` set r"
    by (metis dom_map_of_conv_image_fst map_le_implies_dom_le)
  moreover have "card (fst ` set l) = card (fst ` set r)"
    using d assms by (simp add: DeepEquals_def wf_map_def distinct_card flip: set_map)
  ultimately have "fst ` set l = fst ` set r" by (simp add: card_subset_eq)
  with sub show "map_of l = map_of r"
    by (metis dom_map_of_conv_image_fst map_le_antisym map_le_def)
qed

lemma NewResourceFromConf_loop_ok:
  "wf_map conf \<Longrightarrow> newResourceFromConf_loop cpu conf acc = Inr res \<Longrightarrow>
   map_of res k =
     (case map_of conf k of None \<Rightarrow> map_of acc k
      | Some s \<Rightarrow> (case (if k = cpu then ParseVCore s else ParseQuantity s) of
                    Inl _ \<Rightarrow> None | Inr q \<Rightarrow> Some q))"
proof (induction conf arbitrary: acc)
  case (Cons p conf)
  obtain k' s where p: "p = (k', s)" by fastforce
  then have "map_of conf k' = None" using Cons.prems by (simp add: map_of_eq_None_iff)
  with Cons p show ?case
    by (cases "k = k'") (auto simp: update_conv' split: sum.splits option.splits if_splits)
qed simp

lemma NewResourceFromConf_loop_error:
  "(\<exists>e. newResourceFromConf_loop cpu conf acc = Inl e) \<longleftrightarrow>
   (\<exists>(k, s) \<in> set conf. \<exists>e. (if k = cpu then ParseVCore s else ParseQuantity s) = Inl e)"
proof (induction conf arbitrary: acc)
  case (Cons p conf)
  obtain k' s where p: "p = (k', s)" by fastforce
  show ?case
    using Cons p by (cases "if k' = cpu then ParseVCore s else ParseQuantity s") auto
qed simp

section \<open>The accounting interface\<close>

locale resource_accounting =
  fixes add :: "resource option \<Rightarrow> resource option \<Rightarrow> resource option"
    and sub :: "resource option \<Rightarrow> resource option \<Rightarrow> resource option"
    and base :: "resource option \<Rightarrow> bool"
  assumes base_wf: "base a \<Longrightarrow> wf_res a"
    and base_add: "base a \<Longrightarrow> wf_res b \<Longrightarrow> base (add a b)"
    and base_sub: "base a \<Longrightarrow> wf_res b \<Longrightarrow> base (sub a b)"
    and amount_add: "base a \<Longrightarrow> wf_res b \<Longrightarrow> amount (add a b) k = sat64 (amount a k + amount b k)"
    and amount_sub: "base a \<Longrightarrow> wf_res b \<Longrightarrow> amount b k \<noteq> min_int64 \<Longrightarrow>
      amount (sub a b) k = sat64 (amount a k - amount b k)"
begin

lemma add_sub_cancel:
  assumes "base a" "wf_res b" "in_int64 (amount a k + amount b k)" "amount b k \<noteq> min_int64"
  shows "amount (sub (add a b) b) k = amount a k"
  using assms by (simp add: amount_sub amount_add base_add)

lemma sub_add_cancel:
  assumes "base a" "wf_res b" "in_int64 (amount a k - amount b k)" "amount b k \<noteq> min_int64"
  shows "amount (add (sub a b) b) k = amount a k"
  using assms by (simp add: amount_sub amount_add base_sub)

lemma add_nonneg:
  "base a \<Longrightarrow> wf_res b \<Longrightarrow> 0 \<le> amount a k \<Longrightarrow> 0 \<le> amount b k \<Longrightarrow> 0 \<le> amount (add a b) k"
  by (simp add: amount_add sat64_def)

lemma sub_nonneg:
  "base a \<Longrightarrow> wf_res b \<Longrightarrow> 0 \<le> amount b k \<Longrightarrow> amount b k \<le> amount a k \<Longrightarrow>
   amount (sub a b) k = amount a k - amount b k"
  using amount_bounds [of a k] by (simp add: amount_sub in_int64_def)

text \<open>Adding a list of non-negative deltas one after the other gives their sum while the sum is
  representable.\<close>

lemma fold_add:
  assumes "base a" "\<forall>d \<in> set ds. wf_res d \<and> 0 \<le> amount d k" "0 \<le> amount a k"
    and "amount a k + (\<Sum>d \<leftarrow> ds. amount d k) \<le> max_int64"
  shows "base (fold (\<lambda>d acc. add acc d) ds a) \<and>
    amount (fold (\<lambda>d acc. add acc d) ds a) k = amount a k + (\<Sum>d \<leftarrow> ds. amount d k)"
  using assms
proof (induction ds arbitrary: a)
  case (Cons d ds)
  have "0 \<le> (\<Sum>d \<leftarrow> ds. amount d k)"
    using Cons.prems(2) by (intro sum_list_nonneg) auto
  then have "amount (add a d) k = amount a k + amount d k"
    using Cons.prems by (simp add: amount_add sat64_def)
  with Cons.IH [of "add a d"] Cons.prems show ?case
    by (simp add: base_add add.assoc)
qed simp

end

interpretation acc_new: resource_accounting Add Sub wf_res
  by unfold_locales (simp_all add: wf_intros amount_simps)

interpretation acc_inplace: resource_accounting AddTo SubFrom "\<lambda>r. r \<noteq> None \<and> wf_res r"
  by unfold_locales (simp_all add: wf_intros amount_simps)

interpretation acc_pruned: resource_accounting Add "\<lambda>a b. Prune (Sub a b)" wf_res
  by unfold_locales (simp_all add: wf_intros amount_simps)

section \<open>Properties\<close>



text \<open>
  Releasing what was added restores the usage: in both the functional form (Add, Sub) and the
  in-place form (AddTo, SubFrom) the amount of every type returns to what it was, as long as the
  intermediate sum is representable.
\<close>

theorem add_then_release:
  assumes "wf_res a" "wf_res b" "in_int64 (amount a k + amount b k)" "amount b k \<noteq> min_int64"
  shows "amount (Sub (Add a b) b) k = amount a k \<and>
    (a \<noteq> None \<longrightarrow> amount (SubFrom (AddTo a b) b) k = amount a k)"
  using acc_new.add_sub_cancel [OF assms] acc_inplace.add_sub_cancel [of a b k] assms by simp

theorem add_then_release_witness:
  "amount (Sub (Add (Some [(''cpu'', Quantity 3)]) (Some [(''cpu'', Quantity 4)]))
     (Some [(''cpu'', Quantity 4)])) ''cpu'' = 3"
  using add_then_release
    [of "Some [(''cpu'', Quantity 3)]" "Some [(''cpu'', Quantity 4)]" "''cpu''"]
  by (simp add: amount_def in_int64_def)

text \<open>
  C30. The fit checks decide what their comments say: FitIn compares every requested type with the
  available amount and treats missing types and negative amounts as zero; FitInMaxUndef ignores
  types the limit does not define; FitInActual also compares negative amounts as they are.
\<close>

theorem fit_checks_decide:
  assumes "wf_res s"
  shows "(FitIn r s \<longleftrightarrow> (\<forall>k. res_has s k \<longrightarrow> amount s k \<le> max 0 (amount r k))) \<and>
    (FitInMaxUndef r s \<longleftrightarrow>
      (\<forall>k. res_has s k \<and> res_has r k \<longrightarrow> amount s k \<le> max 0 (amount r k))) \<and>
    (FitInActual r s \<longleftrightarrow> (\<forall>k. res_has s k \<and> res_has r k \<longrightarrow> amount s k \<le> amount r k))"
  using assms by (auto simp: FitIn_iff FitInMaxUndef_iff FitInActual_iff)

theorem fit_checks_decide_witness:
  "wf_res (Some [(''gpu'', Quantity 1)]) \<and>
   \<not> FitIn (Some [(''cpu'', Quantity 4)]) (Some [(''gpu'', Quantity 1)]) \<and>
   FitInMaxUndef (Some [(''cpu'', Quantity 4)]) (Some [(''gpu'', Quantity 1)])"
  using fit_checks_decide [of "Some [(''gpu'', Quantity 1)]" "Some [(''cpu'', Quantity 4)]"]
  by (auto simp: amount_def res_has_def)

text \<open>
  C31. ComponentWiseMin is the meet of two limits: a request stays within the combined limit
  exactly when it stays within both, for every request and whichever of the limits is missing.
\<close>

theorem ComponentWiseMin_is_meet:
  assumes "wf_res a" "wf_res b" "wf_res s"
  shows "FitInMaxUndef (ComponentWiseMin a b) s \<longleftrightarrow> FitInMaxUndef a s \<and> FitInMaxUndef b s"
  using assms by (rule FitInMaxUndef_ComponentWiseMin)

theorem ComponentWiseMin_is_meet_witness:
  "\<not> FitInMaxUndef (ComponentWiseMin (Some [(''cpu'', Quantity 4)]) (Some [(''cpu'', Quantity 2)]))
      (Some [(''cpu'', Quantity 3)])"
  using ComponentWiseMin_is_meet [of "Some [(''cpu'', Quantity 4)]" "Some [(''cpu'', Quantity 2)]"
      "Some [(''cpu'', Quantity 3)]"]
  by (simp add: FitInMaxUndef_def fitIn_def Let_def map_has_def qval_less_iff)



text \<open>
  The comparisons are the point-wise order on sparse vectors: StrictlyGreaterThanOrEquals is
  that order over all types, StrictlyGreaterThan its strict part, and Equals (of two non-nil
  resources) its equality, so that unset and zero types are never told apart.
\<close>

lemma comparisons_are_pointwise:
  assumes "wf_res l" "wf_res s"
  shows "(StrictlyGreaterThanOrEquals l s \<longleftrightarrow> (\<forall>k. amount s k \<le> amount l k)) \<and>
    (StrictlyGreaterThan l s \<longleftrightarrow>
      StrictlyGreaterThanOrEquals l s \<and> \<not> StrictlyGreaterThanOrEquals s l) \<and>
    (l \<noteq> None \<and> s \<noteq> None \<longrightarrow>
      (Equals l s \<longleftrightarrow> StrictlyGreaterThanOrEquals l s \<and> StrictlyGreaterThanOrEquals s l))"
  using assms
  by (auto simp: StrictlyGreaterThanOrEquals_iff StrictlyGreaterThan_iff Equals_iff antisym)
    (metis order_antisym)+

end
