(* ===== verification/StateMachines.thy ===== *)
theory StateMachines
  imports Prelude
begin

text \<open>
  The two state machines of the scheduler: the one shared by partitions and managed queues
  (\<open>pkg/scheduler/objects/object_state.go\<close>) and the one of applications
  (\<open>pkg/scheduler/objects/application_state.go\<close>), with the event handlers
  \<open>handleQueueEvent\<close> and \<open>HandleApplicationEvent\<close>. The machine itself is the third-party
  package looplab/fsm: its \<open>Event\<close> method is a parameter \<open>fsm\<close> of the handlers, and
  \<open>fsm_documented\<close> states what its documentation promises. \<open>looplab_event\<close> is an instance.
\<close>

section \<open>The event function of looplab/fsm\<close>

datatype fsm_error = NoTransitionError | InvalidEventError

record ('s, 'e) event_desc =
  evName :: 'e
  evSrc :: "'s list"
  evDst :: 's

type_synonym ('s, 'e) fsm_event = "('s, 'e) event_desc list \<Rightarrow> 's \<Rightarrow> 'e \<Rightarrow> fsm_error + 's"

definition fsm_dests :: "('s, 'e) event_desc list \<Rightarrow> 's \<Rightarrow> 'e \<Rightarrow> 's list" where
  "fsm_dests tbl s e = map evDst (filter (\<lambda>d. evName d = e \<and> s \<in> set (evSrc d)) tbl)"

text \<open>An event that no entry allows in the current state is an error; an entry that leads to the
  current state is reported as the error \<open>no transition\<close>; any other entry changes the state.\<close>

definition fsm_documented :: "('s, 'e) fsm_event \<Rightarrow> bool" where
  "fsm_documented fsm \<longleftrightarrow>
     (\<forall>tbl s e.
        (fsm_dests tbl s e = [] \<longrightarrow> fsm tbl s e = Inl InvalidEventError) \<and>
        (\<forall>d. fsm_dests tbl s e = [d] \<longrightarrow>
               fsm tbl s e = (if d = s then Inl NoTransitionError else Inr d)))"

definition looplab_event :: "('s, 'e) fsm_event" where
  "looplab_event tbl s e =
     (case fsm_dests tbl s e of
        [] \<Rightarrow> Inl InvalidEventError
      | d # _ \<Rightarrow> if d = s then Inl NoTransitionError else Inr d)"

lemma looplab_documented: "fsm_documented looplab_event"
  by (auto simp: fsm_documented_def looplab_event_def)

section \<open>Partitions and managed queues\<close>

datatype ObjectEvent = Remove | Start | Stop

datatype ObjectState = Active | Draining | Stopped

definition NewObjectState :: "(ObjectState, ObjectEvent) event_desc list" where
  "NewObjectState =
     [\<lparr>evName = Remove, evSrc = [Active, Draining], evDst = Draining\<rparr>,
      \<lparr>evName = Start, evSrc = [Active, Stopped, Draining], evDst = Active\<rparr>,
      \<lparr>evName = Stop, evSrc = [Active, Stopped], evDst = Stopped\<rparr>]"

text \<open>The handler returns the new state and the error, with \<open>no transition\<close> turned into success.\<close>

definition handleQueueEvent ::
    "(ObjectState, ObjectEvent) fsm_event \<Rightarrow> ObjectState \<Rightarrow> ObjectEvent \<Rightarrow>
     ObjectState \<times> fsm_error option" where
  "handleQueueEvent fsm s event =
     (case fsm NewObjectState s event of
        Inr s' \<Rightarrow> (s', None)
      | Inl NoTransitionError \<Rightarrow> (s, None)
      | Inl err \<Rightarrow> (s, Some err))"

section \<open>Applications\<close>

datatype applicationEvent =
    RunApplication | RejectApplication | CompleteApplication | FailApplication
  | ExpireApplication | ResumeApplication

datatype applicationState =
    New | Accepted | Running | Rejected | Completing | Completed | Failing | Failed | Expired
  | Resuming

definition eventDesc :: "(applicationState, applicationEvent) event_desc list" where
  "eventDesc =
     [\<lparr>evName = RejectApplication, evSrc = [New], evDst = Rejected\<rparr>,
      \<lparr>evName = RunApplication, evSrc = [New, Resuming], evDst = Accepted\<rparr>,
      \<lparr>evName = RunApplication, evSrc = [Accepted, Running, Completing], evDst = Running\<rparr>,
      \<lparr>evName = CompleteApplication, evSrc = [Accepted, Running], evDst = Completing\<rparr>,
      \<lparr>evName = CompleteApplication, evSrc = [Completing], evDst = Completed\<rparr>,
      \<lparr>evName = FailApplication, evSrc = [New, Accepted, Running], evDst = Failing\<rparr>,
      \<lparr>evName = FailApplication, evSrc = [Failing], evDst = Failed\<rparr>,
      \<lparr>evName = ResumeApplication, evSrc = [New, Accepted], evDst = Resuming\<rparr>,
      \<lparr>evName = ExpireApplication, evSrc = [Completed, Failed, Rejected], evDst = Expired\<rparr>]"

definition HandleApplicationEvent ::
    "(applicationState, applicationEvent) fsm_event \<Rightarrow> applicationState \<Rightarrow> applicationEvent \<Rightarrow>
     applicationState \<times> fsm_error option" where
  "HandleApplicationEvent fsm s event =
     (case fsm eventDesc s event of
        Inr s' \<Rightarrow> (s', None)
      | Inl NoTransitionError \<Rightarrow> (s, None)
      | Inl err \<Rightarrow> (s, Some err))"

section \<open>Machines as a shared contract\<close>

text \<open>Both handlers follow one contract over their table: with at most one entry for each state
  and event, the handler moves to the destination of the entry, or reports the error and stays.\<close>

locale documented_machine =
  fixes tbl :: "('s, 'e) event_desc list"
    and handle :: "'s \<Rightarrow> 'e \<Rightarrow> 's \<times> fsm_error option"
  assumes deterministic: "length (fsm_dests tbl s e) \<le> 1"
    and handle_none: "fsm_dests tbl s e = [] \<Longrightarrow> handle s e = (s, Some InvalidEventError)"
    and handle_one: "fsm_dests tbl s e = [d] \<Longrightarrow> handle s e = (d, None)"
begin

lemma handle_cases:
  "handle s e = (case fsm_dests tbl s e of [] \<Rightarrow> (s, Some InvalidEventError) | d # _ \<Rightarrow> (d, None))"
proof (cases "fsm_dests tbl s e")
  case (Cons d ds)
  then have "ds = []" using deterministic [of s e] by simp
  with Cons show ?thesis by (simp add: handle_one)
qed (simp add: handle_none)

lemma error_keeps_state: "snd (handle s e) \<noteq> None \<Longrightarrow> fst (handle s e) = s"
  by (simp add: handle_cases split: list.splits)

text \<open>A set of states that no entry leaves is never left by any sequence of events.\<close>

lemma closed_set:
  assumes "\<And>s e. s \<in> A \<Longrightarrow> set (fsm_dests tbl s e) \<subseteq> A" and "s \<in> A"
  shows "foldl (\<lambda>s e. fst (handle s e)) s es \<in> A"
  using assms(2)
proof (induction es arbitrary: s)
  case (Cons e es)
  have "fst (handle s e) \<in> A"
    using assms(1) [OF Cons.prems, of e] Cons.prems
    by (auto simp: handle_cases split: list.splits)
  with Cons.IH show ?case by simp
qed simp

end

lemma dests_object_at_most_one: "length (fsm_dests NewObjectState s e) \<le> Suc 0"
  by (cases s; cases e) (simp_all add: fsm_dests_def NewObjectState_def)

lemma dests_app_at_most_one: "length (fsm_dests eventDesc s e) \<le> Suc 0"
  by (cases s; cases e) (simp_all add: fsm_dests_def eventDesc_def)

lemma object_machine:
  "fsm_documented fsm \<Longrightarrow> documented_machine NewObjectState (handleQueueEvent fsm)"
  by unfold_locales
    (auto simp: dests_object_at_most_one fsm_documented_def handleQueueEvent_def)

lemma application_machine:
  "fsm_documented fsm \<Longrightarrow> documented_machine eventDesc (HandleApplicationEvent fsm)"
  by unfold_locales
    (auto simp: dests_app_at_most_one fsm_documented_def HandleApplicationEvent_def)

interpretation object_fsm: documented_machine NewObjectState "handleQueueEvent looplab_event"
  by (rule object_machine [OF looplab_documented])

interpretation app_fsm: documented_machine eventDesc "HandleApplicationEvent looplab_event"
  by (rule application_machine [OF looplab_documented])

section \<open>Runs of an application\<close>

text \<open>One accepted event; the state may stay the same.\<close>

inductive app_step ::
    "(applicationState, applicationEvent) fsm_event \<Rightarrow> applicationState \<Rightarrow> applicationState \<Rightarrow> bool"
  for fsm where
  step: "HandleApplicationEvent fsm s e = (s', None) \<Longrightarrow> app_step fsm s s'"

text \<open>The states an application went through, the latest first.\<close>

inductive app_trace ::
    "(applicationState, applicationEvent) fsm_event \<Rightarrow> applicationState list \<Rightarrow> bool"
  for fsm where
  init: "app_trace fsm [New]"
| snoc: "app_trace fsm (s # tr) \<Longrightarrow> app_step fsm s s' \<Longrightarrow> app_trace fsm (s' # s # tr)"

inductive_cases app_stepE: "app_step fsm s s'"
inductive_cases app_traceE: "app_trace fsm tr"

lemma app_step_iff:
  assumes "fsm_documented fsm"
  shows "app_step fsm s s' \<longleftrightarrow> (\<exists>e. fsm_dests eventDesc s e = [s'])"
proof -
  note m = documented_machine.handle_cases [OF application_machine [OF assms]]
  show ?thesis
  proof
    assume "app_step fsm s s'"
    then obtain e where "HandleApplicationEvent fsm s e = (s', None)" by (rule app_stepE)
    then have "fsm_dests eventDesc s e = [s']"
      using dests_app_at_most_one [of s e] by (auto simp: m split: list.splits)
    then show "\<exists>e. fsm_dests eventDesc s e = [s']" ..
  next
    assume "\<exists>e. fsm_dests eventDesc s e = [s']"
    then obtain e where "fsm_dests eventDesc s e = [s']" by blast
    then have "HandleApplicationEvent fsm s e = (s', None)" by (simp add: m)
    then show "app_step fsm s s'" by (rule app_step.step)
  qed
qed

lemma step_to_Running:
  "fsm_documented fsm \<Longrightarrow> app_step fsm s Running \<Longrightarrow> s \<in> {Accepted, Running, Completing}"
  by (cases s) (auto simp: app_step_iff fsm_dests_def eventDesc_def split: if_splits)

lemma step_to_Completing:
  "fsm_documented fsm \<Longrightarrow> app_step fsm s Completing \<Longrightarrow> s \<in> {Accepted, Running}"
  by (cases s) (auto simp: app_step_iff fsm_dests_def eventDesc_def split: if_splits)

lemma trace_through_Accepted:
  assumes "fsm_documented fsm" "app_trace fsm tr"
  shows "Running \<in> set tr \<or> Completing \<in> set tr \<longrightarrow> Accepted \<in> set tr"
  using assms(2)
proof (induction rule: app_trace.induct)
  case (snoc s tr s')
  then show ?case
    using step_to_Running [OF assms(1), of s] step_to_Completing [OF assms(1), of s] by auto
qed simp

definition run_events ::
    "(applicationState, applicationEvent) fsm_event \<Rightarrow> applicationState \<Rightarrow> applicationEvent list \<Rightarrow>
     applicationState" where
  "run_events fsm s es = foldl (\<lambda>s e. fst (HandleApplicationEvent fsm s e)) s es"

section \<open>Properties\<close>

text \<open>
  C25. A finished application never comes back: from the states Rejected, Completed, Failed and
  Expired no sequence of events leads anywhere but to Expired, and Expired is never left.
\<close>

theorem finished_application_stays_finished:
  assumes "fsm_documented fsm" "s \<in> {Rejected, Completed, Failed, Expired}"
  shows "run_events fsm s es \<in> {s, Expired}"
  unfolding run_events_def
proof (rule documented_machine.closed_set [OF application_machine [OF assms(1)]])
  fix s' e
  assume "s' \<in> {s, Expired}"
  with assms(2) show "set (fsm_dests eventDesc s' e) \<subseteq> {s, Expired}"
    by (cases e) (auto simp: fsm_dests_def eventDesc_def)
qed simp

theorem finished_application_stays_finished_witness:
  "fsm_documented (looplab_event :: (applicationState, applicationEvent) fsm_event) \<and>
   run_events looplab_event Completed [RunApplication, ExpireApplication, RunApplication]
     \<in> {Completed, Expired}"
  using finished_application_stays_finished [OF looplab_documented, of Completed]
  by (simp add: looplab_documented)

text \<open>
  An application only runs after it was accepted: on every run from New that contains
  Running or Completing, the application was in Accepted before.
\<close>

lemma running_after_accepted:
  assumes "fsm_documented fsm" "app_trace fsm (s # tr)" "s = Running \<or> s = Completing"
  shows "Accepted \<in> set tr"
proof -
  have "Accepted \<in> set (s # tr)"
    using trace_through_Accepted [OF assms(1,2)] assms(3) by auto
  with assms(3) show ?thesis by auto
qed

text \<open>
  C26. No state is a trap: from every state at most four events expire the application.
\<close>

theorem every_application_can_expire:
  assumes "fsm_documented fsm"
  shows "\<exists>es. length es \<le> 4 \<and> run_events fsm s es = Expired"
proof -
  note m = documented_machine.handle_cases [OF application_machine [OF assms]]
  let ?es = "case s of
      New \<Rightarrow> [RejectApplication, ExpireApplication]
    | Accepted \<Rightarrow> [CompleteApplication, CompleteApplication, ExpireApplication]
    | Running \<Rightarrow> [CompleteApplication, CompleteApplication, ExpireApplication]
    | Completing \<Rightarrow> [CompleteApplication, ExpireApplication]
    | Failing \<Rightarrow> [FailApplication, ExpireApplication]
    | Resuming \<Rightarrow> [RunApplication, CompleteApplication, CompleteApplication, ExpireApplication]
    | Expired \<Rightarrow> []
    | _ \<Rightarrow> [ExpireApplication]"
  have "length ?es \<le> 4" by (cases s) simp_all
  moreover have "run_events fsm s ?es = Expired"
    by (cases s) (simp_all add: run_events_def m fsm_dests_def eventDesc_def)
  ultimately show ?thesis by blast
qed

theorem every_application_can_expire_witness:
  "\<exists>es. length es \<le> 4 \<and> run_events looplab_event Resuming es = Expired"
  by (rule every_application_can_expire [OF looplab_documented])

end
