(* ===== verification/Acl.thy ===== *)
theory Acl
  imports GoStrings Prelude
begin

text \<open>
  Access control lists (\<open>pkg/common/security/acl.go\<close>): the parser of an ACL string with a comma
  separated list of users, a space, and a comma separated list of groups, and the access check.
  The checks of the configuration on the same string (\<open>checkACL\<close> in
  \<open>pkg/common/configs/configvalidator.go\<close>) and the name patterns of the two packages are
  modelled as well, since a comment of the ACL code relates them.
\<close>

section \<open>Name patterns\<close>

definition in_class :: "string \<Rightarrow> char \<Rightarrow> bool" where
  "in_class extra c \<longleftrightarrow> is_letter c \<or> is_digit c \<or> c \<in> set extra"

text \<open>\<open>^[_a-zA-Z][a-zA-Z0-9<extra>]*$\<close>, and the same with an optional dollar sign at the end.\<close>

definition matches_name :: "string \<Rightarrow> string \<Rightarrow> bool" where
  "matches_name extra s =
     (case s of [] \<Rightarrow> False
      | c # cs \<Rightarrow> (is_letter c \<or> c = CHR ''_'') \<and> list_all (in_class extra) cs)"

definition matches_name_dollar :: "string \<Rightarrow> string \<Rightarrow> bool" where
  "matches_name_dollar extra s =
     (matches_name extra s \<or> (s \<noteq> [] \<and> last s = CHR ''$'' \<and> matches_name extra (butlast s)))"

definition userNameRegExp :: "string \<Rightarrow> bool" where
  "userNameRegExp = matches_name_dollar ''_.@-''"

definition groupRegExp :: "string \<Rightarrow> bool" where
  "groupRegExp = matches_name ''_-''"

definition configUserRegExp :: "string \<Rightarrow> bool" where
  "configUserRegExp = matches_name_dollar '':#/_.@-''"

definition configGroupRegExp :: "string \<Rightarrow> bool" where
  "configGroupRegExp = matches_name '':_.-''"

section \<open>The ACL\<close>

record ACL =
  users :: "string list"
  groups :: "string list"
  allAllowed :: bool

record UserGroup =
  User :: string
  Groups :: "string list"

definition setAllAllowed :: "ACL \<Rightarrow> string \<Rightarrow> ACL" where
  "setAllAllowed a part = a\<lparr>allAllowed := TrimSpace part = ''*''\<rparr>"

definition setUsers :: "ACL \<Rightarrow> string list \<Rightarrow> ACL" where
  "setUsers a userList =
     (if userList = [''*''] then a\<lparr>users := [], allAllowed := True\<rparr>
      else a\<lparr>users := filter (\<lambda>u. u \<noteq> [] \<and> userNameRegExp u) userList\<rparr>)"

definition setGroups :: "ACL \<Rightarrow> string list \<Rightarrow> ACL" where
  "setGroups a groupList =
     (if allAllowed a then a\<lparr>groups := []\<rparr>
      else if groupList = [''*''] then a\<lparr>groups := [], users := [], allAllowed := True\<rparr>
      else a\<lparr>groups := filter (\<lambda>g. g \<noteq> [] \<and> groupRegExp g) groupList\<rparr>)"

datatype acl_error = MultipleSpaces string

text \<open>\<open>strings.Fields\<close> splits around runs of white space; the check of the configuration uses it.\<close>

definition Fields :: "string \<Rightarrow> string list" where
  "Fields s =
     filter (\<lambda>w. w \<noteq> []) (Split (map (\<lambda>c. if is_space c then CHR '' '' else c) s) CHR '' '')"

definition checkACL :: "string \<Rightarrow> acl_error option" where
  "checkACL acl =
     (let acl = TrimSpace acl
      in if acl = [] \<or> acl = ''*'' then None
         else if length (Fields acl) > 2 then Some (MultipleSpaces acl)
         else None)"

definition emptyACL :: ACL where
  "emptyACL = \<lparr>users = [], groups = [], allAllowed = False\<rparr>"

definition NewACL :: "string \<Rightarrow> ACL \<times> acl_error option" where
  "NewACL aclStr =
     (if aclStr = [] then (emptyACL, None)
      else let fields = Split aclStr CHR '' '' in
        if length fields > 2 then (emptyACL, Some (MultipleSpaces aclStr))
        else let acl = setAllAllowed emptyACL aclStr;
                 acl = setUsers acl (Split (fields ! 0) CHR '','')
             in (if length fields = 2 then setGroups acl (Split (fields ! 1) CHR '','') else acl,
                 None))"

definition CheckAccess :: "ACL \<Rightarrow> UserGroup \<Rightarrow> bool" where
  "CheckAccess a userObj \<longleftrightarrow>
     allAllowed a \<or> User userObj \<in> set (users a) \<or>
     list_ex (\<lambda>group. group \<in> set (groups a)) (Groups userObj)"

section \<open>Lemmas\<close>

lemma matches_name_class:
  "matches_name extra s \<Longrightarrow> list_all (in_class extra) (tl s) \<and> s \<noteq> []"
  by (auto simp: matches_name_def split: list.splits)

lemma matches_name_mono:
  "matches_name xs s \<Longrightarrow> set xs \<subseteq> set ys \<Longrightarrow> matches_name ys s"
  by (auto simp: matches_name_def in_class_def list_all_iff split: list.splits)

lemma empty_not_user: "\<not> userNameRegExp []" and empty_not_group: "\<not> groupRegExp []"
  by (simp_all add: userNameRegExp_def groupRegExp_def matches_name_dollar_def matches_name_def)

lemma NewACL_two_fields:
  assumes "Split aclStr CHR '' '' = [us, gs]"
  shows "NewACL aclStr =
    (setGroups (setUsers (setAllAllowed emptyACL aclStr) (Split us CHR '','')) (Split gs CHR '',''),
     None)"
proof -
  have "aclStr \<noteq> []" using assms by auto
  then show ?thesis using assms by (simp add: NewACL_def Let_def)
qed

section \<open>Properties\<close>

text \<open>
  C24. The access control list that NewACL builds from a list of users and a list of groups, joined
  the way the configuration writes them, gives access to exactly the listed users with a valid name
  and to the members of the listed groups with a valid name.
\<close>

theorem NewACL_access:
  assumes "us \<noteq> []" "gs \<noteq> []" "us \<noteq> [''*'']" "gs \<noteq> [''*'']"
    and "\<forall>w\<in>set (us @ gs). CHR '','' \<notin> set w \<and> CHR '' '' \<notin> set w"
    and "TrimSpace (Join us CHR '','' @ CHR '' '' # Join gs CHR '','') \<noteq> ''*''"
  shows "\<exists>acl. NewACL (Join us CHR '','' @ CHR '' '' # Join gs CHR '','') = (acl, None) \<and>
    (CheckAccess acl u \<longleftrightarrow>
      (User u \<in> set us \<and> userNameRegExp (User u)) \<or>
      (\<exists>g\<in>set (Groups u). g \<in> set gs \<and> groupRegExp g))"
proof -
  have sp: "CHR '' '' \<notin> set (Join ws CHR '','')" if "\<forall>w\<in>set ws. CHR '' '' \<notin> set w" for ws
    using that by (induction ws "CHR '',''" rule: Join.induct) auto
  have "Split (Join us CHR '','' @ CHR '' '' # Join gs CHR '','') CHR '' '' =
      [Join us CHR '','', Join gs CHR '','']"
    using sp [of us] sp [of gs] assms(5) by (simp add: Split_append Split_no_sep)
  moreover have "Split (Join us CHR '','') CHR '','' = us" "Split (Join gs CHR '','') CHR '','' = gs"
    using assms(1,2,5) by (auto intro!: Split_Join)
  ultimately show ?thesis
    using assms(3,4,6)
    by (auto simp: NewACL_two_fields setGroups_def setUsers_def setAllAllowed_def emptyACL_def
        CheckAccess_def list_ex_iff empty_not_user empty_not_group)
qed

theorem NewACL_access_witness:
  "\<exists>acl. NewACL ''bob,eve dev'' = (acl, None) \<and>
     CheckAccess acl \<lparr>User = ''bob'', Groups = []\<rparr>"
proof -
  have "\<exists>acl. NewACL (Join [''bob'', ''eve''] CHR '','' @ CHR '' '' # Join [''dev''] CHR '','') = (acl, None) \<and>
    (CheckAccess acl \<lparr>User = ''bob'', Groups = []\<rparr> \<longleftrightarrow>
      (User \<lparr>User = ''bob'', Groups = []\<rparr> \<in> set [''bob'', ''eve''] \<and>
        userNameRegExp (User \<lparr>User = ''bob'', Groups = []\<rparr>)) \<or>
      (\<exists>g\<in>set (Groups \<lparr>User = ''bob'', Groups = []\<rparr>). g \<in> set [''dev''] \<and> groupRegExp g))"
    by (rule NewACL_access) (simp_all add: TrimSpace_def is_space_def)
  moreover have "userNameRegExp ''bob''" by code_simp
  ultimately show ?thesis by simp
qed

text \<open>The configuration check accepts strings that the parser rejects, and names that the parser
  drops without an error: it splits at runs of white space and has wider name patterns.\<close>

lemma checked_ACL_rejected_by_parser:
  "checkACL ''bob  dev'' = None" "snd (NewACL ''bob  dev'') = Some (MultipleSpaces ''bob  dev'')"
  by code_simp+

lemma checked_names_dropped_by_parser:
  "configUserRegExp ''sa:bob''" "\<not> userNameRegExp ''sa:bob''"
  "configGroupRegExp ''dev.ops''" "\<not> groupRegExp ''dev.ops''"
  by code_simp+

end
