(* ===== verification/Queues.thy ===== *)
theory Queues
  imports Resources StateMachines Acl "HOL-Library.Sublist"
begin

text \<open>
  The queue hierarchy (\<open>pkg/scheduler/objects/queue.go\<close>).

  A queue object is named by its path from the queue up to the root, so the parent pointer of the
  queue at \<open>n # p\<close> is \<open>p\<close>, and the nil pointer is \<open>[]\<close>. The queue objects live in a heap that
  maps paths to records; the children and application maps hold names. Methods that walk up the
  parent pointers recurse on the path in the order of the code: a call on the parent before the
  update of the queue itself. Fallible methods return the heap beside the error, so that what a
  failed call changed is visible. Each method is one atomic step: the locks of the code are held
  for the whole body of a method of one queue. Metrics, events and logging are left out.
\<close>

section \<open>Data\<close>

datatype SortPolicy =
  FifoSortPolicy | FairSortPolicy | DeprecatedStateAwarePolicy | UndefinedSortPolicy

datatype PriorityPolicy = DefaultPriorityPolicy | FencePriorityPolicy

datatype PreemptionPolicy =
  DefaultPreemptionPolicy | FencePreemptionPolicy | DisabledPreemptionPolicy

text \<open>\<open>configs.MinPriority\<close> and \<open>configs.MaxPriority\<close>; priorities are of type int32.\<close>

definition MinPriority :: int where
  "MinPriority = - (2 ^ 31)"

definition MaxPriority :: int where
  "MaxPriority = 2 ^ 31 - 1"

record template =
  tmplMaxApplications :: nat
  tmplProperties :: "string gomap"
  tmplMaxResource :: "resource option"
  tmplGuaranteedResource :: "resource option"

record queue =
  sortType :: SortPolicy
  children :: "string list"
  childPriorities :: "int gomap"
  applications :: "string list"
  appPriorities :: "int gomap"
  reservedApps :: "int gomap"
  pending :: "resource option"
  allocatedResource :: "resource option"
  preemptingResource :: "resource option"
  prioritySortEnabled :: bool
  priorityPolicy :: PriorityPolicy
  priorityOffset :: int
  preemptionPolicy :: PreemptionPolicy
  preemptionDelay :: int
  quotaPreemptionDelay :: int
  currentPriority :: int
  properties :: "string gomap"
  adminACL :: ACL
  submitACL :: ACL
  maxResource :: "resource option"
  guaranteedResource :: "resource option"
  isLeaf :: bool
  isManaged :: bool
  stateMachine :: ObjectState
  maxRunningApps :: nat
  runningApps :: nat
  allocatingAcceptedApps :: "string list"
  queueTemplate :: "template option"
  quotaPreemptionStartTime :: gotime
  isQuotaPreemptionRunning :: bool
  unschedAskBackoff :: nat
  askBackoffDelay :: int

type_synonym qpath = "string list"

type_synonym qheap = "qpath \<Rightarrow> queue"

definition DefaultPreemptionDelay :: int where
  "DefaultPreemptionDelay = 30 * 10 ^ 9"

definition DefaultAskBackOffDelay :: int where
  "DefaultAskBackOffDelay = 30 * 10 ^ 9"

definition newBlankQueue :: queue where
  "newBlankQueue =
     \<lparr>sortType = FifoSortPolicy, children = [], childPriorities = [], applications = [],
      appPriorities = [], reservedApps = [], pending = Some NewResource,
      allocatedResource = Some NewResource, preemptingResource = Some NewResource,
      prioritySortEnabled = True, priorityPolicy = DefaultPriorityPolicy, priorityOffset = 0,
      preemptionPolicy = DefaultPreemptionPolicy, preemptionDelay = DefaultPreemptionDelay,
      quotaPreemptionDelay = 0, currentPriority = MinPriority, properties = [],
      adminACL = emptyACL, submitACL = emptyACL, maxResource = None, guaranteedResource = None, isLeaf = False, isManaged = False,
      stateMachine = Active, maxRunningApps = 0, runningApps = 0, allocatingAcceptedApps = [],
      queueTemplate = None, quotaPreemptionStartTime = None, isQuotaPreemptionRunning = False,
      unschedAskBackoff = 0, askBackoffDelay = DefaultAskBackOffDelay\<rparr>"

text \<open>The queues a walk from a path to the root visits.\<close>

definition on_path :: "qpath \<Rightarrow> qpath \<Rightarrow> bool" where
  "on_path path q \<longleftrightarrow> q \<noteq> [] \<and> suffix q path"

section \<open>Pending, allocated and preempting resources\<close>

fun incPendingResource :: "qheap \<Rightarrow> qpath \<Rightarrow> resource option \<Rightarrow> qheap" where
  "incPendingResource h [] delta = h"
| "incPendingResource h (n # p) delta =
     (let h = (if p \<noteq> [] then incPendingResource h p delta else h); sq = h (n # p)
      in h(n # p := sq\<lparr>pending := Add (pending sq) delta\<rparr>))"

fun decPendingResource :: "qheap \<Rightarrow> qpath \<Rightarrow> resource option \<Rightarrow> qheap" where
  "decPendingResource h [] delta = h"
| "decPendingResource h (n # p) delta =
     (let h = (if p \<noteq> [] then decPendingResource h p delta else h); sq = h (n # p)
      in case SubErrorNegative (pending sq) delta of
           (pend, Some err) \<Rightarrow> h(n # p := sq\<lparr>pending := pend\<rparr>)
         | (pend, None) \<Rightarrow> h(n # p := sq\<lparr>pending := Prune pend\<rparr>))"

datatype queue_error =
    OverMaximum qpath
  | LargerThanAllocated qpath
  | QueueIsNil
  | NilDereference

definition allocatedResFits :: "qheap \<Rightarrow> qpath \<Rightarrow> resource option \<Rightarrow> bool" where
  "allocatedResFits h path alloc =
     (let sq = h path
      in if tl path = []
         then FitIn (maxResource sq) (AddOnlyExisting alloc (allocatedResource sq))
         else FitInMaxUndef (maxResource sq) (AddOnlyExisting alloc (allocatedResource sq)))"

fun TryIncAllocatedResource ::
    "qheap \<Rightarrow> qpath \<Rightarrow> resource option \<Rightarrow> qheap \<times> queue_error option" where
  "TryIncAllocatedResource h [] alloc = (h, Some NilDereference)"
| "TryIncAllocatedResource h (n # p) alloc =
     (if \<not> allocatedResFits h (n # p) alloc then (h, Some (OverMaximum (n # p)))
      else case (if p \<noteq> [] then TryIncAllocatedResource h p alloc else (h, None)) of
             (h, Some err) \<Rightarrow> (h, Some err)
           | (h, None) \<Rightarrow>
               let sq = h (n # p)
               in (h(n # p := sq\<lparr>allocatedResource := Add (allocatedResource sq) alloc\<rparr>), None))"

definition resourceFitsAllocated :: "qheap \<Rightarrow> qpath \<Rightarrow> resource option \<Rightarrow> bool" where
  "resourceFitsAllocated h path res = FitIn (allocatedResource (h path)) res"

fun DecAllocatedResource ::
    "qheap \<Rightarrow> qpath \<Rightarrow> resource option \<Rightarrow> qheap \<times> queue_error option" where
  "DecAllocatedResource h [] alloc = (h, Some QueueIsNil)"
| "DecAllocatedResource h (n # p) alloc =
     (if alloc \<noteq> None \<and> \<not> resourceFitsAllocated h (n # p) alloc
      then (h, Some (LargerThanAllocated (n # p)))
      else case (if p \<noteq> [] then DecAllocatedResource h p alloc else (h, None)) of
             (h, Some err) \<Rightarrow> (h, Some err)
           | (h, None) \<Rightarrow>
               let sq = h (n # p)
               in (h(n # p := sq\<lparr>allocatedResource := Prune (Sub (allocatedResource sq) alloc)\<rparr>),
                   None))"

text \<open>The unchecked increment starts the clock of the quota preemption when the queue is pushed
  over its quota; \<open>now\<close> is \<open>time.Now()\<close>.\<close>

definition startQuotaClock :: "bool \<Rightarrow> int \<Rightarrow> queue \<Rightarrow> queue" where
  "startQuotaClock isQuotaPreemptionEnabled now sq =
     (if \<not> isQuotaPreemptionEnabled \<or> quotaPreemptionStartTime sq \<noteq> None \<or> \<not> isManaged sq \<or>
         quotaPreemptionDelay sq = 0 \<or> IsZero (maxResource sq) \<or>
         StrictlyGreaterThanOrEqualsOnlyExisting (maxResource sq) (allocatedResource sq)
      then sq
      else sq\<lparr>quotaPreemptionStartTime := Some (now + quotaPreemptionDelay sq)\<rparr>)"

fun IncAllocatedResource :: "qheap \<Rightarrow> qpath \<Rightarrow> resource option \<Rightarrow> bool \<Rightarrow> int \<Rightarrow> qheap" where
  "IncAllocatedResource h [] alloc enabled now = h"
| "IncAllocatedResource h (n # p) alloc enabled now =
     (let h = IncAllocatedResource h p alloc enabled now; sq = h (n # p);
          sq = sq\<lparr>allocatedResource := Add (allocatedResource sq) alloc\<rparr>
      in h(n # p := startQuotaClock enabled now sq))"

fun IncPreemptingResource :: "qheap \<Rightarrow> qpath \<Rightarrow> resource option \<Rightarrow> qheap" where
  "IncPreemptingResource h [] alloc = h"
| "IncPreemptingResource h (n # p) alloc =
     (let h = IncPreemptingResource h p alloc; sq = h (n # p)
      in h(n # p := sq\<lparr>preemptingResource := Add (preemptingResource sq) alloc\<rparr>))"

fun DecPreemptingResource :: "qheap \<Rightarrow> qpath \<Rightarrow> resource option \<Rightarrow> qheap" where
  "DecPreemptingResource h [] alloc = h"
| "DecPreemptingResource h (n # p) alloc =
     (let h = DecPreemptingResource h p alloc; sq = h (n # p)
      in h(n # p := sq\<lparr>preemptingResource := Prune (Sub (preemptingResource sq) alloc)\<rparr>))"

section \<open>Limits and headroom\<close>

definition internalHeadRoom :: "queue \<Rightarrow> resource option \<Rightarrow> resource option" where
  "internalHeadRoom sq parentHeadRoom =
     (if maxResource sq = None then parentHeadRoom
      else let headRoom = SubOnlyExisting (maxResource sq) (allocatedResource sq)
           in if parentHeadRoom = None then headRoom
              else ComponentWiseMin headRoom parentHeadRoom)"

fun getHeadRoom :: "qheap \<Rightarrow> qpath \<Rightarrow> resource option" where
  "getHeadRoom h [] = None"
| "getHeadRoom h (n # p) =
     internalHeadRoom (h (n # p)) (if p \<noteq> [] then getHeadRoom h p else None)"

fun getMaxHeadRoom :: "qheap \<Rightarrow> qpath \<Rightarrow> resource option" where
  "getMaxHeadRoom h [] = None"
| "getMaxHeadRoom h (n # p) =
     (if p \<noteq> [] then internalHeadRoom (h (n # p)) (getMaxHeadRoom h p) else None)"

definition internalGetMax :: "queue \<Rightarrow> resource option \<Rightarrow> resource option" where
  "internalGetMax sq parentLimit =
     (if parentLimit = None then Clone (maxResource sq)
      else if maxResource sq = None then parentLimit
      else ComponentWiseMin parentLimit (maxResource sq))"

fun GetMaxResource :: "qheap \<Rightarrow> qpath \<Rightarrow> resource option" where
  "GetMaxResource h [] = None"
| "GetMaxResource h (n # p) =
     internalGetMax (h (n # p)) (if p \<noteq> [] then GetMaxResource h p else None)"

fun GetMaxQueueSet :: "qheap \<Rightarrow> qpath \<Rightarrow> resource option" where
  "GetMaxQueueSet h [] = None"
| "GetMaxQueueSet h (n # p) =
     (if p = [] then None else internalGetMax (h (n # p)) (GetMaxQueueSet h p))"

definition internalGetFairMaxResource :: "queue \<Rightarrow> resource option \<Rightarrow> resource option" where
  "internalGetFairMaxResource sq limit =
     (let out = Clone limit
      in if IsEmpty (maxResource sq) \<or> IsEmpty out then out
         else Some (range_update (\<lambda>_ _ v. v) 0 (orZero (maxResource sq)) (orZero out)))"

fun GetFairMaxResource :: "qheap \<Rightarrow> qpath \<Rightarrow> resource option" where
  "GetFairMaxResource h [] = None"
| "GetFairMaxResource h (n # p) =
     (if p = [] then Clone (GetMaxResource h (n # p))
      else internalGetFairMaxResource (h (n # p)) (GetFairMaxResource h p))"

fun GetActualGuaranteedResource :: "qheap \<Rightarrow> qpath \<Rightarrow> resource option" where
  "GetActualGuaranteedResource h [] = Some NewResource"
| "GetActualGuaranteedResource h (n # p) =
     ComponentWiseMin (guaranteedResource (h (n # p))) (GetActualGuaranteedResource h p)"

fun GetPreemptableResource :: "qheap \<Rightarrow> qpath \<Rightarrow> resource option" where
  "GetPreemptableResource h [] = Some NewResource"
| "GetPreemptableResource h (n # p) =
     (let parentPreemptable = GetPreemptableResource h p; sq = h (n # p);
          preemptable =
            (if guaranteedResource sq = None then Clone (allocatedResource sq)
             else SubOnlyExisting (guaranteedResource sq) (Clone (allocatedResource sq)))
      in ComponentWiseMin preemptable parentPreemptable)"

text \<open>The setters of the limits: a limit without a positive value removes the limit.\<close>

definition SetMaxResource :: "qheap \<Rightarrow> qpath \<Rightarrow> resource option \<Rightarrow> qheap" where
  "SetMaxResource h path newMax =
     (let sq = h path
      in if tl path \<noteq> [] then h
         else if StrictlyGreaterThanZero newMax then h(path := sq\<lparr>maxResource := Clone newMax\<rparr>)
         else if maxResource sq \<noteq> None then h(path := sq\<lparr>maxResource := None\<rparr>)
         else h)"

definition setResources :: "queue \<Rightarrow> resource option \<Rightarrow> resource option \<Rightarrow> queue" where
  "setResources sq newGuaranteed newMax =
     (let sq = (if StrictlyGreaterThanZero newMax then sq\<lparr>maxResource := newMax\<rparr>
                else if maxResource sq \<noteq> None then sq\<lparr>maxResource := None\<rparr> else sq)
      in if StrictlyGreaterThanZero newGuaranteed then sq\<lparr>guaranteedResource := newGuaranteed\<rparr>
         else if guaranteedResource sq \<noteq> None then sq\<lparr>guaranteedResource := None\<rparr> else sq)"

section \<open>Specification vocabulary\<close>

text \<open>The effect of \<open>decPendingResource\<close> on one queue.\<close>

definition decPendingQueue :: "resource option \<Rightarrow> queue \<Rightarrow> queue" where
  "decPendingQueue delta sq =
     sq\<lparr>pending := (case SubErrorNegative (pending sq) delta of
        (pend, err) \<Rightarrow> if err = None then Prune pend else pend)\<rparr>"

text \<open>Usage never holds a negative amount, and limits are well-formed.\<close>

definition nonneg_res :: "resource option \<Rightarrow> bool" where
  "nonneg_res r \<longleftrightarrow> wf_res r \<and> (\<forall>k. 0 \<le> amount r k)"

definition wf_usage :: "qheap \<Rightarrow> bool" where
  "wf_usage h \<longleftrightarrow> (\<forall>q. nonneg_res (allocatedResource (h q)) \<and> wf_res (maxResource (h q)))"

text \<open>Every queue with a limit for a type uses at most that limit.\<close>

definition within_max :: "qheap \<Rightarrow> bool" where
  "within_max h \<longleftrightarrow> (\<forall>q k. res_has (maxResource (h q)) k \<longrightarrow>
     amount (allocatedResource (h q)) k \<le> max 0 (amount (maxResource (h q)) k))"

text \<open>Every queue on the path is a registered child of its parent.\<close>

definition linked :: "qheap \<Rightarrow> qpath \<Rightarrow> bool" where
  "linked h path \<longleftrightarrow> (\<forall>n p. suffix (n # p) path \<and> p \<noteq> [] \<longrightarrow> n \<in> set (children (h p)))"

text \<open>The usage of a parent queue is the sum of the usage of its children.\<close>

definition usage_adds_up :: "qheap \<Rightarrow> bool" where
  "usage_adds_up h \<longleftrightarrow>
     (\<forall>p k. p \<noteq> [] \<and> \<not> isLeaf (h p) \<longrightarrow>
        amount (allocatedResource (h p)) k =
          (\<Sum>n \<leftarrow> children (h p). amount (allocatedResource (h (n # p))) k))"

definition distinct_children :: "qheap \<Rightarrow> bool" where
  "distinct_children h \<longleftrightarrow> (\<forall>p. distinct (children (h p)))"

text \<open>The calls that change the usage of a hierarchy: the checked and the unchecked increment and
  the release, on a leaf queue, with amounts that are not negative and that do not overflow.\<close>

definition usage_ok :: "qheap \<Rightarrow> qpath \<Rightarrow> resource option \<Rightarrow> bool" where
  "usage_ok h path alloc \<longleftrightarrow>
     path \<noteq> [] \<and> isLeaf (h path) \<and> linked h path \<and> nonneg_res alloc"

definition no_overflow :: "qheap \<Rightarrow> qpath \<Rightarrow> resource option \<Rightarrow> bool" where
  "no_overflow h path alloc \<longleftrightarrow>
     (\<forall>q k. on_path path q \<longrightarrow> amount (allocatedResource (h q)) k + amount alloc k \<le> max_int64)"

inductive usage_step :: "qheap \<Rightarrow> qheap \<Rightarrow> bool" where
  allocate: "TryIncAllocatedResource h path alloc = (h', None) \<Longrightarrow> usage_ok h path alloc \<Longrightarrow>
     no_overflow h path alloc \<Longrightarrow> usage_step h h'"
| force: "IncAllocatedResource h path alloc enabled now = h' \<Longrightarrow> usage_ok h path alloc \<Longrightarrow>
     no_overflow h path alloc \<Longrightarrow> usage_step h h'"
| release: "DecAllocatedResource h path alloc = (h', None) \<Longrightarrow> usage_ok h path alloc \<Longrightarrow>
     usage_step h h'"

text \<open>A root queue with a limit, one leaf queue with a smaller limit, and some usage in both.\<close>

definition res1 :: "64 word \<Rightarrow> resource option" where
  "res1 n = Some [(''cpu'', Quantity n)]"

definition exampleHeap :: "64 word \<Rightarrow> 64 word \<Rightarrow> 64 word \<Rightarrow> qheap" where
  "exampleHeap rootMax leafMax used =
     (\<lambda>_. newBlankQueue)
       ([''root''] := newBlankQueue\<lparr>children := [''a''], maxResource := res1 rootMax,
          allocatedResource := res1 used\<rparr>,
        [''a'', ''root''] := newBlankQueue\<lparr>isLeaf := True, maxResource := res1 leafMax,
          allocatedResource := res1 used\<rparr>)"

section \<open>Walks to the root\<close>

lemma on_path_Nil [simp]: "\<not> on_path [] q"
  by (auto simp: on_path_def)

lemma on_path_Cons: "on_path (n # p) q \<longleftrightarrow> q = n # p \<or> on_path p q"
  by (auto simp: on_path_def suffix_Cons)

lemma on_path_shorter: "on_path p q \<Longrightarrow> q \<noteq> n # p"
  by (auto simp: on_path_def dest: suffix_length_le)

lemma not_on_path_Cons [simp]: "\<not> on_path p (n # p)"
  using on_path_shorter by blast

lemma on_path_self [simp]: "p \<noteq> [] \<Longrightarrow> on_path p p"
  by (simp add: on_path_def)

text \<open>A method that updates the parent and then the queue itself updates every queue on the path
  to the root once and no other queue.\<close>

locale queue_walk =
  fixes walk :: "qheap \<Rightarrow> qpath \<Rightarrow> qheap"
    and upd :: "queue \<Rightarrow> queue"
  assumes walk_nil: "walk h [] = h"
    and walk_cons: "walk h (n # p) = (walk h p)(n # p := upd (walk h p (n # p)))"
begin

lemma walk_apply: "walk h path q = (if on_path path q then upd (h q) else h q)"
proof (induction path)
  case (Cons n p)
  then show ?case by (auto simp: walk_cons on_path_Cons)
qed (simp add: walk_nil)

lemma walk_commutes:
  assumes "\<And>sq. upd (g sq) = g (upd sq)"
  shows "walk (\<lambda>q. g (h q)) path = (\<lambda>q. g (walk h path q))"
  using assms by (auto simp: walk_apply)

end

text \<open>A method that checks the queue and its parents before it updates any of them.\<close>

locale guarded_walk =
  fixes walk :: "qheap \<Rightarrow> qpath \<Rightarrow> qheap \<times> queue_error option"
    and guard :: "qheap \<Rightarrow> qpath \<Rightarrow> bool"
    and fail :: "qpath \<Rightarrow> queue_error"
    and upd :: "queue \<Rightarrow> queue"
  assumes walk_cons: "walk h (n # p) =
      (if \<not> guard h (n # p) then (h, Some (fail (n # p)))
       else case (if p \<noteq> [] then walk h p else (h, None)) of
              (h', Some err) \<Rightarrow> (h', Some err)
            | (h', None) \<Rightarrow> (h'(n # p := upd (h' (n # p))), None))"
begin

lemma walk_ok:
  "path \<noteq> [] \<Longrightarrow> \<forall>q. on_path path q \<longrightarrow> guard h q \<Longrightarrow>
   walk h path = (\<lambda>q. if on_path path q then upd (h q) else h q, None)"
proof (induction path)
  case (Cons n p)
  then have g: "guard h (n # p)" by (simp add: on_path_Cons)
  show ?case
  proof (cases "p = []")
    case True
    with g show ?thesis by (auto simp: walk_cons on_path_Cons)
  next
    case False
    with Cons have "walk h p = (\<lambda>q. if on_path p q then upd (h q) else h q, None)"
      by (simp add: on_path_Cons)
    with g False show ?thesis by (auto simp: walk_cons on_path_Cons)
  qed
qed simp

lemma walk_fails:
  "on_path path q \<Longrightarrow> \<not> guard h q \<Longrightarrow>
   \<exists>q'. walk h path = (h, Some (fail q')) \<and> on_path path q' \<and> \<not> guard h q'"
proof (induction path)
  case (Cons n p)
  show ?case
  proof (cases "guard h (n # p)")
    case True
    with Cons have "on_path p q" by (auto simp: on_path_Cons)
    moreover from this have "p \<noteq> []" by auto
    ultimately show ?thesis using Cons True by (auto simp: walk_cons on_path_Cons)
  qed (auto simp: walk_cons on_path_Cons)
qed simp

lemma walk_success_iff:
  "path \<noteq> [] \<Longrightarrow> snd (walk h path) = None \<longleftrightarrow> (\<forall>q. on_path path q \<longrightarrow> guard h q)"
  by (metis option.distinct(1) snd_conv walk_fails walk_ok)

lemma walk_failure_changes_nothing:
  "path \<noteq> [] \<Longrightarrow> snd (walk h path) \<noteq> None \<Longrightarrow> fst (walk h path) = h"
  by (metis fst_conv walk_fails walk_success_iff)

lemma walk_success_apply:
  "path \<noteq> [] \<Longrightarrow> snd (walk h path) = None \<Longrightarrow>
   fst (walk h path) q = (if on_path path q then upd (h q) else h q)"
  by (simp add: walk_ok walk_success_iff)

end

interpretation inc_pending: queue_walk "\<lambda>h p. incPendingResource h p delta"
    "\<lambda>sq. sq\<lparr>pending := Add (pending sq) delta\<rparr>" for delta
  by unfold_locales (simp_all add: Let_def)

interpretation dec_pending: queue_walk "\<lambda>h p. decPendingResource h p delta"
    "decPendingQueue delta" for delta
  by unfold_locales (auto simp: Let_def decPendingQueue_def split: prod.splits option.splits)

interpretation inc_allocated: queue_walk "\<lambda>h p. IncAllocatedResource h p alloc enabled now"
    "\<lambda>sq. startQuotaClock enabled now (sq\<lparr>allocatedResource := Add (allocatedResource sq) alloc\<rparr>)"
  for alloc enabled now
  by unfold_locales (simp_all add: Let_def)

interpretation inc_preempting: queue_walk "\<lambda>h p. IncPreemptingResource h p alloc"
    "\<lambda>sq. sq\<lparr>preemptingResource := Add (preemptingResource sq) alloc\<rparr>" for alloc
  by unfold_locales (simp_all add: Let_def)

interpretation dec_preempting: queue_walk "\<lambda>h p. DecPreemptingResource h p alloc"
    "\<lambda>sq. sq\<lparr>preemptingResource := Prune (Sub (preemptingResource sq) alloc)\<rparr>" for alloc
  by unfold_locales (simp_all add: Let_def)

interpretation try_inc: guarded_walk "\<lambda>h p. TryIncAllocatedResource h p alloc"
    "\<lambda>h q. allocatedResFits h q alloc" OverMaximum
    "\<lambda>sq. sq\<lparr>allocatedResource := Add (allocatedResource sq) alloc\<rparr>" for alloc
  by unfold_locales (simp add: Let_def)

interpretation dec_alloc: guarded_walk "\<lambda>h p. DecAllocatedResource h p alloc"
    "\<lambda>h q. alloc = None \<or> resourceFitsAllocated h q alloc" LargerThanAllocated
    "\<lambda>sq. sq\<lparr>allocatedResource := Prune (Sub (allocatedResource sq) alloc)\<rparr>" for alloc
  by unfold_locales (auto simp: Let_def)

section \<open>Usage along a path\<close>

lemma nonneg_resD: "nonneg_res r \<Longrightarrow> wf_res r" "nonneg_res r \<Longrightarrow> 0 \<le> amount r k"
  by (simp_all add: nonneg_res_def)

lemma nonneg_not_min: "nonneg_res r \<Longrightarrow> amount r k \<noteq> min_int64"
  using nonneg_resD(2) [of r k] by auto

lemma startQuotaClock_same [simp]:
  "allocatedResource (startQuotaClock e now sq) = allocatedResource sq"
  "maxResource (startQuotaClock e now sq) = maxResource sq"
  "children (startQuotaClock e now sq) = children sq"
  "isLeaf (startQuotaClock e now sq) = isLeaf sq"
  by (simp_all add: startQuotaClock_def)

lemma sat64_add_nonneg: "0 \<le> a \<Longrightarrow> 0 \<le> b \<Longrightarrow> a + b \<le> max_int64 \<Longrightarrow> sat64 (a + b) = a + b"
  by (simp add: sat64_def)

lemma amount_inc:
  assumes "wf_usage h" "nonneg_res alloc"
  shows "amount (Add (allocatedResource (h q)) alloc) k =
    sat64 (amount (allocatedResource (h q)) k + amount alloc k)"
  using assms by (simp add: wf_usage_def nonneg_res_def amount_simps)

lemma amount_dec:
  assumes "wf_usage h" "nonneg_res alloc" "alloc = None \<or> resourceFitsAllocated h q alloc"
  shows "amount (Prune (Sub (allocatedResource (h q)) alloc)) k =
    amount (allocatedResource (h q)) k - amount alloc k \<and> amount alloc k \<le> amount (allocatedResource (h q)) k"
proof -
  have w: "nonneg_res (allocatedResource (h q))" using assms(1) by (simp add: wf_usage_def)
  have "amount alloc k \<le> amount (allocatedResource (h q)) k"
  proof (cases "res_has alloc k")
    case True
    then have "alloc \<noteq> None" by (cases alloc) auto
    with assms True show ?thesis
      using nonneg_resD(2) [OF w, of k]
      by (auto simp: resourceFitsAllocated_def FitIn_iff nonneg_resD)
  next
    case False
    then show ?thesis using nonneg_resD(2) [OF w] by (simp add: amount_undefined)
  qed
  then show ?thesis
    using acc_pruned.sub_nonneg [of "allocatedResource (h q)" alloc k] w assms(2)
    by (simp add: nonneg_resD)
qed

lemma nonneg_inc: "nonneg_res a \<Longrightarrow> nonneg_res b \<Longrightarrow> nonneg_res (Add a b)"
  unfolding nonneg_res_def by (simp add: wf_intros acc_new.add_nonneg)

lemma sum_list_one_more:
  fixes f g :: "'a \<Rightarrow> int"
  assumes "distinct xs" "n \<in> set xs" "\<And>x. x \<in> set xs \<Longrightarrow> g x = f x + (if x = n then d else 0)"
  shows "(\<Sum>x\<leftarrow>xs. g x) = (\<Sum>x\<leftarrow>xs. f x) + d"
  using assms
proof (induction xs)
  case (Cons a xs)
  show ?case
  proof (cases "a = n")
    case True
    then have "g x = f x" if "x \<in> set xs" for x using Cons.prems(1) Cons.prems(3) [of x] that by auto
    then have "map g xs = map f xs" by simp
    moreover have "g a = f a + d" using Cons.prems(3) [of a] True by simp
    ultimately show ?thesis by (simp del: map_eq_conv)
  next
    case False
    with Cons show ?thesis by simp
  qed
qed simp

text \<open>An update that changes the usage of every queue on a path by the same amounts keeps the sums.\<close>

lemma usage_adds_up_walk:
  assumes "usage_adds_up h" "distinct_children h" "isLeaf (h path)" "linked h path"
    and same: "\<And>q. children (h' q) = children (h q)" "\<And>q. isLeaf (h' q) = isLeaf (h q)"
    and upd: "\<And>q k. amount (allocatedResource (h' q)) k =
      amount (allocatedResource (h q)) k + (if on_path path q then d k else 0)"
  shows "usage_adds_up h'"
  unfolding usage_adds_up_def
proof (intro allI impI, elim conjE)
  fix p k assume p: "p \<noteq> []" "\<not> isLeaf (h' p)"
  then have sum: "amount (allocatedResource (h p)) k =
      (\<Sum>n\<leftarrow>children (h p). amount (allocatedResource (h (n # p))) k)"
    using assms(1) same by (simp add: usage_adds_up_def)
  show "amount (allocatedResource (h' p)) k =
      (\<Sum>n\<leftarrow>children (h' p). amount (allocatedResource (h' (n # p))) k)"
  proof (cases "on_path path p")
    case True
    have "p \<noteq> path" using p(2) same(2) assms(3) by auto
    then obtain n where n: "suffix (n # p) path"
      using True by (auto simp: on_path_def suffix_def)
        (metis append.assoc append_Cons append_Nil rev_exhaust)
    have child: "n \<in> set (children (h p))" using assms(4) n p(1) by (auto simp: linked_def)
    have only: "on_path path (m # p) \<longleftrightarrow> m = n" for m
      using n by (auto simp: on_path_def suffix_def)
    have "(\<Sum>m\<leftarrow>children (h p). amount (allocatedResource (h' (m # p))) k) =
        (\<Sum>m\<leftarrow>children (h p). amount (allocatedResource (h (m # p))) k) + d k"
      by (rule sum_list_one_more [OF _ child])
        (use assms(2) in \<open>simp_all add: distinct_children_def upd only\<close>)
    then show ?thesis using True sum same(1) by (simp add: upd)
  next
    case False
    then have "\<not> on_path path (m # p)" for m
      using p(1) by (auto simp: on_path_def dest: suffix_ConsD)
    then show ?thesis using False sum same(1) by (simp add: upd)
  qed
qed

text \<open>The facts the steps of a hierarchy share.\<close>

definition hierarchy :: "qheap \<Rightarrow> bool" where
  "hierarchy h \<longleftrightarrow> wf_usage h \<and> distinct_children h \<and> usage_adds_up h"

lemma usage_ok_D:
  assumes "usage_ok h path alloc"
  shows "path \<noteq> []" "isLeaf (h path)" "linked h path" "nonneg_res alloc"
  using assms by (simp_all add: usage_ok_def)

lemma hierarchy_inc:
  assumes "hierarchy h" "usage_ok h path alloc" "no_overflow h path alloc"
    and "\<And>q. allocatedResource (h' q) =
      (if on_path path q then Add (allocatedResource (h q)) alloc else allocatedResource (h q))"
    and same: "\<And>q. maxResource (h' q) = maxResource (h q)"
      "\<And>q. children (h' q) = children (h q)" "\<And>q. isLeaf (h' q) = isLeaf (h q)"
  shows "hierarchy h'"
proof -
  note ok = usage_ok_D [OF assms(2)]
  have wf: "wf_usage h" using assms(1) by (simp add: hierarchy_def)
  have amt: "amount (allocatedResource (h' q)) k =
      amount (allocatedResource (h q)) k + (if on_path path q then amount alloc k else 0)" for q k
    using wf ok(4) assms(3,4)
    by (simp add: amount_inc sat64_add_nonneg wf_usage_def nonneg_resD no_overflow_def)
  have "wf_usage h'"
    using wf ok(4) assms(4) same by (auto simp: wf_usage_def nonneg_inc)
  moreover have "usage_adds_up h'"
    by (rule usage_adds_up_walk [where d = "amount alloc", OF _ _ ok(2,3) same(2,3) amt])
      (use assms(1) in \<open>simp_all add: hierarchy_def\<close>)
  ultimately show ?thesis
    using assms(1) same by (simp add: hierarchy_def distinct_children_def)
qed

lemma hierarchy_dec:
  assumes "hierarchy h" "usage_ok h path alloc" "DecAllocatedResource h path alloc = (h', None)"
  shows "hierarchy h'"
proof -
  note ok = usage_ok_D [OF assms(2)]
  have wf: "wf_usage h" using assms(1) by (simp add: hierarchy_def)
  have fits: "alloc = None \<or> resourceFitsAllocated h q alloc" if "on_path path q" for q
    using dec_alloc.walk_success_iff [OF ok(1), of h alloc] assms(3) that by simp
  have h': "h' q = (if on_path path q then (h q)\<lparr>allocatedResource :=
      Prune (Sub (allocatedResource (h q)) alloc)\<rparr> else h q)" for q
    using dec_alloc.walk_success_apply [OF ok(1), of h alloc q] assms(3) by simp
  have amt: "amount (allocatedResource (h' q)) k =
      amount (allocatedResource (h q)) k + (if on_path path q then - amount alloc k else 0)" for q k
    using amount_dec [OF wf ok(4), of q k] fits [of q] by (auto simp: h')
  have same: "maxResource (h' q) = maxResource (h q)" "children (h' q) = children (h q)"
    "isLeaf (h' q) = isLeaf (h q)" for q
    by (simp_all add: h')
  have "nonneg_res (allocatedResource (h' q))" for q
    using wf amount_dec [OF wf ok(4), of q] fits [of q] ok(4)
    by (auto simp: h' wf_usage_def nonneg_res_def intro: wf_intros)
  then have "wf_usage h'" using wf same by (simp add: wf_usage_def)
  moreover have "usage_adds_up h'"
    by (rule usage_adds_up_walk [where d = "\<lambda>k. - amount alloc k", OF _ _ ok(2,3) same(2,3) amt])
      (use assms(1) in \<open>simp_all add: hierarchy_def\<close>)
  ultimately show ?thesis
    using assms(1) same by (simp add: hierarchy_def distinct_children_def)
qed

lemma hierarchy_step: "usage_step h h' \<Longrightarrow> hierarchy h \<Longrightarrow> hierarchy h'"
proof (induction rule: usage_step.induct)
  case (allocate h path alloc h')
  have h': "h' q = (if on_path path q
      then (h q)\<lparr>allocatedResource := Add (allocatedResource (h q)) alloc\<rparr> else h q)" for q
    using try_inc.walk_success_apply [of path h alloc q] allocate by (simp add: usage_ok_def)
  show ?case by (rule hierarchy_inc [OF allocate.prems allocate.hyps(2,3)]) (simp_all add: h')
next
  case (force h path alloc enabled now h')
  show ?case
    by (rule hierarchy_inc [OF force.prems force.hyps(2,3)])
      (auto simp: inc_allocated.walk_apply simp flip: force.hyps(1))
next
  case (release h path alloc h')
  show ?case by (rule hierarchy_dec [OF release.prems release.hyps(2,1)])
qed

section \<open>Limits along a path\<close>

lemma allocatedResFits_iff:
  assumes "wf_usage h" "nonneg_res alloc"
  shows "allocatedResFits h q alloc \<longleftrightarrow>
    (\<forall>k. res_has alloc k \<and> (tl q = [] \<or> res_has (maxResource (h q)) k) \<longrightarrow>
       sat64 (amount (allocatedResource (h q)) k + amount alloc k)
         \<le> max 0 (amount (maxResource (h q)) k))"
  using assms
  by (auto simp: allocatedResFits_def Let_def FitIn_iff FitInMaxUndef_iff wf_intros lookup_simps
      amount_simps wf_usage_def nonneg_resD add.commute)

lemma wf_internalHeadRoom:
  "wf_res (maxResource sq) \<Longrightarrow> wf_res ph \<Longrightarrow> wf_res (internalHeadRoom sq ph)"
  by (simp add: internalHeadRoom_def Let_def wf_intros)

lemma wf_getHeadRoom: "\<forall>q. wf_res (maxResource (h q)) \<Longrightarrow> wf_res (getHeadRoom h path)"
  by (induction path) (simp_all add: wf_internalHeadRoom)

lemma FitInMaxUndef_nil [simp]: "wf_res s \<Longrightarrow> FitInMaxUndef None s"
  by (simp add: FitInMaxUndef_iff)

lemma FitInMaxUndef_internalHeadRoom:
  assumes "wf_res (maxResource sq)" "wf_res ph" "wf_res s"
  shows "FitInMaxUndef (internalHeadRoom sq ph) s \<longleftrightarrow>
    FitInMaxUndef ph s \<and> FitInMaxUndef (SubOnlyExisting (maxResource sq) (allocatedResource sq)) s"
  using assms
  by (auto simp: internalHeadRoom_def Let_def FitInMaxUndef_ComponentWiseMin wf_intros)

lemma FitInMaxUndef_getHeadRoom:
  assumes "\<forall>q. wf_res (maxResource (h q))" "wf_res s"
  shows "FitInMaxUndef (getHeadRoom h path) s \<longleftrightarrow>
    (\<forall>q. on_path path q \<longrightarrow>
       FitInMaxUndef (SubOnlyExisting (maxResource (h q)) (allocatedResource (h q))) s)"
proof (induction path)
  case (Cons n p)
  then show ?case
    using assms
    by (cases "p = []")
      (auto simp: FitInMaxUndef_internalHeadRoom wf_getHeadRoom on_path_Cons)
qed (simp add: assms)

lemma wf_GetMaxResource: "\<forall>q. wf_res (maxResource (h q)) \<Longrightarrow> wf_res (GetMaxResource h path)"
  by (induction path) (auto simp: internalGetMax_def intro: wf_intros)

lemma FitInMaxUndef_GetMaxResource:
  assumes "\<forall>q. wf_res (maxResource (h q))" "wf_res s"
  shows "FitInMaxUndef (GetMaxResource h path) s \<longleftrightarrow>
    (\<forall>q. on_path path q \<longrightarrow> FitInMaxUndef (maxResource (h q)) s)"
proof (induction path)
  case (Cons n p)
  have "FitInMaxUndef (internalGetMax sq lim) s \<longleftrightarrow>
      FitInMaxUndef lim s \<and> FitInMaxUndef (maxResource sq) s"
    if "wf_res lim" "wf_res (maxResource sq)" for lim sq
    using that assms(2)
    by (auto simp: internalGetMax_def Clone_id FitInMaxUndef_ComponentWiseMin)
  with Cons assms show ?case
    by (cases "p = []") (auto simp: wf_GetMaxResource on_path_Cons)
qed (simp add: assms)

text \<open>For positive requests, what is left of a limit decides the same as the sum.\<close>

lemma headroom_step:
  assumes "wf_usage h" "nonneg_res alloc" "\<forall>k. res_has alloc k \<longrightarrow> 0 < amount alloc k"
    and "\<forall>k. amount (allocatedResource (h q)) k + amount alloc k \<le> max_int64"
    and "tl q = [] \<Longrightarrow> \<forall>k. res_has alloc k \<longrightarrow> res_has (maxResource (h q)) k"
  shows "FitInMaxUndef (SubOnlyExisting (maxResource (h q)) (allocatedResource (h q))) alloc \<longleftrightarrow>
    allocatedResFits h q alloc"
proof -
  let ?m = "maxResource (h q)" and ?u = "allocatedResource (h q)"
  have u: "nonneg_res ?u" "wf_res ?m" using assms(1) by (simp_all add: wf_usage_def)
  have eq: "amount alloc k \<le> max 0 (sat64 (amount ?m k - amount ?u k)) \<longleftrightarrow>
      sat64 (amount ?u k + amount alloc k) \<le> max 0 (amount ?m k)" if "res_has alloc k" for k
  proof -
    have "0 < amount alloc k" "0 \<le> amount ?u k" "amount ?u k + amount alloc k \<le> max_int64"
      using that assms(3,4) nonneg_resD(2) [OF u(1)] by auto
    then show ?thesis using amount_bounds [of ?m k] by (auto simp: sat64_def max_def)
  qed
  show ?thesis
    using u assms(5) nonneg_not_min [OF u(1)]
    by (auto simp: allocatedResFits_iff [OF assms(1,2)] FitInMaxUndef_iff nonneg_resD [OF assms(2)]
        lookup_simps amount_simps eq)
qed

section \<open>The example hierarchy\<close>

lemma amount_res1: "amount (res1 n) k = (if k = ''cpu'' then sint n else 0)"
  by (simp add: res1_def amount_def)

lemma res_has_res1: "res_has (res1 n) k \<longleftrightarrow> k = ''cpu''"
  by (simp add: res1_def res_has_def)

lemma wf_res1 [simp]: "wf_res (res1 n)" "res1 n \<noteq> None"
  by (simp_all add: res1_def)

lemma empty_resource [simp]: "amount (Some []) k = 0" "\<not> res_has (Some []) k"
  by (simp_all add: amount_def res_has_def)

lemmas example_simps = exampleHeap_def newBlankQueue_def NewResource_def amount_res1 res_has_res1

lemma example_wf_usage:
  "0 \<le> sint used \<Longrightarrow> wf_usage (exampleHeap rootMax leafMax used)"
  by (auto simp: wf_usage_def nonneg_res_def example_simps split: if_splits)

lemma example_hierarchy:
  "0 \<le> sint used \<Longrightarrow> hierarchy (exampleHeap rootMax leafMax used)"
  by (auto simp: hierarchy_def example_wf_usage distinct_children_def usage_adds_up_def)
    (auto simp: example_simps split: if_splits)

lemma example_on_path: "on_path [''a'', ''root''] q \<longleftrightarrow> q = [''a'', ''root''] \<or> q = [''root'']"
  by (auto simp: on_path_Cons)

lemma example_nonneg: "nonneg_res (res1 1)" "nonneg_res (res1 2)" "nonneg_res (res1 3)"
  by (simp_all add: nonneg_res_def amount_res1)

lemma example_fits:
  "on_path [''a'', ''root''] q \<Longrightarrow> allocatedResFits (exampleHeap 10 5 3) q (res1 2)"
  by (auto simp: example_on_path allocatedResFits_iff example_wf_usage example_nonneg)
    (simp_all add: example_simps sat64_def)

lemma example_success:
  obtains h' where "TryIncAllocatedResource (exampleHeap 10 5 3) [''a'', ''root''] (res1 2) = (h', None)"
  using try_inc.walk_ok [of "[''a'', ''root'']" "exampleHeap 10 5 3" "res1 2"] example_fits by blast

lemma example_usage_ok:
  "usage_ok (exampleHeap 10 5 3) [''a'', ''root''] (res1 2)"
  "no_overflow (exampleHeap 10 5 3) [''a'', ''root''] (res1 2)"
  by (auto simp: usage_ok_def linked_def suffix_Cons example_nonneg no_overflow_def example_on_path)
    (simp_all add: example_simps)

section \<open>Properties\<close>

text \<open>
  C2. TryIncAllocatedResource is all or nothing: it succeeds exactly when the allocation fits the
  maximum of the queue and of all its ancestors; then every queue on the path to the root has the
  allocation added to its usage and every other queue is as before. When it fails it names a queue
  on the path that is too full, and no queue has changed.
\<close>

theorem TryIncAllocatedResource_atomic:
  assumes "path \<noteq> []"
  shows "case TryIncAllocatedResource h path alloc of
      (h', None) \<Rightarrow> (\<forall>q. on_path path q \<longrightarrow> allocatedResFits h q alloc) \<and>
        (\<forall>q. h' q = (if on_path path q
           then (h q)\<lparr>allocatedResource := Add (allocatedResource (h q)) alloc\<rparr> else h q))
    | (h', Some err) \<Rightarrow> h' = h \<and>
        (\<exists>q. err = OverMaximum q \<and> on_path path q \<and> \<not> allocatedResFits h q alloc)"
proof (cases "\<forall>q. on_path path q \<longrightarrow> allocatedResFits h q alloc")
  case True
  then show ?thesis using try_inc.walk_ok [OF assms True] by simp
next
  case False
  then show ?thesis using try_inc.walk_fails [of path _ h alloc] by fastforce
qed

theorem TryIncAllocatedResource_atomic_witness:
  "snd (TryIncAllocatedResource (exampleHeap 10 5 4) [''a'', ''root''] (res1 2)) =
     Some (OverMaximum [''a'', ''root'']) \<and>
   fst (TryIncAllocatedResource (exampleHeap 10 5 4) [''a'', ''root''] (res1 2)) = exampleHeap 10 5 4"
proof -
  have "snd (TryIncAllocatedResource (exampleHeap 10 5 4) [''a'', ''root''] (res1 2)) =
      Some (OverMaximum [''a'', ''root''])"
    by (simp add: allocatedResFits_iff example_wf_usage example_nonneg)
      (simp add: example_simps sat64_def)
  with TryIncAllocatedResource_atomic [of "[''a'', ''root'']" "exampleHeap 10 5 4" "res1 2"]
  show ?thesis by (auto split: prod.splits)
qed

text \<open>
  C13. The checked increment keeps every queue within its maximum: if the usage of every queue is
  within the amounts its limit defines, it still is after a successful TryIncAllocatedResource.
\<close>

theorem TryIncAllocatedResource_within_max:
  assumes "wf_usage h" "nonneg_res alloc" "within_max h" "path \<noteq> []"
    and "TryIncAllocatedResource h path alloc = (h', None)"
  shows "within_max h'"
  unfolding within_max_def
proof (intro allI impI)
  fix q k assume "res_has (maxResource (h' q)) k"
  moreover have h': "h' q = (if on_path path q
      then (h q)\<lparr>allocatedResource := Add (allocatedResource (h q)) alloc\<rparr> else h q)"
    using try_inc.walk_success_apply [OF assms(4), of h alloc q] assms(5) by simp
  ultimately have k: "res_has (maxResource (h q)) k" by (simp split: if_splits)
  have old: "amount (allocatedResource (h q)) k \<le> max 0 (amount (maxResource (h q)) k)"
    using assms(3) k by (simp add: within_max_def)
  have fits: "on_path path q \<Longrightarrow> allocatedResFits h q alloc"
    using try_inc.walk_success_iff [OF assms(4), of h alloc] assms(5) by simp
  show "amount (allocatedResource (h' q)) k \<le> max 0 (amount (maxResource (h' q)) k)"
    using old fits k
    by (cases "res_has alloc k")
      (auto simp: h' amount_inc [OF assms(1,2)] allocatedResFits_iff [OF assms(1,2)] amount_undefined)
qed

theorem TryIncAllocatedResource_within_max_witness:
  "\<exists>h'. TryIncAllocatedResource (exampleHeap 10 5 3) [''a'', ''root''] (res1 2) = (h', None) \<and>
     within_max h'"
proof -
  obtain h' where h': "TryIncAllocatedResource (exampleHeap 10 5 3) [''a'', ''root''] (res1 2) = (h', None)"
    by (rule example_success)
  have "within_max (exampleHeap 10 5 3)"
    by (auto simp: within_max_def example_simps split: if_splits)
  then have "within_max h'"
    by (intro TryIncAllocatedResource_within_max [OF _ _ _ _ h'])
      (simp_all add: example_wf_usage example_nonneg)
  with h' show ?thesis by blast
qed

text \<open>
  C18. An allocation can always be released again: after a successful TryIncAllocatedResource the
  DecAllocatedResource of the same resource succeeds, and every queue of the hierarchy is back at
  the usage it had of each type, with nothing else changed.
\<close>

theorem TryInc_then_Dec_restores:
  assumes "wf_usage h" "usage_ok h path alloc" "no_overflow h path alloc"
    and "TryIncAllocatedResource h path alloc = (h', None)"
  shows "\<exists>h''. DecAllocatedResource h' path alloc = (h'', None) \<and>
    (\<forall>q. (\<forall>k. amount (allocatedResource (h'' q)) k = amount (allocatedResource (h q)) k) \<and>
         (h'' q)\<lparr>allocatedResource := None\<rparr> = (h q)\<lparr>allocatedResource := None\<rparr>)"
proof -
  note ok = usage_ok_D [OF assms(2)]
  have h': "h' q = (if on_path path q
      then (h q)\<lparr>allocatedResource := Add (allocatedResource (h q)) alloc\<rparr> else h q)" for q
    using try_inc.walk_success_apply [OF ok(1), of h alloc q] assms(4) by simp
  have amt: "on_path path q \<Longrightarrow> amount (allocatedResource (h' q)) k =
      amount (allocatedResource (h q)) k + amount alloc k" for q k
    using assms(1,3) ok(4)
    by (simp add: h' amount_inc sat64_add_nonneg wf_usage_def nonneg_resD no_overflow_def)
  have wf': "wf_usage h'" using assms(1) ok(4) by (auto simp: wf_usage_def h' nonneg_inc)
  have fits: "on_path path q \<Longrightarrow> resourceFitsAllocated h' q alloc" for q
    using assms(1) ok(4)
    by (auto simp: resourceFitsAllocated_def FitIn_iff amt wf_usage_def nonneg_resD)
  have dec: "DecAllocatedResource h' path alloc = (\<lambda>q. if on_path path q then (h' q)
      \<lparr>allocatedResource := Prune (Sub (allocatedResource (h' q)) alloc)\<rparr> else h' q, None)"
    using dec_alloc.walk_ok [OF ok(1), of alloc h'] fits by simp
  have "amount (Prune (Sub (allocatedResource (h' q)) alloc)) k = amount (allocatedResource (h q)) k"
    if "on_path path q" for q k
    using amount_dec [OF wf' ok(4), of q k] fits [OF that] amt [OF that] by simp
  then show ?thesis unfolding dec by (auto simp: h')
qed

theorem TryInc_then_Dec_restores_witness:
  "\<exists>h' h''. TryIncAllocatedResource (exampleHeap 10 5 3) [''a'', ''root''] (res1 2) = (h', None) \<and>
     DecAllocatedResource h' [''a'', ''root''] (res1 2) = (h'', None) \<and>
     amount (allocatedResource (h'' [''root''])) ''cpu'' = 3"
proof -
  obtain h' where h': "TryIncAllocatedResource (exampleHeap 10 5 3) [''a'', ''root''] (res1 2) = (h', None)"
    by (rule example_success)
  have "amount (allocatedResource (exampleHeap 10 5 3 [''root''])) ''cpu'' = 3"
    by (simp add: example_simps)
  with TryInc_then_Dec_restores [OF _ example_usage_ok h'] h' show ?thesis
    by (fastforce simp: example_wf_usage)
qed

text \<open>
  C3. The usage of a hierarchy stays consistent under every interleaving of allocations, forced
  allocations and releases on its leaf queues: no amount is ever negative, and the usage of a
  parent queue is the sum of the usage of its children.
\<close>

theorem hierarchy_usage_invariant:
  assumes "usage_step\<^sup>*\<^sup>* h h'" "hierarchy h"
  shows "hierarchy h'"
  using assms by (induction rule: rtranclp_induct) (simp_all add: hierarchy_step)

theorem hierarchy_usage_invariant_witness:
  "\<exists>h'. TryIncAllocatedResource (exampleHeap 10 5 3) [''a'', ''root''] (res1 2) = (h', None) \<and>
     usage_adds_up h'"
proof -
  obtain h' where h': "TryIncAllocatedResource (exampleHeap 10 5 3) [''a'', ''root''] (res1 2) = (h', None)"
    by (rule example_success)
  have "hierarchy h'"
    by (rule hierarchy_usage_invariant [of "exampleHeap 10 5 3"])
      (auto simp: example_hierarchy intro!: usage_step.allocate [OF h' example_usage_ok])
  with h' show ?thesis by (auto simp: hierarchy_def)
qed





text \<open>A type that only the parent limits keeps the limit of the parent, where the comment of
  GetMaxResource announces a limit of zero for it.\<close>

lemma GetMaxResource_missing_type:
  "amount (GetMaxResource ((exampleHeap 10 5 3)([''a'', ''root''] :=
      newBlankQueue\<lparr>isLeaf := True, maxResource := Some [(''gpu'', Quantity 1)]\<rparr>))
      [''a'', ''root'']) ''cpu'' = 10"
  by (simp add: internalGetMax_def exampleHeap_def newBlankQueue_def)
    (simp add: Clone_id amount_simps amount_res1 res_has_res1, simp add: res_has_def)

end
