(* ===== verification/QueueApps.thy ===== *)
theory QueueApps
  imports Queues
begin

text \<open>
  Applications, children, priorities and access of the queue hierarchy
  (\<open>pkg/scheduler/objects/queue.go\<close>): the limit on running applications, the reservations of the
  applications of a leaf queue, the cached priorities that travel up the hierarchy, adding and
  removing applications and child queues, the access checks, and the fence of the preemption.
  The map \<open>allocatingAcceptedApps\<close> only ever holds the value true and is the list of its keys.
\<close>

section \<open>Running applications\<close>

fun canRunApp :: "qheap \<Rightarrow> qpath \<Rightarrow> string \<Rightarrow> bool" where
  "canRunApp h [] appID = True"
| "canRunApp h (n # p) appID =
     (if p \<noteq> [] \<and> \<not> canRunApp h p appID then False
      else let sq = h (n # p)
           in if maxRunningApps sq = 0 \<or> appID \<in> set (allocatingAcceptedApps sq) then True
              else add64 (runningApps sq) (length (allocatingAcceptedApps sq) + 1)
                     \<le> maxRunningApps sq)"

fun incRunningApps :: "qheap \<Rightarrow> qpath \<Rightarrow> string \<Rightarrow> qheap" where
  "incRunningApps h [] appID = h"
| "incRunningApps h (n # p) appID =
     (let h = (if p \<noteq> [] then incRunningApps h p appID else h);
          sq = h (n # p);
          sq = sq\<lparr>allocatingAcceptedApps := removeAll appID (allocatingAcceptedApps sq)\<rparr>;
          sq = sq\<lparr>runningApps := add64 (runningApps sq) 1\<rparr>;
          sq = (if maxRunningApps sq > 0 \<and> runningApps sq > maxRunningApps sq
                then sq\<lparr>runningApps := maxRunningApps sq\<rparr> else sq)
      in h(n # p := sq))"

fun decRunningApps :: "qheap \<Rightarrow> qpath \<Rightarrow> qheap" where
  "decRunningApps h [] = h"
| "decRunningApps h (n # p) =
     (let h = (if p \<noteq> [] then decRunningApps h p else h); sq = h (n # p)
      in h(n # p := if runningApps sq > 0 then sq\<lparr>runningApps := runningApps sq - 1\<rparr> else sq))"

fun setAllocatingAccepted :: "qheap \<Rightarrow> qpath \<Rightarrow> string \<Rightarrow> qheap" where
  "setAllocatingAccepted h [] appID = h"
| "setAllocatingAccepted h (n # p) appID =
     (let h = (if p \<noteq> [] then setAllocatingAccepted h p appID else h); sq = h (n # p)
      in h(n # p := sq\<lparr>allocatingAcceptedApps := List.insert appID (allocatingAcceptedApps sq)\<rparr>))"

definition SetMaxRunningApps :: "queue \<Rightarrow> nat \<Rightarrow> queue" where
  "SetMaxRunningApps sq maxApps = sq\<lparr>maxRunningApps := maxApps\<rparr>"

section \<open>Reservations\<close>

definition Reserve :: "queue \<Rightarrow> string \<Rightarrow> queue" where
  "Reserve sq appID =
     sq\<lparr>reservedApps := AList.update appID (map_get 0 (reservedApps sq) appID + 1) (reservedApps sq)\<rparr>"

definition UnReserve :: "queue \<Rightarrow> string \<Rightarrow> int \<Rightarrow> queue" where
  "UnReserve sq appID releases =
     (case map_of (reservedApps sq) appID of
        Some num \<Rightarrow>
          if num \<le> releases then sq\<lparr>reservedApps := AList.delete appID (reservedApps sq)\<rparr>
          else sq\<lparr>reservedApps := AList.update appID (num - releases) (reservedApps sq)\<rparr>
      | None \<Rightarrow> sq)"

section \<open>Priorities\<close>

definition priorityValueByPolicy :: "PriorityPolicy \<Rightarrow> int \<Rightarrow> int \<Rightarrow> int" where
  "priorityValueByPolicy policy offset priority =
     (if priority = MinPriority then priority
      else case policy of
             FencePriorityPolicy \<Rightarrow> offset
           | DefaultPriorityPolicy \<Rightarrow>
               let result = offset + priority
               in if result > MaxPriority then MaxPriority
                  else if result < MinPriority then MinPriority
                  else result)"

definition getCurrentPriority :: "queue \<Rightarrow> int" where
  "getCurrentPriority sq =
     priorityValueByPolicy (priorityPolicy sq) (priorityOffset sq) (currentPriority sq)"

definition maxPriorityOf :: "int gomap \<Rightarrow> int" where
  "maxPriorityOf items = fold (\<lambda>(_, v) curr. max v curr) items MinPriority"

definition recalculatePriority :: "queue \<Rightarrow> queue \<times> int" where
  "recalculatePriority sq =
     (let items = (if isLeaf sq then appPriorities sq else childPriorities sq);
          curr = maxPriorityOf items;
          sq = sq\<lparr>currentPriority := curr\<rparr>
      in (sq, priorityValueByPolicy (priorityPolicy sq) (priorityOffset sq) curr))"

definition updateQueuePriorityInternal :: "queue \<Rightarrow> string \<Rightarrow> int \<Rightarrow> queue \<times> int" where
  "updateQueuePriorityInternal sq queueName priority =
     (if queueName \<notin> set (children sq) then (sq, currentPriority sq)
      else recalculatePriority
             (sq\<lparr>childPriorities := AList.update queueName priority (childPriorities sq)\<rparr>))"

fun UpdateQueuePriority :: "qheap \<Rightarrow> qpath \<Rightarrow> string \<Rightarrow> int \<Rightarrow> qheap" where
  "UpdateQueuePriority h [] queueName priority = h"
| "UpdateQueuePriority h (n # p) queueName priority =
     (if isLeaf (h (n # p)) then h
      else case updateQueuePriorityInternal (h (n # p)) queueName priority of
             (sq, value) \<Rightarrow> UpdateQueuePriority (h(n # p := sq)) p n value)"

definition updateApplicationPriorityInternal :: "queue \<Rightarrow> string \<Rightarrow> int \<Rightarrow> queue \<times> int" where
  "updateApplicationPriorityInternal sq applicationID priority =
     (if applicationID \<notin> set (applications sq) then (sq, currentPriority sq)
      else recalculatePriority
             (sq\<lparr>appPriorities := AList.update applicationID priority (appPriorities sq)\<rparr>))"

definition UpdateApplicationPriority :: "qheap \<Rightarrow> qpath \<Rightarrow> string \<Rightarrow> int \<Rightarrow> qheap" where
  "UpdateApplicationPriority h path applicationID priority =
     (case path of
        [] \<Rightarrow> h
      | n # p \<Rightarrow>
          if \<not> isLeaf (h path) then h
          else case updateApplicationPriorityInternal (h path) applicationID priority of
                 (sq, value) \<Rightarrow> UpdateQueuePriority (h(path := sq)) p n value)"

section \<open>Applications\<close>

text \<open>What the queue reads of an application that it removes: the identifier, the pending, the
  allocated and the placeholder resource, and the allocations with their preempted flag.\<close>

record app_usage =
  ApplicationID :: string
  appPending :: "resource option"
  appAllocated :: "resource option"
  appPlaceholder :: "resource option"
  appAllocations :: "(bool \<times> resource option) list"

definition AddApplication :: "queue \<Rightarrow> string \<Rightarrow> queue" where
  "AddApplication sq appID = sq\<lparr>applications := List.insert appID (applications sq)\<rparr>"

definition preemptingOf :: "(bool \<times> resource option) list \<Rightarrow> resource option" where
  "preemptingOf allocs =
     fold (\<lambda>(preempted, r) acc. if preempted then AddTo acc r else acc) allocs (Some NewResource)"

text \<open>The clean up of the resources of the application, the first part of \<open>RemoveApplication\<close>.\<close>

definition releaseApplication :: "qheap \<Rightarrow> qpath \<Rightarrow> app_usage \<Rightarrow> qheap" where
  "releaseApplication h path app =
     (let h = (if IsZero (appPending app) then h else decPendingResource h path (appPending app));
          h = (if IsZero (appAllocated app) then h
               else fst (DecAllocatedResource h path (appAllocated app)));
          h = (if IsZero (appPlaceholder app) then h
               else fst (DecAllocatedResource h path (appPlaceholder app)));
          preempting = preemptingOf (appAllocations app)
      in if IsZero preempting then h else DecPreemptingResource h path preempting)"

definition RemoveApplication :: "qheap \<Rightarrow> qpath \<Rightarrow> app_usage \<Rightarrow> qheap" where
  "RemoveApplication h path app =
     (let appID = ApplicationID app
      in if appID \<notin> set (applications (h path)) then h
         else
           let h = releaseApplication h path app;
               sq = h path;
               sq = sq\<lparr>applications := removeAll appID (applications sq),
                      appPriorities := AList.delete appID (appPriorities sq),
                      allocatingAcceptedApps := removeAll appID (allocatingAcceptedApps sq)\<rparr>
           in case recalculatePriority sq of
                (sq, priority) \<Rightarrow> UpdateQueuePriority (h(path := sq)) (tl path) (hd path) priority)"

section \<open>Child queues\<close>

definition queue_IsEmpty :: "queue \<Rightarrow> bool" where
  "queue_IsEmpty sq = (if isLeaf sq then applications sq = [] else children sq = [])"

definition applyTemplate :: "queue \<Rightarrow> template \<Rightarrow> queue" where
  "applyTemplate sq childTemplate =
     sq\<lparr>maxRunningApps := tmplMaxApplications childTemplate,
        properties := tmplProperties childTemplate,
        guaranteedResource := Clone (tmplGuaranteedResource childTemplate),
        maxResource := Clone (tmplMaxResource childTemplate)\<rparr>"

datatype child_error = LeafParent qpath | DrainingParent qpath

text \<open>The new child is linked to the parent at \<open>path\<close> under its name.\<close>

definition addChildQueue ::
    "qheap \<Rightarrow> qpath \<Rightarrow> string \<Rightarrow> queue \<Rightarrow> qheap \<times> child_error option" where
  "addChildQueue h path name child =
     (let sq = h path
      in if isLeaf sq then (h, Some (LeafParent path))
         else if stateMachine sq = Draining then (h, Some (DrainingParent path))
         else
           let sq = sq\<lparr>children := List.insert name (children sq),
                      childPriorities :=
                        AList.update name (getCurrentPriority child) (childPriorities sq)\<rparr>;
               child =
                 (if isLeaf child
                  then if isManaged child then child
                       else case queueTemplate sq of
                              Some t \<Rightarrow> applyTemplate child t
                            | None \<Rightarrow> child
                  else if queueTemplate child = None
                       then child\<lparr>queueTemplate := queueTemplate sq\<rparr> else child)
           in (h(path := sq, name # path := child), None))"

definition removeChildQueue :: "qheap \<Rightarrow> qpath \<Rightarrow> string \<Rightarrow> qheap" where
  "removeChildQueue h path name =
     (let sq = h path;
          sq = sq\<lparr>children := removeAll name (children sq),
                 childPriorities := AList.delete name (childPriorities sq)\<rparr>
      in case recalculatePriority sq of
           (sq, priority) \<Rightarrow> UpdateQueuePriority (h(path := sq)) (tl path) (hd path) priority)"

text \<open>\<open>None\<close> is the nil dereference on the parent of the root queue.\<close>

definition RemoveQueue :: "qheap \<Rightarrow> qpath \<Rightarrow> (qheap \<times> bool) option" where
  "RemoveQueue h path =
     (let sq = h path
      in if isManaged sq \<and> stateMachine sq = Active then Some (h, False)
         else if children sq \<noteq> [] \<or> applications sq \<noteq> [] then Some (h, False)
         else if tl path = [] then None
         else Some (removeChildQueue h (tl path) (hd path), True))"

definition doRemoveQueue :: "(ObjectState, ObjectEvent) fsm_event \<Rightarrow> queue \<Rightarrow> queue" where
  "doRemoveQueue fsm sq =
     sq\<lparr>stateMachine := fst (handleQueueEvent fsm (stateMachine sq) Remove)\<rparr>"

text \<open>The first argument bounds the depth of the hierarchy below the queue.\<close>

fun MarkQueueForRemoval ::
    "nat \<Rightarrow> (ObjectState, ObjectEvent) fsm_event \<Rightarrow> qheap \<Rightarrow> qpath \<Rightarrow> qheap" where
  "MarkQueueForRemoval depth fsm h path =
     (if \<not> isManaged (h path) then h
      else let cs = children (h path); h = h(path := doRemoveQueue fsm (h path))
           in case depth of
                0 \<Rightarrow> h
              | Suc d \<Rightarrow>
                  if children (h path) \<noteq> []
                  then fold (\<lambda>c h. MarkQueueForRemoval d fsm h (c # path)) cs h else h)"

section \<open>Access\<close>

text \<open>The name of a queue with its path, joined with dots from the root down.\<close>

definition QueuePath :: "qpath \<Rightarrow> string" where
  "QueuePath path = Join (rev path) CHR ''.''"

definition IsRecoveryQueue :: "string \<Rightarrow> bool" where
  "IsRecoveryQueue queueName = EqualFold queueName ''root.@recovery@''"

fun CheckSubmitAccess :: "qheap \<Rightarrow> qpath \<Rightarrow> UserGroup \<Rightarrow> bool" where
  "CheckSubmitAccess h [] user = False"
| "CheckSubmitAccess h (n # p) user =
     (if IsRecoveryQueue (QueuePath (n # p)) then False
      else let sq = h (n # p);
               allow = (CheckAccess (submitACL sq) user \<or> CheckAccess (adminACL sq) user)
           in if \<not> allow \<and> p \<noteq> [] then CheckSubmitAccess h p user else allow)"

fun CheckAdminAccess :: "qheap \<Rightarrow> qpath \<Rightarrow> UserGroup \<Rightarrow> bool" where
  "CheckAdminAccess h [] user = False"
| "CheckAdminAccess h (n # p) user =
     (let allow = CheckAccess (adminACL (h (n # p))) user
      in if \<not> allow \<and> p \<noteq> [] then CheckAdminAccess h p user else allow)"

section \<open>Preemption fence\<close>

text \<open>The map of priorities is filled on the way up; the result is the fence queue.\<close>

fun findPreemptionFenceRoot ::
    "qheap \<Rightarrow> qpath \<Rightarrow> (qpath \<times> int) list \<Rightarrow> int \<Rightarrow> resource option \<Rightarrow> (qpath \<times> int) list \<times> qpath" where
  "findPreemptionFenceRoot h [] priorityMap current askResource = (priorityMap, [])"
| "findPreemptionFenceRoot h (n # p) priorityMap current askResource =
     (let sq = h (n # p);
          current = (case priorityPolicy sq of
                       FencePriorityPolicy \<Rightarrow> priorityOffset sq
                     | DefaultPriorityPolicy \<Rightarrow> current + priorityOffset sq);
          priorityMap = AList.update (n # p) current priorityMap;
          maxRes = GetMaxResource h (n # p);
          shouldFenceByMax =
            (if maxRes \<noteq> None \<and> orZero maxRes \<noteq> []
             then \<not> StrictlyGreaterThanOrEqualsOnlyExisting maxRes
                      (Add (allocatedResource sq) askResource)
             else False)
      in if p = [] \<or> preemptionPolicy sq = FencePreemptionPolicy \<or> shouldFenceByMax
         then (priorityMap, n # p)
         else findPreemptionFenceRoot h p priorityMap current askResource)"

section \<open>Quota preemption\<close>

definition tryAcquirePreemption :: "int \<Rightarrow> queue \<Rightarrow> queue \<times> bool" where
  "tryAcquirePreemption now sq =
     (if \<not> isManaged sq \<or> isQuotaPreemptionRunning sq then (sq, False)
      else if StrictlyGreaterThanOrEqualsOnlyExisting (maxResource sq) (allocatedResource sq)
      then (sq\<lparr>quotaPreemptionStartTime := None\<rparr>, False)
      else case quotaPreemptionStartTime sq of
             None \<Rightarrow> (sq, False)
           | Some t \<Rightarrow> if now < t then (sq, False)
                       else (sq\<lparr>isQuotaPreemptionRunning := True\<rparr>, True))"

definition setQuotaPreemptionState :: "bool \<Rightarrow> queue \<Rightarrow> queue" where
  "setQuotaPreemptionState run sq =
     (let sq = (if \<not> run then sq\<lparr>quotaPreemptionStartTime := None\<rparr> else sq)
      in sq\<lparr>isQuotaPreemptionRunning := run\<rparr>)"

definition addDelay :: "gotime \<Rightarrow> int \<Rightarrow> gotime" where
  "addDelay t d = map_option (\<lambda>t. t + d) t"

definition setPreemptionTime :: "int \<Rightarrow> queue \<Rightarrow> resource option \<Rightarrow> int \<Rightarrow> queue" where
  "setPreemptionTime now sq oldMaxResource oldDelay =
     (let start = quotaPreemptionStartTime sq; delay = quotaPreemptionDelay sq
      in if isQuotaPreemptionRunning sq then sq
         else if delay = 0 then sq\<lparr>quotaPreemptionStartTime := None\<rparr>
         else if IsZero (maxResource sq) then sq\<lparr>quotaPreemptionStartTime := None\<rparr>
         else if StrictlyGreaterThanOrEqualsOnlyExisting (maxResource sq) (allocatedResource sq)
         then sq\<lparr>quotaPreemptionStartTime := None\<rparr>
         else if Equals oldMaxResource (maxResource sq)
         then if start = None
              then if oldDelay = 0 \<and> delay > 0
                   then sq\<lparr>quotaPreemptionStartTime := Some (now + delay)\<rparr> else sq
              else if oldDelay \<noteq> delay
                   then sq\<lparr>quotaPreemptionStartTime := addDelay start (delay - oldDelay)\<rparr> else sq
         else if StrictlyGreaterThan oldMaxResource (maxResource sq)
         then if start \<noteq> None
              then if oldDelay \<noteq> delay
                   then sq\<lparr>quotaPreemptionStartTime := addDelay start (delay - oldDelay)\<rparr> else sq
              else sq\<lparr>quotaPreemptionStartTime := Some (now + delay)\<rparr>
         else if StrictlyGreaterThan (maxResource sq) oldMaxResource
         then if start \<noteq> None \<and> oldDelay \<noteq> delay
              then sq\<lparr>quotaPreemptionStartTime := addDelay start (delay - oldDelay)\<rparr> else sq
         else sq)"

section \<open>Specification vocabulary\<close>

text \<open>The applications that count against the limit of a queue never exceed it.\<close>

definition apps_within_max :: "qheap \<Rightarrow> bool" where
  "apps_within_max h \<longleftrightarrow>
     (\<forall>q. distinct (allocatingAcceptedApps (h q)) \<and> maxRunningApps (h q) < 2 ^ 64 - 1 \<and>
        (maxRunningApps (h q) > 0 \<longrightarrow>
           runningApps (h q) + length (allocatingAcceptedApps (h q)) \<le> maxRunningApps (h q)))"

text \<open>How the scheduler uses the counters: an accepted application that may run is tracked or
  starts to run, and a running application stops.\<close>

inductive run_step :: "qheap \<Rightarrow> qheap \<Rightarrow> bool" where
  admit: "canRunApp h path appID \<Longrightarrow> run_step h (setAllocatingAccepted h path appID)"
| start: "canRunApp h path appID \<Longrightarrow> run_step h (incRunningApps h path appID)"
| stop: "run_step h (decRunningApps h path)"

definition canRunIn :: "queue \<Rightarrow> string \<Rightarrow> bool" where
  "canRunIn sq appID \<longleftrightarrow>
     maxRunningApps sq = 0 \<or> appID \<in> set (allocatingAcceptedApps sq) \<or>
     add64 (runningApps sq) (length (allocatingAcceptedApps sq) + 1) \<le> maxRunningApps sq"

definition incRunningQueue :: "string \<Rightarrow> queue \<Rightarrow> queue" where
  "incRunningQueue appID sq =
     (let running = add64 (runningApps sq) 1
      in sq\<lparr>allocatingAcceptedApps := removeAll appID (allocatingAcceptedApps sq),
            runningApps := (if maxRunningApps sq > 0 \<and> running > maxRunningApps sq
                            then maxRunningApps sq else running)\<rparr>)"

text \<open>The priority that a queue caches is the largest of its applications or children, and for
  every child it caches the priority that the child reports.\<close>

definition priority_ok :: "qheap \<Rightarrow> qpath \<Rightarrow> bool" where
  "priority_ok h p \<longleftrightarrow>
     currentPriority (h p) =
       maxPriorityOf (if isLeaf (h p) then appPriorities (h p) else childPriorities (h p))"

definition child_cache_ok :: "qheap \<Rightarrow> qpath \<Rightarrow> string \<Rightarrow> bool" where
  "child_cache_ok h p n \<longleftrightarrow>
     (\<not> isLeaf (h p) \<and> n \<in> set (children (h p)) \<longrightarrow>
        map_of (childPriorities (h p)) n = Some (getCurrentPriority (h (n # p))))"

definition priorities_ok :: "qheap \<Rightarrow> bool" where
  "priorities_ok h \<longleftrightarrow>
     (\<forall>p. p \<noteq> [] \<longrightarrow> priority_ok h p \<and> (\<forall>n. child_cache_ok h p n))"

text \<open>The fields of a queue that the priorities depend on.\<close>

definition prio_view where
  "prio_view sq = (children sq, isLeaf sq, appPriorities sq, childPriorities sq, currentPriority sq,
     priorityPolicy sq, priorityOffset sq)"

text \<open>All the ancestors of a queue are parent queues that list it.\<close>

definition below_parents :: "qheap \<Rightarrow> qpath \<Rightarrow> bool" where
  "below_parents h path \<longleftrightarrow>
     linked h path \<and> (\<forall>q. on_path (tl path) q \<longrightarrow> \<not> isLeaf (h q))"

text \<open>The calls that change priorities, with what the callers guarantee: the application is known
  to the leaf queue, a removed queue is a child of its parent, and a new child is not yet known.\<close>

inductive priority_step :: "qheap \<Rightarrow> qheap \<Rightarrow> bool" where
  update_app: "below_parents h path \<Longrightarrow> path \<noteq> [] \<Longrightarrow> isLeaf (h path) \<Longrightarrow>
     app \<in> set (applications (h path)) \<Longrightarrow>
     priority_step h (UpdateApplicationPriority h path app v)"
| remove_app: "below_parents h path \<Longrightarrow> path \<noteq> [] \<Longrightarrow> isLeaf (h path) \<Longrightarrow>
     priority_step h (RemoveApplication h path app)"
| remove_child: "below_parents h path \<Longrightarrow> path \<noteq> [] \<Longrightarrow> \<not> isLeaf (h path) \<Longrightarrow>
     priority_step h (removeChildQueue h path name)"
| add_child: "path \<noteq> [] \<Longrightarrow> name \<notin> set (children (h path)) \<Longrightarrow>
     map_of (childPriorities (h path)) name = None \<Longrightarrow>
     prio_view child = ([], isLeaf child, [], [], MinPriority, DefaultPriorityPolicy, 0) \<Longrightarrow>
     priority_step h (fst (addChildQueue h path name child))"

text \<open>A queue that stops the search for preemption victims.\<close>

definition is_fence :: "qheap \<Rightarrow> qpath \<Rightarrow> resource option \<Rightarrow> bool" where
  "is_fence h q askResource \<longleftrightarrow>
     tl q = [] \<or> preemptionPolicy (h q) = FencePreemptionPolicy \<or>
     (GetMaxResource h q \<noteq> None \<and> orZero (GetMaxResource h q) \<noteq> [] \<and>
      \<not> StrictlyGreaterThanOrEqualsOnlyExisting (GetMaxResource h q)
          (Add (allocatedResource (h q)) askResource))"

text \<open>A root queue and a leaf queue with one application and a priority offset.\<close>

definition exampleApps :: qheap where
  "exampleApps =
     (\<lambda>_. newBlankQueue)
       ([''root''] := newBlankQueue\<lparr>children := [''a''], childPriorities := [(''a'', MinPriority)]\<rparr>,
        [''a'', ''root''] := newBlankQueue\<lparr>isLeaf := True, applications := [''app-1''],
          priorityOffset := 10\<rparr>)"

section \<open>Counters of applications\<close>

declare MarkQueueForRemoval.simps [simp del]

interpretation inc_running: queue_walk "\<lambda>h p. incRunningApps h p appID" "incRunningQueue appID" for appID
  by unfold_locales (simp_all add: Let_def incRunningQueue_def)

interpretation dec_running: queue_walk "decRunningApps"
    "\<lambda>sq. if runningApps sq > 0 then sq\<lparr>runningApps := runningApps sq - 1\<rparr> else sq"
  by unfold_locales (simp_all add: Let_def)

interpretation set_accepted: queue_walk "\<lambda>h p. setAllocatingAccepted h p appID"
    "\<lambda>sq. sq\<lparr>allocatingAcceptedApps := List.insert appID (allocatingAcceptedApps sq)\<rparr>" for appID
  by unfold_locales (simp_all add: Let_def)

lemma canRunApp_iff: "canRunApp h path appID \<longleftrightarrow> (\<forall>q. on_path path q \<longrightarrow> canRunIn (h q) appID)"
proof (induction path)
  case (Cons n p)
  then show ?case by (auto simp: Let_def canRunIn_def on_path_Cons)
qed simp

lemma length_removeAll_distinct:
  "distinct xs \<Longrightarrow> x \<in> set xs \<Longrightarrow> Suc (length (removeAll x xs)) = length xs"
  by (induction xs) auto

lemma canRunIn_room:
  assumes "apps_within_max h" "canRunIn (h q) appID" "maxRunningApps (h q) > 0"
    and "appID \<notin> set (allocatingAcceptedApps (h q))"
  shows "runningApps (h q) + length (allocatingAcceptedApps (h q)) + 1 \<le> maxRunningApps (h q)"
proof -
  let ?r = "runningApps (h q)" and ?a = "length (allocatingAcceptedApps (h q))"
  have "?r + ?a \<le> maxRunningApps (h q)" "maxRunningApps (h q) < 2 ^ 64 - 1"
    using assms(1,3) by (simp_all add: apps_within_max_def)
  then have "add64 ?r (?a + 1) = ?r + (?a + 1)" by (intro add64_exact) linarith
  then show ?thesis using assms(2-4) by (simp add: canRunIn_def)
qed

lemma start_counts:
  assumes "apps_within_max h" "canRunIn (h q) appID" "maxRunningApps (h q) > 0"
  shows "runningApps (incRunningQueue appID (h q)) = runningApps (h q) + 1"
    and "runningApps (h q) + 1 + length (removeAll appID (allocatingAcceptedApps (h q)))
      \<le> maxRunningApps (h q)"
proof -
  let ?r = "runningApps (h q)" and ?a = "allocatingAcceptedApps (h q)"
  have *: "?r + length ?a \<le> maxRunningApps (h q)" "maxRunningApps (h q) < 2 ^ 64 - 1" "distinct ?a"
    using assms(1,3) by (simp_all add: apps_within_max_def)
  show le: "?r + 1 + length (removeAll appID ?a) \<le> maxRunningApps (h q)"
  proof (cases "appID \<in> set ?a")
    case True
    then show ?thesis using * length_removeAll_distinct [of ?a appID] by simp
  next
    case False
    then show ?thesis using canRunIn_room [OF assms] by simp
  qed
  then have "add64 ?r 1 = ?r + 1" using *(2) by (intro add64_exact) linarith
  then show "runningApps (incRunningQueue appID (h q)) = ?r + 1"
    using le by (simp add: incRunningQueue_def Let_def)
qed

lemma apps_within_max_step: "run_step h h' \<Longrightarrow> apps_within_max h \<Longrightarrow> apps_within_max h'"
proof (induction rule: run_step.induct)
  case (admit h path appID)
  have "length (List.insert appID (allocatingAcceptedApps (h q))) + runningApps (h q)
      \<le> maxRunningApps (h q)" if "on_path path q" "maxRunningApps (h q) > 0" for q
    using admit that canRunIn_room [OF admit.prems, of q appID]
    by (cases "appID \<in> set (allocatingAcceptedApps (h q))")
      (auto simp: canRunApp_iff apps_within_max_def add.commute)
  then show ?case
    using admit by (auto simp: apps_within_max_def set_accepted.walk_apply add.commute)
next
  case (start h path appID)
  have "canRunIn (h q) appID" if "on_path path q" for q
    using start.hyps that by (simp add: canRunApp_iff)
  note sc = start_counts [OF start.prems this]
  have m: "maxRunningApps (incRunningQueue appID sq) = maxRunningApps sq"
    "allocatingAcceptedApps (incRunningQueue appID sq) = removeAll appID (allocatingAcceptedApps sq)"
    for sq by (simp_all add: incRunningQueue_def Let_def)
  show ?case
    using start.prems
    by (auto simp: apps_within_max_def inc_running.walk_apply m sc distinct_removeAll
        dest: sc(2))
next
  case (stop h path)
  show ?case unfolding apps_within_max_def
  proof
    fix q
    show "distinct (allocatingAcceptedApps (decRunningApps h path q)) \<and>
        maxRunningApps (decRunningApps h path q) < 2 ^ 64 - 1 \<and>
        (maxRunningApps (decRunningApps h path q) > 0 \<longrightarrow>
           runningApps (decRunningApps h path q) +
             length (allocatingAcceptedApps (decRunningApps h path q))
           \<le> maxRunningApps (decRunningApps h path q))"
      using stop.prems [unfolded apps_within_max_def, rule_format, of q]
      by (auto simp: dec_running.walk_apply)
  qed
qed

section \<open>Cached priorities\<close>

lemma fold_max_ge: "(c::int) \<le> fold (\<lambda>(_, v) curr. max v curr) items c"
proof (induction items arbitrary: c)
  case (Cons i items)
  obtain n v where i: "i = (n, v)" by fastforce
  have "c \<le> max v c" by simp
  also have "\<dots> \<le> fold (\<lambda>(_, v) curr. max v curr) items (max v c)" by (rule Cons.IH)
  finally show ?case by (simp add: i)
qed simp

lemma maxPriorityOf_ge: "MinPriority \<le> maxPriorityOf items"
  by (simp add: maxPriorityOf_def fold_max_ge)

lemma maxPriorityOf_upper: "(n, v) \<in> set items \<Longrightarrow> v \<le> maxPriorityOf items"
proof -
  have "(n, v) \<in> set items \<Longrightarrow> v \<le> fold (\<lambda>(_, v) curr. max v curr) items c" for c
  proof (induction items arbitrary: c)
    case (Cons i items)
    then show ?case
      using fold_max_ge [of "max v c" items] by (cases "i = (n, v)") auto
  qed simp
  then show "(n, v) \<in> set items \<Longrightarrow> v \<le> maxPriorityOf items" by (simp add: maxPriorityOf_def)
qed

lemma recalculatePriority_simps:
  "snd (recalculatePriority sq) = getCurrentPriority (fst (recalculatePriority sq))"
  "currentPriority (fst (recalculatePriority sq)) =
     maxPriorityOf (if isLeaf sq then appPriorities sq else childPriorities sq)"
  "fst (recalculatePriority sq) = sq\<lparr>currentPriority :=
     maxPriorityOf (if isLeaf sq then appPriorities sq else childPriorities sq)\<rparr>"
  by (simp_all add: recalculatePriority_def getCurrentPriority_def Let_def)

lemma recalculatePriority_pair:
  "recalculatePriority sq =
     (fst (recalculatePriority sq), getCurrentPriority (fst (recalculatePriority sq)))"
  by (metis recalculatePriority_simps(1) prod.collapse)

lemma below_parents_up:
  assumes "below_parents h (n # m # p)"
  shows "below_parents h (m # p)" "n \<in> set (children (h (m # p)))" "\<not> isLeaf (h (m # p))"
proof -
  have l: "linked h (n # m # p)" and nl: "\<And>q. on_path (m # p) q \<Longrightarrow> \<not> isLeaf (h q)"
    using assms by (simp_all add: below_parents_def)
  from l have "linked h (m # p)" unfolding linked_def by (meson suffix_ConsI)
  with nl show "below_parents h (m # p)" by (auto simp: below_parents_def on_path_Cons)
  show "n \<in> set (children (h (m # p)))" using l by (auto simp: linked_def)
  show "\<not> isLeaf (h (m # p))" by (rule nl) simp
qed

lemma below_parents_cong:
  assumes "\<And>q. children (h' q) = children (h q)" "\<And>q. isLeaf (h' q) = isLeaf (h q)"
  shows "below_parents h' path \<longleftrightarrow> below_parents h path"
  using assms by (simp add: below_parents_def linked_def)

text \<open>When every cache is right except what the parent of the queue at \<open>n # p\<close> holds for it, then
  reporting the priority of that queue to the parent repairs all the caches above.\<close>

lemma UpdateQueuePriority_repairs:
  assumes "below_parents h (n # p)"
    and "\<And>q. q \<noteq> [] \<Longrightarrow> priority_ok h q"
    and "\<And>q m. q \<noteq> [] \<Longrightarrow> m # q \<noteq> n # p \<Longrightarrow> child_cache_ok h q m"
  shows "priorities_ok (UpdateQueuePriority h p n (getCurrentPriority (h (n # p))))"
  using assms
proof (induction p arbitrary: h n)
  case Nil
  then show ?case by (simp add: priorities_ok_def)
next
  case (Cons m p)
  note up = below_parents_up [OF Cons.prems(1)]
  define v where "v = getCurrentPriority (h (n # m # p))"
  define sq where "sq = fst (recalculatePriority
    ((h (m # p))\<lparr>childPriorities := AList.update n v (childPriorities (h (m # p)))\<rparr>))"
  define h' where "h' = h(m # p := sq)"
  have sq: "children sq = children (h (m # p))" "isLeaf sq = isLeaf (h (m # p))"
    "childPriorities sq = AList.update n v (childPriorities (h (m # p)))"
    "currentPriority sq = maxPriorityOf (childPriorities sq)"
    using up(3) by (simp_all add: sq_def recalculatePriority_simps)
  have h': "h' (m # p) = sq" "q \<noteq> m # p \<Longrightarrow> h' q = h q" for q by (simp_all add: h'_def)
  have same: "children (h' q) = children (h q)" "isLeaf (h' q) = isLeaf (h q)" for q
    using sq by (simp_all add: h'_def)
  have "updateQueuePriorityInternal (h (m # p)) n v = (sq, getCurrentPriority sq)"
    using up(2) unfolding sq_def updateQueuePriorityInternal_def
    by (simp only: if_False not_True_eq_False) (rule recalculatePriority_pair)
  then have eq: "UpdateQueuePriority h (m # p) n v =
      UpdateQueuePriority h' p m (getCurrentPriority (h' (m # p)))"
    using up(3) by (simp add: h'_def)
  have "priorities_ok (UpdateQueuePriority h' p m (getCurrentPriority (h' (m # p))))"
  proof (rule Cons.IH)
    show "below_parents h' (m # p)" using up(1) same by (subst below_parents_cong [of h' h])
    show "priority_ok h' q" if "q \<noteq> []" for q
      using Cons.prems(2) [OF that] up(3) sq h' by (cases "q = m # p") (simp_all add: priority_ok_def)
    show "child_cache_ok h' q k" if "q \<noteq> []" "k # q \<noteq> m # p" for q k
    proof (cases "q = m # p \<and> k = n")
      case True
      then show ?thesis using sq(3) h' by (simp add: child_cache_ok_def update_conv' v_def)
    next
      case False
      then have "child_cache_ok h q k" using Cons.prems(3) [OF that(1), of k] by auto
      moreover have "h' (k # q) = h (k # q)" using that(2) h'(2) by simp
      ultimately show ?thesis
        using False sq h' same by (cases "q = m # p") (simp_all add: child_cache_ok_def update_conv')
    qed
  qed
  then show ?case unfolding v_def [symmetric] eq .
qed

lemma below_parents_upd: "below_parents h (n # p) \<Longrightarrow> below_parents (h(n # p := sq)) (n # p)"
  by (auto simp: below_parents_def linked_def on_path_def dest: suffix_length_le suffix_ConsD)

lemma recalc_and_report:
  assumes "priorities_ok h" "below_parents h (n # p)"
    and "isLeaf sq = isLeaf (h (n # p))"
    and "\<And>m. m \<in> set (children sq) \<Longrightarrow> m \<in> set (children (h (n # p))) \<and>
      map_of (childPriorities sq) m = map_of (childPriorities (h (n # p))) m"
  shows "priorities_ok (case recalculatePriority sq of
    (sq, v) \<Rightarrow> UpdateQueuePriority (h(n # p := sq)) p n v)"
proof -
  define sq' where "sq' = fst (recalculatePriority sq)"
  define h' where "h' = h(n # p := sq')"
  have sq': "isLeaf sq' = isLeaf (h (n # p))" "children sq' = children sq"
    "childPriorities sq' = childPriorities sq" "appPriorities sq' = appPriorities sq"
    "currentPriority sq' = maxPriorityOf (if isLeaf sq then appPriorities sq else childPriorities sq)"
    by (simp_all add: sq'_def recalculatePriority_simps assms(3))
  have "priorities_ok (UpdateQueuePriority h' p n (getCurrentPriority (h' (n # p))))"
  proof (rule UpdateQueuePriority_repairs)
    show "below_parents h' (n # p)"
      unfolding h'_def by (rule below_parents_upd [OF assms(2)])
    show "priority_ok h' q" if "q \<noteq> []" for q
      using assms(1,3) that sq' by (cases "q = n # p") (simp_all add: priority_ok_def h'_def priorities_ok_def)
    show "child_cache_ok h' q m" if "q \<noteq> []" "m # q \<noteq> n # p" for q m
      using assms(1) assms(4) [of m] that sq'
      by (cases "q = n # p") (auto simp: child_cache_ok_def h'_def priorities_ok_def)
  qed
  moreover have "recalculatePriority sq = (sq', getCurrentPriority (h' (n # p)))"
    using recalculatePriority_pair [of sq] by (simp add: sq'_def h'_def)
  ultimately show ?thesis by (simp add: h'_def)
qed

lemma prio_view_eqD:
  assumes "prio_view a = prio_view b"
  shows "children a = children b" "isLeaf a = isLeaf b" "appPriorities a = appPriorities b"
    "childPriorities a = childPriorities b" "currentPriority a = currentPriority b"
    "getCurrentPriority a = getCurrentPriority b"
  using assms by (simp_all add: prio_view_def getCurrentPriority_def)

lemma priorities_ok_cong:
  assumes "\<And>q. prio_view (h' q) = prio_view (h q)"
  shows "priorities_ok h' = priorities_ok h" "below_parents h' path = below_parents h path"
  using prio_view_eqD [OF assms]
  by (simp_all add: priorities_ok_def priority_ok_def child_cache_ok_def below_parents_def linked_def)

lemma prio_view_walks:
  "prio_view (decPendingResource h path r q) = prio_view (h q)"
  "prio_view (DecPreemptingResource h path r q) = prio_view (h q)"
  "path \<noteq> [] \<Longrightarrow> prio_view (fst (DecAllocatedResource h path r) q) = prio_view (h q)"
proof -
  show "prio_view (decPendingResource h path r q) = prio_view (h q)"
    by (simp add: dec_pending.walk_apply decPendingQueue_def prio_view_def)
  show "prio_view (DecPreemptingResource h path r q) = prio_view (h q)"
    by (simp add: dec_preempting.walk_apply prio_view_def)
  assume "path \<noteq> []"
  then show "prio_view (fst (DecAllocatedResource h path r) q) = prio_view (h q)"
    using dec_alloc.walk_success_apply [of path h r q] dec_alloc.walk_failure_changes_nothing [of path h r]
    by (cases "snd (DecAllocatedResource h path r) = None") (simp_all add: prio_view_def)
qed

lemma maxPriorityOf_new:
  "map_of m k = None \<Longrightarrow> maxPriorityOf (AList.update k MinPriority m) = maxPriorityOf m"
  using maxPriorityOf_ge [of m] by (simp add: AList_update_new maxPriorityOf_def)

lemma prio_view_release:
  "path \<noteq> [] \<Longrightarrow> prio_view (releaseApplication h path app q) = prio_view (h q)"
  by (simp add: releaseApplication_def Let_def prio_view_walks)

lemma RemoveApplication_priorities:
  assumes "priorities_ok h" "below_parents h (n # p)" "isLeaf (h (n # p))"
  shows "priorities_ok (RemoveApplication h (n # p) app)"
proof -
  let ?h = "releaseApplication h (n # p) app"
  have v: "prio_view (?h q) = prio_view (h q)" for q by (rule prio_view_release) simp
  have "priorities_ok ?h" "below_parents ?h (n # p)"
    using assms(1,2) priorities_ok_cong [of ?h h, OF v] by simp_all
  note r = recalc_and_report [OF this]
  show ?thesis
    unfolding RemoveApplication_def Let_def list.sel
    by (rule if_split [THEN iffD2, rule_format]) (use assms(1) in \<open>auto intro: r\<close>)
qed

lemma addChildQueue_priorities:
  assumes "priorities_ok h" "path \<noteq> []" "name \<notin> set (children (h path))"
    and "map_of (childPriorities (h path)) name = None"
    and "prio_view child = ([], isLeaf child, [], [], MinPriority, DefaultPriorityPolicy, 0)"
  shows "priorities_ok (fst (addChildQueue h path name child))"
proof (cases "isLeaf (h path) \<or> stateMachine (h path) = Draining")
  case True
  then show ?thesis using assms(1) by (auto simp: addChildQueue_def Let_def)
next
  case False
  have c: "getCurrentPriority child = MinPriority"
    using assms(5) by (simp add: getCurrentPriority_def prio_view_def priorityValueByPolicy_def)
  define h' where "h' = fst (addChildQueue h path name child)"
  have parent: "children (h' path) = List.insert name (children (h path))"
    "isLeaf (h' path) = isLeaf (h path)" "currentPriority (h' path) = currentPriority (h path)"
    "childPriorities (h' path) = AList.update name MinPriority (childPriorities (h path))"
    "getCurrentPriority (h' path) = getCurrentPriority (h path)"
    using False c by (simp_all add: h'_def addChildQueue_def Let_def getCurrentPriority_def)
  have child: "prio_view (h' (name # path)) = prio_view child"
    using False by (simp add: h'_def addChildQueue_def Let_def prio_view_def applyTemplate_def
        split: option.splits)
  have other: "q \<noteq> path \<Longrightarrow> q \<noteq> name # path \<Longrightarrow> h' q = h q" for q
    using False by (simp add: h'_def addChildQueue_def Let_def)
  have child': "children (h' (name # path)) = []" "appPriorities (h' (name # path)) = []"
    "childPriorities (h' (name # path)) = []" "currentPriority (h' (name # path)) = MinPriority"
    "getCurrentPriority (h' (name # path)) = MinPriority"
    using child assms(5) prio_view_eqD [OF child] c by (simp_all add: prio_view_def)
  have "priority_ok h' q" if "q \<noteq> []" for q
  proof -
    have "priority_ok h q" using assms(1) that by (simp add: priorities_ok_def)
    moreover have "maxPriorityOf [] = MinPriority" by (simp add: maxPriorityOf_def)
    ultimately show ?thesis
      using other [of q] parent child' False assms(4)
      by (cases "q = path"; cases "q = name # path") (simp_all add: priority_ok_def maxPriorityOf_new)
  qed
  moreover have "child_cache_ok h' q m" if "q \<noteq> []" for q m
  proof -
    have old: "child_cache_ok h q m" using assms(1) that by (simp add: priorities_ok_def)
    consider "q = name # path" | "q = path" "m = name" | "q = path" "m \<noteq> name"
      | "q \<noteq> name # path" "q \<noteq> path" by blast
    then show ?thesis
    proof cases
      case 4
      then have "getCurrentPriority (h' (m # q)) = getCurrentPriority (h (m # q))"
        using other [of "m # q"] parent(5) by (cases "m # q = path") auto
      with 4 old other [of q] show ?thesis by (simp add: child_cache_ok_def)
    qed (use old parent child' other [of "m # q"] in \<open>auto simp: child_cache_ok_def update_conv'\<close>)
  qed
  ultimately show ?thesis unfolding h'_def [symmetric] by (simp add: priorities_ok_def)
qed

lemma priorities_ok_step: "priority_step h h' \<Longrightarrow> priorities_ok h \<Longrightarrow> priorities_ok h'"
proof (induction rule: priority_step.induct)
  case (update_app h path app v)
  then obtain n p where path: "path = n # p" by (cases path) auto
  note r = recalc_and_report [OF update_app.prems update_app.hyps(1) [unfolded path]]
  show ?case
    using update_app.hyps(3,4)
    by (simp add: UpdateApplicationPriority_def path updateApplicationPriorityInternal_def)
      (rule r, auto)
next
  case (remove_app h path app)
  then obtain n p where path: "path = n # p" by (cases path) auto
  with remove_app show ?case by (simp add: RemoveApplication_priorities)
next
  case (remove_child h path name)
  then obtain n p where path: "path = n # p" by (cases path) auto
  note r = recalc_and_report [OF remove_child.prems remove_child.hyps(1) [unfolded path]]
  show ?case
    unfolding removeChildQueue_def Let_def path list.sel
    by (rule r) (auto simp: delete_conv' path)
next
  case (add_child path name h child)
  then show ?case by (simp add: addChildQueue_priorities)
qed

section \<open>Fences and access\<close>

lemma findPreemptionFenceRoot_unfold:
  "\<exists>pm'. findPreemptionFenceRoot h (n # p) pm c r =
     (if is_fence h (n # p) r then (AList.update (n # p)
        (case priorityPolicy (h (n # p)) of FencePriorityPolicy \<Rightarrow> priorityOffset (h (n # p))
         | DefaultPriorityPolicy \<Rightarrow> c + priorityOffset (h (n # p))) pm, n # p)
      else findPreemptionFenceRoot h p pm'
        (case priorityPolicy (h (n # p)) of FencePriorityPolicy \<Rightarrow> priorityOffset (h (n # p))
         | DefaultPriorityPolicy \<Rightarrow> c + priorityOffset (h (n # p))) r)"
  by (auto simp: Let_def is_fence_def simp del: GetMaxResource.simps)

lemma fence_is_lowest:
  assumes "path \<noteq> []"
  shows "\<exists>pm' q. findPreemptionFenceRoot h path pm c r = (pm', q) \<and> on_path path q \<and>
    is_fence h q r \<and> map_of pm' q \<noteq> None \<and>
    (\<forall>q'. on_path path q' \<and> is_fence h q' r \<longrightarrow> suffix q' q)"
  using assms
proof (induction path arbitrary: pm c)
  case (Cons n p)
  let ?c = "case priorityPolicy (h (n # p)) of FencePriorityPolicy \<Rightarrow> priorityOffset (h (n # p))
    | DefaultPriorityPolicy \<Rightarrow> c + priorityOffset (h (n # p))"
  obtain pm1 where u: "findPreemptionFenceRoot h (n # p) pm c r =
      (if is_fence h (n # p) r then (AList.update (n # p) ?c pm, n # p)
       else findPreemptionFenceRoot h p pm1 ?c r)"
    using findPreemptionFenceRoot_unfold [of h n p pm c r] by blast
  show ?case
  proof (cases "is_fence h (n # p) r")
    case True
    then show ?thesis unfolding u by (auto simp: on_path_def update_conv')
  next
    case False
    then have "p \<noteq> []" by (auto simp: is_fence_def)
    from Cons.IH [OF this, of pm1 ?c] obtain pm' q where
      "findPreemptionFenceRoot h p pm1 ?c r = (pm', q)" "on_path p q" "is_fence h q r"
      "map_of pm' q \<noteq> None" "\<forall>q'. on_path p q' \<and> is_fence h q' r \<longrightarrow> suffix q' q" by blast
    with False show ?thesis unfolding u by (auto simp: on_path_Cons)
  qed
qed simp

lemma CheckAdminAccess_iff:
  "CheckAdminAccess h path u \<longleftrightarrow> (\<exists>q. on_path path q \<and> CheckAccess (adminACL (h q)) u)"
  by (induction path) (auto simp: Let_def on_path_Cons)

lemma CheckSubmitAccess_recovery:
  "IsRecoveryQueue (QueuePath path) \<Longrightarrow> \<not> CheckSubmitAccess h path u"
  by (cases path) simp_all

lemma CheckSubmitAccess_iff:
  assumes "\<forall>q. on_path path q \<longrightarrow> \<not> IsRecoveryQueue (QueuePath q)"
  shows "CheckSubmitAccess h path u \<longleftrightarrow>
    (\<exists>q. on_path path q \<and> (CheckAccess (submitACL (h q)) u \<or> CheckAccess (adminACL (h q)) u))"
  using assms by (induction path) (auto simp: Let_def on_path_Cons)

lemma tryAcquirePreemption_running:
  "isQuotaPreemptionRunning sq \<Longrightarrow> \<not> snd (tryAcquirePreemption now sq)"
  by (simp add: tryAcquirePreemption_def)

lemma tryAcquirePreemption_no_start:
  "quotaPreemptionStartTime sq = None \<Longrightarrow> \<not> snd (tryAcquirePreemption now sq)"
  by (simp add: tryAcquirePreemption_def)

lemma tryAcquirePreemption_success:
  assumes "tryAcquirePreemption now sq = (sq', True)"
  shows "isManaged sq"
    and "\<not> StrictlyGreaterThanOrEqualsOnlyExisting (maxResource sq) (allocatedResource sq)"
    and "\<exists>t. quotaPreemptionStartTime sq = Some t \<and> t \<le> now"
    and "sq' = sq\<lparr>isQuotaPreemptionRunning := True\<rparr>"
proof -
  show m: "isManaged sq"
    and n: "\<not> StrictlyGreaterThanOrEqualsOnlyExisting (maxResource sq) (allocatedResource sq)"
    using assms unfolding tryAcquirePreemption_def by (metis prod.inject)+
  have r: "\<not> isQuotaPreemptionRunning sq"
    using assms tryAcquirePreemption_running [of sq now] by auto
  obtain t where t: "quotaPreemptionStartTime sq = Some t"
    using assms tryAcquirePreemption_no_start [of sq now] by (cases "quotaPreemptionStartTime sq") auto
  have "(if now < t then (sq, False) else (sq\<lparr>isQuotaPreemptionRunning := True\<rparr>, True)) = (sq', True)"
    using assms m n r t by (simp add: tryAcquirePreemption_def)
  then have "\<not> now < t \<and> sq' = sq\<lparr>isQuotaPreemptionRunning := True\<rparr>"
    by (metis prod.inject)
  with t show "\<exists>t. quotaPreemptionStartTime sq = Some t \<and> t \<le> now"
    and "sq' = sq\<lparr>isQuotaPreemptionRunning := True\<rparr>" by auto
qed

section \<open>Properties\<close>

text \<open>
  C20. The limit on running applications holds in every queue of the hierarchy: when applications
  are admitted or started only if canRunApp allows it, the running applications and the accepted
  ones that already allocate never exceed the maximum of a queue, and a start counts exactly one
  more running application in every queue up to the root, so that the clamping never happens.
\<close>

theorem running_apps_limit:
  assumes "run_step\<^sup>*\<^sup>* h h'" "apps_within_max h"
  shows "apps_within_max h' \<and>
    (\<forall>path app q. canRunApp h' path app \<and> on_path path q \<and> maxRunningApps (h' q) > 0 \<longrightarrow>
       runningApps (incRunningApps h' path app q) = runningApps (h' q) + 1)"
proof -
  have "apps_within_max h'"
    using assms by (induction rule: rtranclp_induct) (simp_all add: apps_within_max_step)
  then show ?thesis
    by (auto simp: inc_running.walk_apply canRunApp_iff start_counts)
qed

theorem running_apps_limit_witness:
  "let h = (\<lambda>_. newBlankQueue\<lparr>maxRunningApps := 1\<rparr>);
       h' = incRunningApps h [''a'', ''root''] ''app-1''
   in apps_within_max h' \<and> \<not> canRunApp h' [''a'', ''root''] ''app-2''"
proof -
  let ?h = "\<lambda>_::qpath. newBlankQueue\<lparr>maxRunningApps := 1\<rparr>"
  have can: "canRunApp ?h [''a'', ''root''] ''app-1''"
    by (simp add: newBlankQueue_def add64_def)
  have "apps_within_max (incRunningApps ?h [''a'', ''root''] ''app-1'')"
    using running_apps_limit [of ?h "incRunningApps ?h [''a'', ''root''] ''app-1''"]
      run_step.start [OF can]
    by (auto simp: apps_within_max_def newBlankQueue_def simp del: incRunningApps.simps)
  moreover have "\<not> canRunApp (incRunningApps ?h [''a'', ''root''] ''app-1'') [''a'', ''root''] ''app-2''"
    by (simp add: newBlankQueue_def add64_def Let_def)
  ultimately show ?thesis by (simp only: Let_def simp_thms)
qed



text \<open>
  C23. Access is inherited down the hierarchy and nothing else gives access: a user may administer
  a queue exactly when the admin ACL of the queue or of an ancestor allows it, and may submit to
  it exactly when a submit or admin ACL on the path to the root does; the recovery queue never
  accepts a submission.
\<close>

theorem queue_access_inherited:
  "(CheckAdminAccess h path u \<longleftrightarrow> (\<exists>q. on_path path q \<and> CheckAccess (adminACL (h q)) u)) \<and>
   (IsRecoveryQueue (QueuePath path) \<longrightarrow> \<not> CheckSubmitAccess h path u) \<and>
   ((\<forall>q. on_path path q \<longrightarrow> \<not> IsRecoveryQueue (QueuePath q)) \<longrightarrow>
     (CheckSubmitAccess h path u \<longleftrightarrow>
       (\<exists>q. on_path path q \<and> (CheckAccess (submitACL (h q)) u \<or> CheckAccess (adminACL (h q)) u))))"
  by (simp add: CheckAdminAccess_iff CheckSubmitAccess_iff CheckSubmitAccess_recovery)

theorem queue_access_inherited_witness:
  "let h = (\<lambda>_. newBlankQueue)([''root''] := newBlankQueue\<lparr>adminACL := fst (NewACL ''*'')\<rparr>);
       u = \<lparr>User = ''bob'', Groups = []\<rparr>
   in CheckSubmitAccess h [''a'', ''root''] u \<and> \<not> CheckSubmitAccess h [''@recovery@'', ''root''] u"
proof -
  let ?h = "(\<lambda>_. newBlankQueue)([''root''] := newBlankQueue\<lparr>adminACL := fst (NewACL ''*'')\<rparr>)"
  let ?u = "\<lparr>User = ''bob'', Groups = []\<rparr>"
  have acl: "CheckAccess (fst (NewACL ''*'')) ?u" by code_simp
  have rec: "IsRecoveryQueue (QueuePath [''@recovery@'', ''root''])"
    "\<not> IsRecoveryQueue (QueuePath [''a'', ''root''])" "\<not> IsRecoveryQueue (QueuePath [''root''])"
    by code_simp+
  have "on_path [''a'', ''root''] [''root'']" by (simp add: on_path_Cons)
  moreover have "\<forall>q. on_path [''a'', ''root''] q \<longrightarrow> \<not> IsRecoveryQueue (QueuePath q)"
    using rec by (auto simp: on_path_Cons)
  moreover have "CheckAccess (adminACL (?h [''root''])) ?u" using acl by simp
  ultimately have "CheckSubmitAccess ?h [''a'', ''root''] ?u"
    using queue_access_inherited [of ?h "[''a'', ''root'']" ?u] by blast
  moreover have "\<not> CheckSubmitAccess ?h [''@recovery@'', ''root''] ?u"
    using queue_access_inherited [of ?h "[''@recovery@'', ''root'']" ?u] rec(1) by blast
  ultimately show ?thesis by (simp only: Let_def simp_thms)
qed

text \<open>
  The preemption fence is the lowest one: findPreemptionFenceRoot always returns a queue on
  the path of the asking queue that is the root, has a fence policy, or would go over its maximum
  with the request, no queue below it on that path is a fence, and the priority that was computed
  for it is recorded in the map.
\<close>

theorem preemption_fence_is_lowest:
  assumes "path \<noteq> []"
  shows "\<exists>pm' q. findPreemptionFenceRoot h path pm c r = (pm', q) \<and> on_path path q \<and>
    is_fence h q r \<and> map_of pm' q \<noteq> None \<and>
    (\<forall>q'. on_path path q' \<and> is_fence h q' r \<longrightarrow> suffix q' q)"
  using assms by (rule fence_is_lowest)

theorem preemption_fence_is_lowest_witness:
  "\<exists>pm'. findPreemptionFenceRoot
     (\<lambda>_. newBlankQueue\<lparr>preemptionPolicy := FencePreemptionPolicy\<rparr>) [''a'', ''root''] [] 0 (res1 2) =
     (pm', [''a'', ''root''])"
proof -
  let ?h = "\<lambda>_::qpath. newBlankQueue\<lparr>preemptionPolicy := FencePreemptionPolicy\<rparr>"
  have "is_fence ?h [''a'', ''root''] (res1 2)" by (simp add: is_fence_def)
  then show ?thesis
    using preemption_fence_is_lowest [of "[''a'', ''root'']" ?h "[]" 0 "res1 2"]
    by (auto simp: on_path_def suffix_Cons simp del: findPreemptionFenceRoot.simps)
qed

text \<open>
  C22. Quota preemption of a queue runs at most once at a time and only when it is due: a queue
  that acquired the preemption is managed, over its quota and past its start time; a second
  attempt fails while the first one runs, and after it is done no attempt succeeds until a new
  start time has been set.
\<close>

theorem quota_preemption_exclusive:
  assumes "tryAcquirePreemption now sq = (sq', True)"
  shows "isManaged sq \<and> (\<exists>t. quotaPreemptionStartTime sq = Some t \<and> t \<le> now) \<and>
    \<not> StrictlyGreaterThanOrEqualsOnlyExisting (maxResource sq) (allocatedResource sq) \<and>
    (\<forall>now'. \<not> snd (tryAcquirePreemption now' sq')) \<and>
    (\<forall>now'. \<not> snd (tryAcquirePreemption now' (setQuotaPreemptionState False sq')))"
  using tryAcquirePreemption_success [OF assms]
  by (auto simp: tryAcquirePreemption_running tryAcquirePreemption_no_start setQuotaPreemptionState_def)

theorem quota_preemption_exclusive_witness:
  "\<exists>sq sq'. sq = newBlankQueue\<lparr>isManaged := True, maxResource := res1 1, allocatedResource := res1 2,
         quotaPreemptionStartTime := Some 5\<rparr> \<and>
     tryAcquirePreemption 6 sq = (sq', True) \<and> \<not> snd (tryAcquirePreemption 7 sq')"
proof -
  define sq where "sq = newBlankQueue\<lparr>isManaged := True, maxResource := res1 1,
    allocatedResource := res1 2, quotaPreemptionStartTime := Some 5\<rparr>"
  have "\<not> StrictlyGreaterThanOrEqualsOnlyExisting (res1 1) (res1 2)"
    by (simp add: SGTOrEqualsOnlyExisting_iff res_has_res1 amount_res1)
  then have "tryAcquirePreemption 6 sq = (sq\<lparr>isQuotaPreemptionRunning := True\<rparr>, True)"
    by (simp add: tryAcquirePreemption_def sq_def newBlankQueue_def)
  with quota_preemption_exclusive [OF this] show ?thesis unfolding sq_def by blast
qed

section \<open>Deviations\<close>

lemma UpdateQueuePriority_keeps:
  "allocatingAcceptedApps (UpdateQueuePriority h p n v q) = allocatingAcceptedApps (h q)"
proof (induction p arbitrary: h n v)
  case (Cons m p)
  have "allocatingAcceptedApps (fst (updateQueuePriorityInternal sq n v)) = allocatingAcceptedApps sq" for sq
    by (simp add: updateQueuePriorityInternal_def recalculatePriority_def Let_def)
  with Cons show ?case
    by (cases "updateQueuePriorityInternal (h (m # p)) n v") (auto, metis fst_conv)
qed simp

lemma releaseApplication_keeps:
  assumes "path \<noteq> []"
  shows "allocatingAcceptedApps (releaseApplication h path app q) = allocatingAcceptedApps (h q)"
proof -
  have "allocatingAcceptedApps (decPendingResource h path r q) = allocatingAcceptedApps (h q)" for h r
    by (simp add: dec_pending.walk_apply decPendingQueue_def)
  moreover have "allocatingAcceptedApps (DecPreemptingResource h path r q) = allocatingAcceptedApps (h q)" for h r
    by (simp add: dec_preempting.walk_apply)
  moreover have "allocatingAcceptedApps (fst (DecAllocatedResource h path r) q) =
      allocatingAcceptedApps (h q)" for h r
    using dec_alloc.walk_success_apply [OF assms, of h r q]
      dec_alloc.walk_failure_changes_nothing [OF assms, of h r]
    by (cases "snd (DecAllocatedResource h path r) = None") simp_all
  ultimately show ?thesis by (simp add: releaseApplication_def Let_def)
qed

text \<open>A priority update of an application that the queue does not know reports the raw priority of
  the queue, without its offset or fence, to the parent, which stores it.\<close>

lemma unknown_application_corrupts_priority:
  "\<exists>h. priorities_ok h \<and> below_parents h [''a'', ''root''] \<and> isLeaf (h [''a'', ''root'']) \<and>
     \<not> priorities_ok (UpdateApplicationPriority h [''a'', ''root''] ''gone'' 5)"
proof -
  let ?h = "UpdateApplicationPriority exampleApps [''a'', ''root''] ''app-1'' 5"
  have "priorities_ok exampleApps"
    by (auto simp: priorities_ok_def priority_ok_def child_cache_ok_def exampleApps_def
        newBlankQueue_def maxPriorityOf_def getCurrentPriority_def priorityValueByPolicy_def)
  then have ok: "priorities_ok ?h"
    by (rule priorities_ok_step [rotated], intro priority_step.update_app)
      (auto simp: exampleApps_def newBlankQueue_def below_parents_def linked_def suffix_Cons on_path_Cons)
  have h: "?h = exampleApps([''a'', ''root''] := (exampleApps [''a'', ''root''])
        \<lparr>appPriorities := [(''app-1'', 5)], currentPriority := 5\<rparr>,
      [''root''] := (exampleApps [''root''])\<lparr>childPriorities := [(''a'', 15)], currentPriority := 15\<rparr>)"
    by (rule ext) (simp add: UpdateApplicationPriority_def updateApplicationPriorityInternal_def
        exampleApps_def newBlankQueue_def recalculatePriority_def Let_def maxPriorityOf_def
        updateQueuePriorityInternal_def priorityValueByPolicy_def MinPriority_def MaxPriority_def)
  have "below_parents ?h [''a'', ''root'']" "isLeaf (?h [''a'', ''root''])"
    unfolding h by (auto simp: exampleApps_def newBlankQueue_def below_parents_def linked_def
        suffix_Cons on_path_Cons)
  moreover have "\<not> child_cache_ok (UpdateApplicationPriority ?h [''a'', ''root''] ''gone'' 5) [''root''] ''a''"
    unfolding h by (simp add: UpdateApplicationPriority_def updateApplicationPriorityInternal_def
        exampleApps_def newBlankQueue_def recalculatePriority_def Let_def maxPriorityOf_def
        updateQueuePriorityInternal_def priorityValueByPolicy_def MinPriority_def MaxPriority_def
        child_cache_ok_def getCurrentPriority_def)
  ultimately show ?thesis using ok by (auto simp: priorities_ok_def)
qed

text \<open>Removing an accepted application that already allocates clears its entry in the leaf queue
  only: the parents still count it, and keep other applications from running.\<close>

lemma RemoveApplication_keeps_parent_counts:
  assumes "path \<noteq> []" "q \<noteq> path"
  shows "allocatingAcceptedApps (RemoveApplication h path app q) = allocatingAcceptedApps (h q)"
  using assms
  by (simp add: RemoveApplication_def Let_def UpdateQueuePriority_keeps releaseApplication_keeps
      split: prod.splits)

end
