(* ===== verification/Configs.thy ===== *)
theory Configs
  imports Acl "HOL-Library.Sublist"
begin

text \<open>
  The scheduler configuration (\<open>pkg/common/configs/config.go\<close>): the structures that the YAML
  decoder fills, the part of the serialised configuration that its checksum covers, and the check
  of queue names. Decoding the YAML and hashing are library calls and not part of the model.
\<close>

section \<open>Data\<close>

record confResources =
  confGuaranteed :: "string gomap"
  confMax :: "string gomap"

record childTemplate =
  ctMaxApplications :: nat
  ctProperties :: "string gomap"
  ctResources :: confResources

record limit =
  limitText :: string
  limitUsers :: "string list"
  limitGroups :: "string list"
  limitMaxResources :: "string gomap"
  limitMaxApplications :: nat

datatype queueConfig =
  QueueConfig (confName: string) (confParent: bool) (confResources: confResources)
    (confMaxApplications: nat) (confProperties: "string gomap") (confAdminACL: string)
    (confSubmitACL: string) (confChildTemplate: childTemplate) (confQueues: "queueConfig list")
    (confLimits: "limit list")

section \<open>Names\<close>

text \<open>\<open>^[a-zA-Z0-9_:#/@-]{1,64}$\<close>\<close>

definition QueueNameRegExp :: "string \<Rightarrow> bool" where
  "QueueNameRegExp s \<longleftrightarrow> 1 \<le> length s \<and> length s \<le> 64 \<and> list_all (in_class ''_:#/@-'') s"

definition IsQueueNameValid :: "string \<Rightarrow> bool" where
  "IsQueueNameValid queueName = QueueNameRegExp queueName"

section \<open>The checksum\<close>

definition checksumKey :: string where
  "checksumKey = ''checksum:''"

definition partitionsKey :: string where
  "partitionsKey = ''partitions:''"

definition checksumScanWindow :: nat where
  "checksumScanWindow = 80"

text \<open>\<open>bytes.Index\<close>: the position of the first occurrence.\<close>

fun Index :: "string \<Rightarrow> string \<Rightarrow> nat option" where
  "Index [] sep = (if sep = [] then Some 0 else None)"
| "Index (c # s) sep =
     (if prefix sep (c # s) then Some 0 else map_option Suc (Index s sep))"

definition GetConfigurationString :: "string \<Rightarrow> string" where
  "GetConfigurationString requestBytes =
     (let len = length requestBytes
      in if len = 0 then []
         else
           let tail = len - checksumScanWindow;
               checksumIdx =
                 (case Index (drop tail requestBytes) checksumKey of
                    Some i \<Rightarrow> Some (i + tail)
                  | None \<Rightarrow> Index (take (min checksumScanWindow len) requestBytes) checksumKey)
           in case checksumIdx of
                None \<Rightarrow> requestBytes
              | Some checksumIdx \<Rightarrow>
                  (case Index requestBytes partitionsKey of
                     None \<Rightarrow> []
                   | Some partitionsIdx \<Rightarrow>
                       if checksumIdx < partitionsIdx then drop partitionsIdx requestBytes
                       else take checksumIdx requestBytes))"

section \<open>Lemmas\<close>

lemma Index_Some: "Index s sep = Some i \<Longrightarrow> i \<le> length s \<and> prefix sep (drop i s)"
  by (induction s arbitrary: i) (auto split: if_splits)

lemma Index_None_iff: "Index s sep = None \<longleftrightarrow> \<not> sublist sep s"
  by (induction s) (auto simp: sublist_Cons_right)

lemma Index_least: "Index s sep = Some i \<Longrightarrow> j < i \<Longrightarrow> \<not> prefix sep (drop j s)"
proof (induction s arbitrary: i j)
  case (Cons c s)
  then show ?case by (cases j) (auto split: if_splits)
qed (auto split: if_splits)

lemma Index_eqI:
  assumes "prefix sep (drop i s)" "\<And>j. j < i \<Longrightarrow> \<not> prefix sep (drop j s)"
  shows "Index s sep = Some i"
proof -
  have "sublist sep s"
    using assms(1) prefix_imp_sublist sublist_drop sublist_order.order_trans by blast
  then obtain k where k: "Index s sep = Some k" using Index_None_iff by fastforce
  have "\<not> k < i" using assms(2) Index_Some [OF k] by blast
  moreover have "\<not> i < k" using assms(1) Index_least [OF k] by blast
  ultimately show ?thesis using k by simp
qed

lemma prefix_nth: "prefix k s \<Longrightarrow> i < length k \<Longrightarrow> s ! i = k ! i"
  by (auto simp: prefix_def nth_append)

text \<open>A key that ends with its only colon does not overlap with a later copy of itself.\<close>

lemma key_no_overlap:
  assumes key: "key = k @ [CHR '':'']" "CHR '':'' \<notin> set k" and a: "\<not> sublist key a" "j < length a"
  shows "\<not> prefix key (drop j (a @ key @ b))"
proof
  assume p: "prefix key (drop j (a @ key @ b))"
  show False
  proof (cases "j + length key \<le> length a")
    case True
    then have "prefix key (drop j a)"
      using p a(2) by (auto intro: prefix_length_prefix [of _ "drop j a @ key @ b"])
    then show False using a(1) prefix_imp_sublist sublist_drop sublist_order.order_trans by blast
  next
    case False
    define e where e: "e = j + length k"
    have "drop j (a @ key @ b) ! length k = key ! length k"
      using prefix_nth [OF p, of "length k"] key(1) by simp
    moreover have "drop j (a @ key @ b) ! length k = (a @ key @ b) ! e"
      using a(2) unfolding e by (intro nth_drop) simp
    ultimately have "(a @ key @ b) ! e = CHR '':''" by (simp add: key(1))
    moreover have "(a @ key @ b) ! e = k ! (e - length a)"
      using False a(2) by (auto simp: e key(1) nth_append)
    moreover have "e - length a < length k" using a(2) False by (auto simp: e key(1))
    ultimately show False using key(2) nth_mem by metis
  qed
qed

lemma Index_key:
  assumes "key = k @ [CHR '':'']" "CHR '':'' \<notin> set k" "\<not> sublist key a"
  shows "Index (a @ key @ b) key = Some (length a)"
  by (rule Index_eqI) (use key_no_overlap [OF assms] in auto)

lemma Index_Some_split: "Index s sep = Some i \<Longrightarrow> \<exists>u. s = take i s @ sep @ u"
  using Index_Some by (metis append_take_drop_id prefix_def)

lemma checksum_key: "checksumKey = ''checksum'' @ [CHR '':'']" "CHR '':'' \<notin> set ''checksum''"
  "length checksumKey = 9"
  by (simp_all add: checksumKey_def)

lemma partitions_key: "partitionsKey = ''partitions'' @ [CHR '':'']" "CHR '':'' \<notin> set ''partitions''"
  by (simp_all add: partitionsKey_def)

lemma GetConfigurationString_no_checksum:
  "\<not> sublist checksumKey body \<Longrightarrow> GetConfigurationString body = body"
proof -
  assume a: "\<not> sublist checksumKey body"
  have "Index (drop n body) checksumKey = None" "Index (take n body) checksumKey = None" for n
    using a Index_None_iff sublist_drop sublist_take sublist_order.order_trans by blast+
  then show ?thesis by (simp add: GetConfigurationString_def Let_def)
qed

lemma checksum_after:
  assumes "\<not> sublist checksumKey body" "sublist partitionsKey body"
    "length (checksumKey @ rest) \<le> checksumScanWindow"
  shows "GetConfigurationString (body @ checksumKey @ rest) = body"
proof -
  define s where s: "s = body @ checksumKey @ rest"
  define tail where t: "tail = length s - checksumScanWindow"
  have tl: "tail \<le> length body" using assms(3) by (simp add: s t)
  have "Index (drop tail s) checksumKey = Some (length (drop tail body))"
  proof -
    have "drop tail s = drop tail body @ checksumKey @ rest" using tl by (simp add: s)
    moreover have "\<not> sublist checksumKey (drop tail body)"
      using assms(1) sublist_drop sublist_order.order_trans by blast
    ultimately show ?thesis using Index_key [OF checksum_key(1,2)] by simp
  qed
  moreover obtain i where "Index s partitionsKey = Some i" "i < length body"
  proof -
    obtain u v where uv: "body = u @ partitionsKey @ v" using assms(2) by (auto simp: sublist_def)
    have "prefix partitionsKey (drop (length u) s)" by (simp add: s uv)
    then obtain i where i: "Index s partitionsKey = Some i"
      using Index_None_iff prefix_imp_sublist sublist_drop sublist_order.order_trans
      by (metis option.exhaust)
    moreover have "\<not> length u < i" using Index_least [OF i] \<open>prefix partitionsKey (drop (length u) s)\<close> by blast
    ultimately show ?thesis using that uv by (simp add: partitionsKey_def)
  qed
  moreover have "s \<noteq> []" by (simp add: s checksum_key(1))
  ultimately show ?thesis
    using tl unfolding s [symmetric] GetConfigurationString_def Let_def t [symmetric]
    by (simp add: s)
qed

lemma checksum_before:
  assumes "\<not> sublist checksumKey body" "prefix partitionsKey body"
    "\<not> sublist partitionsKey (checksumKey @ rest)"
  shows "GetConfigurationString (checksumKey @ rest @ body) = body"
proof -
  define pre where pre: "pre = checksumKey @ rest"
  define s where s: "s = pre @ body"
  obtain b where b: "body = partitionsKey @ b" using assms(2) by (auto simp: prefix_def)
  have parts: "Index s partitionsKey = Some (length pre)"
    unfolding s b by (rule Index_key [OF partitions_key]) (use assms(3) in \<open>simp add: pre\<close>)
  have len: "9 \<le> length s" "s \<noteq> []" by (simp_all add: s pre checksumKey_def)
  have early: "i + tail < length pre" if "Index (drop tail s) checksumKey = Some i" for i tail
  proof (rule ccontr)
    assume "\<not> i + tail < length pre"
    then have "drop i (drop tail s) = drop (i + tail - length pre) body" by (simp add: s del: drop_append) simp
    then have "prefix checksumKey (drop (i + tail - length pre) body)"
      using Index_Some [OF that] by simp
    then show False using assms(1) prefix_imp_sublist sublist_drop sublist_order.order_trans by blast
  qed
  have first: "Index (take (min checksumScanWindow (length s)) s) checksumKey = Some 0"
  proof -
    have "take (min checksumScanWindow (length s)) s =
        checksumKey @ take (min checksumScanWindow (length s) - 9) (rest @ body)"
      using len by (simp add: s pre checksum_key(3) checksumScanWindow_def min_def)
    then show ?thesis by (intro Index_eqI) simp_all
  qed
  have "GetConfigurationString s = drop (length pre) s"
    using len parts first early [of "length s - checksumScanWindow"]
    by (auto simp: GetConfigurationString_def Let_def pre checksum_key(3) split: option.splits)
  then show ?thesis by (simp add: s pre)
qed

section \<open>Properties\<close>

text \<open>
  The checksum of a configuration does not depend on a checksum stored with it: for a
  configuration that holds the partitions key and no checksum, the bytes that are hashed are the
  configuration itself, without a checksum, with a checksum line of at most the scanned size after
  it, and with a checksum line before it when the configuration starts with the partitions key.
\<close>

theorem checksum_ignores_stored_checksum:
  assumes "\<not> sublist checksumKey body" "sublist partitionsKey body"
  shows "GetConfigurationString body = body \<and>
    (length (checksumKey @ rest) \<le> checksumScanWindow \<longrightarrow>
       GetConfigurationString (body @ checksumKey @ rest) = body) \<and>
    (prefix partitionsKey body \<and> \<not> sublist partitionsKey (checksumKey @ rest) \<longrightarrow>
       GetConfigurationString (checksumKey @ rest @ body) = body)"
  using assms GetConfigurationString_no_checksum checksum_after checksum_before by blast

theorem checksum_ignores_stored_checksum_witness:
  "GetConfigurationString ''partitions: []'' = ''partitions: []'' \<and>
   GetConfigurationString (''partitions: []'' @ checksumKey @ ''A1'') = ''partitions: []'' \<and>
   GetConfigurationString (checksumKey @ ''A1'' @ ''partitions: []'') = ''partitions: []''"
  using checksum_ignores_stored_checksum [of "''partitions: []''" "''A1''"]
  by (simp add: checksumKey_def partitionsKey_def checksumScanWindow_def sublist_Cons_right)

end
