(* ===== verification/GoTime.thy ===== *)
theory GoTime
  imports GoStrings
begin

text \<open>
  Durations of Go's \<open>time\<close> package: \<open>time.Duration\<close> is a signed number of nanoseconds, read by
  \<open>time.ParseDuration\<close>. The value of a fraction is rounded down to the nanosecond; the library
  computes it in floating point, which gives the same value for the short fractions used in a
  configuration.
\<close>

section \<open>Parsing\<close>

definition unitMap :: "(string \<times> nat) list" where
  "unitMap =
     [(''ns'', 1), (''us'', 10 ^ 3), ([char_of (0xC2::nat), char_of (0xB5::nat), CHR ''s''], 10 ^ 3),
      ([char_of (0xCE::nat), char_of (0xBC::nat), CHR ''s''], 10 ^ 3), (''ms'', 10 ^ 6),
      (''s'', 10 ^ 9), (''m'', 60 * 10 ^ 9), (''h'', 3600 * 10 ^ 9)]"

definition leadingInt :: "string \<Rightarrow> (nat \<times> string) option" where
  "leadingInt s =
     (let x = digits_val (takeWhile is_digit s)
      in if x > 2 ^ 63 then None else Some (x, dropWhile is_digit s))"

text \<open>Digits that would overflow are dropped together with all digits after them.\<close>

fun leadingFraction :: "nat \<Rightarrow> nat \<Rightarrow> bool \<Rightarrow> string \<Rightarrow> nat \<times> nat \<times> string" where
  "leadingFraction x scale overflow [] = (x, scale, [])"
| "leadingFraction x scale overflow (c # s) =
     (if \<not> is_digit c then (x, scale, c # s)
      else if overflow \<or> x > (2 ^ 63 - 1) div 10 then leadingFraction x scale True s
      else let y = x * 10 + (of_char c - 48)
           in if y > 2 ^ 63 then leadingFraction x scale True s
              else leadingFraction y (scale * 10) False s)"

definition unit_char :: "char \<Rightarrow> bool" where
  "unit_char c \<longleftrightarrow> c \<noteq> CHR ''.'' \<and> \<not> is_digit c"

text \<open>An optional fraction: the digits and their scale, the rest, and whether there are digits.\<close>

definition fraction_part :: "string \<Rightarrow> nat \<times> nat \<times> string \<times> bool" where
  "fraction_part s =
     (if s \<noteq> [] \<and> hd s = CHR ''.''
      then case leadingFraction 0 1 False (tl s) of
             (f, scale, s2) \<Rightarrow> (f, scale, s2, length (tl s) \<noteq> length s2)
      else (0, 1, s, False))"

text \<open>One number with its unit: the nanoseconds and the rest of the string.\<close>

definition duration_part :: "string \<Rightarrow> (nat \<times> string) option" where
  "duration_part s =
     (if s = [] \<or> unit_char (hd s) then None
      else case leadingInt s of
        None \<Rightarrow> None
      | Some (v, s1) \<Rightarrow>
          case fraction_part s1 of
            (f, scale, s2, post) \<Rightarrow>
              let u = takeWhile unit_char s2
              in if length s = length s1 \<and> \<not> post then None
                 else if u = [] then None
                 else case map_of unitMap u of
                    None \<Rightarrow> None
                  | Some unit \<Rightarrow>
                      if v > 2 ^ 63 div unit then None
                      else let v = v * unit + f * unit div scale
                           in if f > 0 \<and> v > 2 ^ 63 then None
                              else Some (v, dropWhile unit_char s2))"

lemma leadingFraction_length: "length (snd (snd (leadingFraction x scale ov s))) \<le> length s"
  by (induction x scale ov s rule: leadingFraction.induct) (auto simp: Let_def le_SucI)

lemma fraction_part_length: "fraction_part s = (f, scale, s2, post) \<Longrightarrow> length s2 \<le> length s"
  using leadingFraction_length [of 0 1 False "tl s"]
  by (cases s) (auto simp: fraction_part_def split: if_splits prod.splits)

lemma duration_part_length:
  assumes "duration_part s = Some (v, s')"
  shows "length s' < length s"
proof -
  obtain x s1 where i: "leadingInt s = Some (x, s1)"
    using assms by (auto simp: duration_part_def split: if_splits option.splits)
  obtain f sc s2 post where fr: "fraction_part s1 = (f, sc, s2, post)" by (metis prod_cases4)
  have u: "s' = dropWhile unit_char s2" "takeWhile unit_char s2 \<noteq> []"
    using assms i fr by (auto simp: duration_part_def Let_def split: if_splits option.splits)
  have "length s1 \<le> length s"
    using i by (auto simp: leadingInt_def Let_def length_dropWhile_le split: if_splits)
  moreover have "length s2 = length (takeWhile unit_char s2) + length s'"
    unfolding u(1) by (metis length_append takeWhile_dropWhile_id)
  ultimately show ?thesis using fraction_part_length [OF fr] u(2) by (cases "takeWhile unit_char s2") auto
qed

function parseDuration_loop :: "nat \<Rightarrow> string \<Rightarrow> nat option" where
  "parseDuration_loop d s =
     (if s = [] then Some d
      else case duration_part s of
             None \<Rightarrow> None
           | Some (v, s') \<Rightarrow> if d + v > 2 ^ 63 then None else parseDuration_loop (d + v) s')"
  by pat_completeness auto

termination parseDuration_loop
  by (relation "measure (length \<circ> snd)") (auto dest: duration_part_length)

declare parseDuration_loop.simps [simp del]

definition ParseDuration :: "string \<Rightarrow> int option" where
  "ParseDuration orig =
     (let (neg, s) =
        (case orig of
           [] \<Rightarrow> (False, [])
         | c # cs \<Rightarrow> if c = CHR ''-'' then (True, cs) else if c = CHR ''+'' then (False, cs)
                   else (False, orig))
      in if s = ''0'' then Some 0
         else if s = [] then None
         else case parseDuration_loop 0 s of
                None \<Rightarrow> None
              | Some d \<Rightarrow> if neg then Some (- int d)
                          else if d > 2 ^ 63 - 1 then None else Some (int d))"

section \<open>Lemmas\<close>

lemma ParseDuration_range:
  "ParseDuration s = Some d \<Longrightarrow> - (2 ^ 63) \<le> d \<and> d \<le> 2 ^ 63 - 1"
proof -
  have loop: "parseDuration_loop d s = Some r \<Longrightarrow> d \<le> 2 ^ 63 \<Longrightarrow> r \<le> 2 ^ 63" for d s r
    by (induction d s rule: parseDuration_loop.induct)
      (subst (asm) (2) parseDuration_loop.simps, auto split: if_splits option.splits)
  assume "ParseDuration s = Some d"
  then show ?thesis
    by (auto simp: ParseDuration_def Let_def split: if_splits option.splits list.splits
        dest!: loop [where d = 0, simplified])
qed

end
