(* ===== verification/QueueConf.thy ===== *)
theory QueueConf
  imports QueueApps Configs GoTime "HOL-Library.Multiset"
begin

text \<open>
  Queues from the configuration (\<open>pkg/scheduler/objects/queue.go\<close>, the policies of
  \<open>pkg/scheduler/policies\<close> and \<open>pkg/scheduler/objects/template/template.go\<close>): how a queue takes
  its limits, access lists, template and properties from the configuration, how properties are
  inherited from the parent, and how configured, dynamic and recovery queues are created. A Go map
  is ranged over in the order of its association list; \<open>property_order_irrelevant\<close> shows that the
  order does not matter. The parameter \<open>cpu\<close> is the name of the vcore resource of the scheduler
  interface, \<open>now\<close> is \<open>time.Now()\<close>.
\<close>

section \<open>Policies\<close>

definition SortPolicy_String :: "SortPolicy \<Rightarrow> string" where
  "SortPolicy_String s =
     (case s of FifoSortPolicy \<Rightarrow> ''fifo'' | FairSortPolicy \<Rightarrow> ''fair''
      | DeprecatedStateAwarePolicy \<Rightarrow> ''stateaware'' | UndefinedSortPolicy \<Rightarrow> ''undefined'')"

datatype property_error = InvalidProperty string

definition SortPolicyFromString :: "string \<Rightarrow> SortPolicy \<times> property_error option" where
  "SortPolicyFromString str =
     (if str = SortPolicy_String FifoSortPolicy \<or> str = [] then (FifoSortPolicy, None)
      else if str = SortPolicy_String FairSortPolicy then (FairSortPolicy, None)
      else if str = SortPolicy_String DeprecatedStateAwarePolicy then (FifoSortPolicy, None)
      else (UndefinedSortPolicy, Some (InvalidProperty str)))"

definition PriorityPolicy_String :: "PriorityPolicy \<Rightarrow> string" where
  "PriorityPolicy_String p =
     (case p of DefaultPriorityPolicy \<Rightarrow> ''default'' | FencePriorityPolicy \<Rightarrow> ''fence'')"

definition PriorityPolicyFromString :: "string \<Rightarrow> PriorityPolicy \<times> property_error option" where
  "PriorityPolicyFromString str =
     (let s = ToLower str
      in if s = PriorityPolicy_String DefaultPriorityPolicy \<or> s = [] then (DefaultPriorityPolicy, None)
         else if s = PriorityPolicy_String FencePriorityPolicy then (FencePriorityPolicy, None)
         else (DefaultPriorityPolicy, Some (InvalidProperty str)))"

definition PreemptionPolicy_String :: "PreemptionPolicy \<Rightarrow> string" where
  "PreemptionPolicy_String p =
     (case p of DefaultPreemptionPolicy \<Rightarrow> ''default'' | FencePreemptionPolicy \<Rightarrow> ''fence''
      | DisabledPreemptionPolicy \<Rightarrow> ''disabled'')"

definition PreemptionPolicyFromString :: "string \<Rightarrow> PreemptionPolicy \<times> property_error option" where
  "PreemptionPolicyFromString str =
     (let s = ToLower str
      in if s = PreemptionPolicy_String DefaultPreemptionPolicy \<or> s = []
         then (DefaultPreemptionPolicy, None)
         else if s = PriorityPolicy_String FencePriorityPolicy then (FencePreemptionPolicy, None)
         else if s = PreemptionPolicy_String DisabledPreemptionPolicy
         then (DisabledPreemptionPolicy, None)
         else (DefaultPreemptionPolicy, Some (InvalidProperty str)))"

section \<open>Templates\<close>

definition isMapEmpty :: "string gomap \<Rightarrow> bool" where
  "isMapEmpty m \<longleftrightarrow> \<not> list_ex (\<lambda>(k, v). k \<noteq> [] \<and> v \<noteq> []) m"

definition isChildTemplateEmpty :: "childTemplate \<Rightarrow> bool" where
  "isChildTemplateEmpty t \<longleftrightarrow>
     ctMaxApplications t = 0 \<and> isMapEmpty (ctProperties t) \<and>
     isMapEmpty (confGuaranteed (ctResources t)) \<and> isMapEmpty (confMax (ctResources t))"

definition newTemplate ::
    "nat \<Rightarrow> string gomap \<Rightarrow> resource option \<Rightarrow> resource option \<Rightarrow> template" where
  "newTemplate maxApplications props maxRes guaranteedRes =
     \<lparr>tmplMaxApplications = maxApplications,
      tmplProperties = filter (\<lambda>(k, v). k \<noteq> [] \<and> v \<noteq> []) props,
      tmplMaxResource = (if StrictlyGreaterThanZero maxRes then Clone maxRes else None),
      tmplGuaranteedResource =
        (if StrictlyGreaterThanZero guaranteedRes then Clone guaranteedRes else None)\<rparr>"

definition FromConf :: "string \<Rightarrow> childTemplate \<Rightarrow> parse_error + template option" where
  "FromConf cpu t =
     (if isChildTemplateEmpty t then Inr None
      else case NewResourceFromConf cpu (confMax (ctResources t)) of
             Inl err \<Rightarrow> Inl err
           | Inr maxRes \<Rightarrow>
               (case NewResourceFromConf cpu (confGuaranteed (ctResources t)) of
                  Inl err \<Rightarrow> Inl err
                | Inr guaranteedRes \<Rightarrow>
                    Inr (Some (newTemplate (ctMaxApplications t) (ctProperties t)
                                 (Some maxRes) (Some guaranteedRes)))))"

section \<open>Property values\<close>

definition DefaultQuotaPreemptionDelay :: int where
  "DefaultQuotaPreemptionDelay = 0"

definition convertDelay :: "string \<Rightarrow> int \<Rightarrow> int \<times> property_error option" where
  "convertDelay value def =
     (case ParseDuration value of
        None \<Rightarrow> (def, Some (InvalidProperty value))
      | Some result \<Rightarrow>
          if result \<le> 0 then (def, Some (InvalidProperty value)) else (result, None))"

definition parsePriorityOffset :: "string \<Rightarrow> int \<times> property_error option" where
  "parsePriorityOffset value =
     (case ParseIntBits 32 value of
        None \<Rightarrow> (0, Some (InvalidProperty value))
      | Some v \<Rightarrow> (v, None))"

definition applicationSortPriorityEnabled :: "string \<Rightarrow> bool \<times> property_error option" where
  "applicationSortPriorityEnabled value =
     (let s = ToLower value
      in if s = ''enabled'' then (True, None)
         else if s = ''disabled'' then (False, None)
         else (True, Some (InvalidProperty value)))"

definition unschedulableAskBackoff :: "string \<Rightarrow> nat \<times> property_error option" where
  "unschedulableAskBackoff value =
     (case ParseUint value of None \<Rightarrow> (0, Some (InvalidProperty value)) | Some v \<Rightarrow> (v, None))"

section \<open>Properties of a queue\<close>

definition filterParentProperty :: "string \<Rightarrow> string \<Rightarrow> string" where
  "filterParentProperty key value =
     (if key = ''priority.policy'' then PriorityPolicy_String DefaultPriorityPolicy
      else if key = ''priority.offset'' then ''0''
      else if key = ''preemption.policy''
      then case PreemptionPolicyFromString value of
             (pol, err) \<Rightarrow>
               if err \<noteq> None \<or> pol \<noteq> DisabledPreemptionPolicy
               then PreemptionPolicy_String DefaultPreemptionPolicy else value
      else value)"

definition mergeProperties :: "queue \<Rightarrow> string gomap \<Rightarrow> queue" where
  "mergeProperties sq parent =
     sq\<lparr>properties :=
          fold (\<lambda>(key, value) m. AList.update key value m) (properties sq)
            (map (\<lambda>(key, value). (key, filterParentProperty key value)) parent)\<rparr>"

definition resetProperties :: "queue \<Rightarrow> queue" where
  "resetProperties sq =
     sq\<lparr>sortType := (if isLeaf sq then FifoSortPolicy else FairSortPolicy),
        prioritySortEnabled := True, priorityOffset := 0, priorityPolicy := DefaultPriorityPolicy,
        preemptionPolicy := DefaultPreemptionPolicy, preemptionDelay := DefaultPreemptionDelay,
        unschedAskBackoff := 0, askBackoffDelay := DefaultAskBackOffDelay,
        quotaPreemptionDelay := DefaultQuotaPreemptionDelay\<rparr>"

text \<open>The body of the loop over the properties; errors are only logged.\<close>

definition updateProperty :: "string \<times> string \<Rightarrow> queue \<Rightarrow> queue" where
  "updateProperty kv sq =
     (case kv of
        (key, value) \<Rightarrow>
          if key = ''application.sort.policy''
          then if isLeaf sq
               then let s = fst (SortPolicyFromString value)
                    in sq\<lparr>sortType := (if s = UndefinedSortPolicy then FifoSortPolicy else s)\<rparr>
               else sq
          else if key = ''application.sort.priority''
          then sq\<lparr>prioritySortEnabled := fst (applicationSortPriorityEnabled value)\<rparr>
          else if key = ''priority.offset'' then sq\<lparr>priorityOffset := fst (parsePriorityOffset value)\<rparr>
          else if key = ''priority.policy''
          then sq\<lparr>priorityPolicy := fst (PriorityPolicyFromString value)\<rparr>
          else if key = ''preemption.policy''
          then sq\<lparr>preemptionPolicy := fst (PreemptionPolicyFromString value)\<rparr>
          else if key = ''preemption.delay''
          then if isLeaf sq
               then sq\<lparr>preemptionDelay := fst (convertDelay value DefaultPreemptionDelay)\<rparr> else sq
          else if key = ''application.unschedasks.backoff''
          then sq\<lparr>unschedAskBackoff := fst (unschedulableAskBackoff value)\<rparr>
          else if key = ''application.unschedasks.backoff.delay''
          then sq\<lparr>askBackoffDelay := fst (convertDelay value DefaultAskBackOffDelay)\<rparr>
          else if key = ''quota.preemption.delay''
          then sq\<lparr>quotaPreemptionDelay := fst (convertDelay value DefaultQuotaPreemptionDelay)\<rparr>
          else sq)"

definition UpdateQueueProperties :: "int \<Rightarrow> qpath \<Rightarrow> queue \<Rightarrow> resource option \<Rightarrow> queue" where
  "UpdateQueueProperties now path sq oldMaxResource =
     (if IsRecoveryQueue (QueuePath path) then sq\<lparr>sortType := FifoSortPolicy\<rparr>
      else
        let oldDelay = quotaPreemptionDelay sq;
            sq = resetProperties sq;
            sq = fold updateProperty (properties sq) sq
        in setPreemptionTime now sq oldMaxResource oldDelay)"

section \<open>Applying the configuration\<close>

datatype conf_error = ConfACL acl_error | ConfResource parse_error | ConfChild child_error
  | InvalidQueueName | ReservedQueueName | NilParent | NotRootParent

definition setTemplate :: "string \<Rightarrow> queue \<Rightarrow> childTemplate \<Rightarrow> queue \<times> conf_error option" where
  "setTemplate cpu sq conf =
     (case FromConf cpu conf of
        Inl err \<Rightarrow> (sq, Some (ConfResource err))
      | Inr t \<Rightarrow> (sq\<lparr>queueTemplate := t\<rparr>, None))"

definition setResourcesFromConf ::
    "string \<Rightarrow> queue \<Rightarrow> confResources \<Rightarrow> queue \<times> conf_error option" where
  "setResourcesFromConf cpu sq res =
     (case NewResourceFromConf cpu (confMax res) of
        Inl err \<Rightarrow> (sq, Some (ConfResource err))
      | Inr maxRes \<Rightarrow>
          (case NewResourceFromConf cpu (confGuaranteed res) of
             Inl err \<Rightarrow> (sq, Some (ConfResource err))
           | Inr guaranteedRes \<Rightarrow> (setResources sq (Some guaranteedRes) (Some maxRes), None)))"

text \<open>The middle part of \<open>applyConf\<close>: a dynamic queue becomes managed, a queue that is marked for
  removal is started again, and the queue is a leaf unless the configuration says otherwise.\<close>

definition manageQueue ::
    "(ObjectState, ObjectEvent) fsm_event \<Rightarrow> queueConfig \<Rightarrow> queue \<Rightarrow> queue" where
  "manageQueue fsm conf sq =
     (let sq = (if \<not> isManaged sq then sq\<lparr>isManaged := True\<rparr> else sq);
          sq = (if stateMachine sq \<noteq> Active
                then sq\<lparr>stateMachine := fst (handleQueueEvent fsm (stateMachine sq) Start)\<rparr> else sq);
          sq = sq\<lparr>isLeaf := \<not> confParent conf\<rparr>
      in if confQueues conf \<noteq> [] then sq\<lparr>isLeaf := False\<rparr> else sq)"

text \<open>The result is the old maximum resource or the error; the queue is returned in both cases, as a
  failed call leaves the fields changed that were set before the failure.\<close>

definition applyConf ::
    "string \<Rightarrow> (ObjectState, ObjectEvent) fsm_event \<Rightarrow> string \<Rightarrow> queueConfig \<Rightarrow> queue \<Rightarrow>
     queue \<times> (conf_error + resource option)" where
  "applyConf cpu fsm name conf sq =
     (case NewACL (confSubmitACL conf) of
        (submit, err) \<Rightarrow>
          let sq = sq\<lparr>submitACL := submit\<rparr>
          in case err of
               Some err \<Rightarrow> (sq, Inl (ConfACL err))
             | None \<Rightarrow>
          (case NewACL (confAdminACL conf) of
             (admin, err) \<Rightarrow>
               let sq = sq\<lparr>adminACL := admin\<rparr>
               in case err of
                    Some err \<Rightarrow> (sq, Inl (ConfACL err))
                  | None \<Rightarrow>
               let sq = manageQueue fsm conf sq
               in case (if isLeaf sq then (sq, None)
                        else setTemplate cpu sq (confChildTemplate conf)) of
                    (sq, Some err) \<Rightarrow> (sq, Inl err)
                  | (sq, None) \<Rightarrow>
                      let oldMaxResource = maxResource sq
                      in case (if name \<noteq> ''root''
                               then setResourcesFromConf cpu sq (confResources conf)
                               else (sq, None)) of
                           (sq, Some err) \<Rightarrow> (sq, Inl err)
                         | (sq, None) \<Rightarrow>
                             let sq = (if name \<noteq> ''root''
                                       then sq\<lparr>maxRunningApps := confMaxApplications conf\<rparr> else sq)
                             in (sq\<lparr>properties := confProperties conf\<rparr>, Inr oldMaxResource)))"

section \<open>Creating queues\<close>

text \<open>A parent \<open>[]\<close> is the nil pointer. The result is the path of the new queue or an error.\<close>

definition NewConfiguredQueue ::
    "string \<Rightarrow> (ObjectState, ObjectEvent) fsm_event \<Rightarrow> int \<Rightarrow> queueConfig \<Rightarrow> qheap \<Rightarrow> qpath \<Rightarrow>
     qheap \<times> (conf_error + qpath)" where
  "NewConfiguredQueue cpu fsm now conf h parent =
     (let name = ToLower (confName conf);
          sq = newBlankQueue\<lparr>isManaged := True, maxRunningApps := confMaxApplications conf\<rparr>
      in case applyConf cpu fsm name conf sq of
           (sq, Inl err) \<Rightarrow> (h, Inl err)
         | (sq, Inr oldMax) \<Rightarrow>
             if parent \<noteq> []
             then
               let sq = mergeProperties sq (properties (h parent));
                   sq = UpdateQueueProperties now (name # parent) sq None
               in case addChildQueue h parent name sq of
                    (h, Some err) \<Rightarrow> (h, Inl (ConfChild err))
                  | (h, None) \<Rightarrow> (h, Inr (name # parent))
             else
               (h([name] := UpdateQueueProperties now [name] sq None), Inr [name]))"

definition newDynamicQueueInternal ::
    "int \<Rightarrow> string \<Rightarrow> bool \<Rightarrow> qheap \<Rightarrow> qpath \<Rightarrow> qheap \<times> (conf_error + qpath)" where
  "newDynamicQueueInternal now name leaf h parent =
     (let name = ToLower name;
          sq = newBlankQueue\<lparr>isManaged := False, isLeaf := leaf\<rparr>
      in case addChildQueue h parent name sq of
           (h, Some err) \<Rightarrow> (h, Inl (ConfChild err))
         | (h, None) \<Rightarrow>
             (h(name # parent := UpdateQueueProperties now (name # parent) (h (name # parent)) None),
              Inr (name # parent)))"

definition NewDynamicQueue ::
    "int \<Rightarrow> string \<Rightarrow> bool \<Rightarrow> qheap \<Rightarrow> qpath \<Rightarrow> qheap \<times> (conf_error + qpath)" where
  "NewDynamicQueue now name leaf h parent =
     (if parent = [] then (h, Inl NilParent)
      else if \<not> IsQueueNameValid name then (h, Inl InvalidQueueName)
      else if name = ''@recovery@'' then (h, Inl ReservedQueueName)
      else newDynamicQueueInternal now name leaf h parent)"

definition NewRecoveryQueue :: "int \<Rightarrow> qheap \<Rightarrow> qpath \<Rightarrow> qheap \<times> (conf_error + qpath)" where
  "NewRecoveryQueue now h parent =
     (if parent = [] then (h, Inl NilParent)
      else if QueuePath parent \<noteq> ''root'' then (h, Inl NotRootParent)
      else case newDynamicQueueInternal now ''@recovery@'' True h parent of
             (h, Inl err) \<Rightarrow> (h, Inl err)
           | (h, Inr q) \<Rightarrow>
               (h(q := (h q)\<lparr>submitACL := emptyACL, sortType := FifoSortPolicy\<rparr>), Inr q))"

text \<open>A configured leaf queue with the given maximum, and a root queue with properties.\<close>

definition exampleConf :: "string \<Rightarrow> queueConfig" where
  "exampleConf maxCpu =
     QueueConfig ''A'' False \<lparr>confGuaranteed = [], confMax = [(''vcore'', maxCpu)]\<rparr> 5
       [(''quota.preemption.delay'', ''1h'')] [] []
       \<lparr>ctMaxApplications = 0, ctProperties = [],
        ctResources = \<lparr>confGuaranteed = [], confMax = []\<rparr>\<rparr> [] []"

definition exampleRoot :: qheap where
  "exampleRoot =
     (\<lambda>_. newBlankQueue\<lparr>properties := [(''priority.offset'', ''7''), (''preemption.policy'', ''disabled'')]\<rparr>)"

section \<open>Property values of one queue\<close>

lemma updateProperty_leaf [simp]: "isLeaf (updateProperty kv sq) = isLeaf sq"
  by (simp add: updateProperty_def Let_def split: prod.splits)

lemma fold_updateProperty_leaf [simp]: "isLeaf (fold updateProperty ps sq) = isLeaf sq"
  by (induction ps arbitrary: sq) simp_all

text \<open>One setting of a queue and the property that sets it: every other property leaves it alone.\<close>

locale queue_setting =
  fixes get :: "queue \<Rightarrow> 'a" and key :: string and conv :: "bool \<Rightarrow> string \<Rightarrow> 'a \<Rightarrow> 'a"
  assumes set_own: "get (updateProperty (key, v) sq) = conv (isLeaf sq) v (get sq)"
    and set_other: "k \<noteq> key \<Longrightarrow> get (updateProperty (k, v) sq) = get sq"
begin

lemma fold_other: "key \<notin> fst ` set ps \<Longrightarrow> get (fold updateProperty ps sq) = get sq"
  by (induction ps arbitrary: sq) (auto simp: set_other)

lemma fold_get:
  assumes "wf_map ps"
  shows "get (fold updateProperty ps sq) =
    (case map_of ps key of Some v \<Rightarrow> conv (isLeaf sq) v (get sq) | None \<Rightarrow> get sq)"
  using assms
proof (induction ps arbitrary: sq)
  case (Cons kv ps)
  obtain k v where kv: "kv = (k, v)" by (cases kv)
  with Cons show ?case
    by (cases "k = key") (auto simp: set_own set_other fold_other split: option.splits)
qed simp

end

interpretation priority_offset: queue_setting priorityOffset "''priority.offset''"
    "\<lambda>_ v _. fst (parsePriorityOffset v)"
  by unfold_locales (simp_all add: updateProperty_def Let_def)

interpretation priority_policy: queue_setting priorityPolicy "''priority.policy''"
    "\<lambda>_ v _. fst (PriorityPolicyFromString v)"
  by unfold_locales (simp_all add: updateProperty_def Let_def)

interpretation preemption_policy: queue_setting preemptionPolicy "''preemption.policy''"
    "\<lambda>_ v _. fst (PreemptionPolicyFromString v)"
  by unfold_locales (simp_all add: updateProperty_def Let_def)

interpretation preemption_delay: queue_setting preemptionDelay "''preemption.delay''"
    "\<lambda>leaf v old. if leaf then fst (convertDelay v DefaultPreemptionDelay) else old"
  by unfold_locales (simp_all add: updateProperty_def Let_def)

interpretation quota_delay: queue_setting quotaPreemptionDelay "''quota.preemption.delay''"
    "\<lambda>_ v _. fst (convertDelay v DefaultQuotaPreemptionDelay)"
  by unfold_locales (simp_all add: updateProperty_def Let_def)

interpretation sort_policy: queue_setting sortType "''application.sort.policy''"
    "\<lambda>leaf v old. if leaf then (if fst (SortPolicyFromString v) = UndefinedSortPolicy
       then FifoSortPolicy else fst (SortPolicyFromString v)) else old"
  by unfold_locales (simp_all add: updateProperty_def Let_def)

interpretation sort_priority: queue_setting prioritySortEnabled "''application.sort.priority''"
    "\<lambda>_ v _. fst (applicationSortPriorityEnabled v)"
  by unfold_locales (simp_all add: updateProperty_def Let_def)

interpretation unsched_backoff: queue_setting unschedAskBackoff "''application.unschedasks.backoff''"
    "\<lambda>_ v _. fst (unschedulableAskBackoff v)"
  by unfold_locales (simp_all add: updateProperty_def Let_def)

interpretation ask_backoff_delay: queue_setting askBackoffDelay
    "''application.unschedasks.backoff.delay''"
    "\<lambda>_ v _. fst (convertDelay v DefaultAskBackOffDelay)"
  by unfold_locales (simp_all add: updateProperty_def Let_def)

lemmas fold_get_settings = priority_offset.fold_get priority_policy.fold_get
  preemption_policy.fold_get preemption_delay.fold_get quota_delay.fold_get sort_policy.fold_get
  sort_priority.fold_get unsched_backoff.fold_get ask_backoff_delay.fold_get

text \<open>The nine settings that properties can change; the loop changes nothing else.\<close>

definition settings where
  "settings sq = (sortType sq, prioritySortEnabled sq, priorityOffset sq, priorityPolicy sq,
     preemptionPolicy sq, preemptionDelay sq, unschedAskBackoff sq, askBackoffDelay sq,
     quotaPreemptionDelay sq)"

definition with_settings :: "queue \<Rightarrow> queue \<Rightarrow> queue" where
  "with_settings t sq =
     sq\<lparr>sortType := sortType t, prioritySortEnabled := prioritySortEnabled t,
        priorityOffset := priorityOffset t, priorityPolicy := priorityPolicy t,
        preemptionPolicy := preemptionPolicy t, preemptionDelay := preemptionDelay t,
        unschedAskBackoff := unschedAskBackoff t, askBackoffDelay := askBackoffDelay t,
        quotaPreemptionDelay := quotaPreemptionDelay t\<rparr>"

lemma with_settings_self: "with_settings sq sq = sq"
  by (simp add: with_settings_def)

lemma with_settings_again: "with_settings t (with_settings u sq) = with_settings t sq"
  by (simp add: with_settings_def)

lemma with_settings_cong: "settings t = settings u \<Longrightarrow> with_settings t sq = with_settings u sq"
  by (simp add: settings_def with_settings_def)

lemma updateProperty_frame: "updateProperty kv sq = with_settings (updateProperty kv sq) sq"
proof -
  have if_rule: "(if c then a else b) = with_settings (if c then a else b) sq"
    if "a = with_settings a sq" "b = with_settings b sq" for c a b
    using that by simp
  show ?thesis
    unfolding updateProperty_def Let_def
    by (cases kv, simp only: prod.case, intro if_rule) (simp_all add: with_settings_def)
qed

lemma fold_updateProperty_frame:
  "fold updateProperty ps sq = with_settings (fold updateProperty ps sq) sq"
proof (induction ps arbitrary: sq)
  case (Cons kv ps)
  have "fold updateProperty ps (updateProperty kv sq) =
      with_settings (fold updateProperty ps (updateProperty kv sq)) (updateProperty kv sq)"
    by (rule Cons.IH)
  also have "\<dots> = with_settings (fold updateProperty ps (updateProperty kv sq)) sq"
    using arg_cong [OF updateProperty_frame [of kv sq],
        of "with_settings (fold updateProperty ps (updateProperty kv sq))"]
    unfolding with_settings_again .
  finally show ?case unfolding fold_simps(2) comp_apply .
qed (simp add: with_settings_self)

lemma fold_updateProperty_map_of:
  assumes "wf_map ps" "wf_map qs" "map_of ps = map_of qs"
  shows "fold updateProperty ps sq = fold updateProperty qs sq"
proof -
  have "settings (fold updateProperty ps sq) = settings (fold updateProperty qs sq)"
    using assms by (simp add: settings_def fold_get_settings)
  then have "with_settings (fold updateProperty ps sq) sq = with_settings (fold updateProperty qs sq) sq"
    by (rule with_settings_cong)
  then show ?thesis
    unfolding fold_updateProperty_frame [symmetric] .
qed

section \<open>Inherited properties\<close>

lemma map_of_fold_update:
  "wf_map ps \<Longrightarrow> map_of (fold (\<lambda>(k, v) m. AList.update k v m) ps m) k =
     (case map_of ps k of Some v \<Rightarrow> Some v | None \<Rightarrow> map_of m k)"
proof (induction ps arbitrary: m)
  case (Cons kv ps)
  obtain a b where kv: "kv = (a, b)" by (cases kv)
  have "a \<notin> fst ` set ps" using Cons.prems by (simp add: kv)
  then have "map_of ps a = None" by (simp add: map_of_eq_None_iff)
  then show ?case using Cons by (simp add: kv update_conv' split: option.splits)
qed simp

lemma wf_map_fold_update:
  "wf_map m \<Longrightarrow> wf_map (fold (\<lambda>(k, v) m. AList.update k v m) ps m)"
  by (induction ps arbitrary: m) (auto intro: wf_intros)

lemma mergeProperties_lookup:
  assumes "wf_map (properties sq)" "wf_map parent"
  shows "map_of (properties (mergeProperties sq parent)) k =
      (case map_of (properties sq) k of
         Some v \<Rightarrow> Some v | None \<Rightarrow> map_option (filterParentProperty k) (map_of parent k))"
    and "wf_map (properties (mergeProperties sq parent))"
  using assms
  by (auto simp: mergeProperties_def map_of_fold_update map_of_map_ran
      intro: wf_map_fold_update wf_map_map_ran split: option.splits)

lemma mergeProperties_leaf [simp]: "isLeaf (mergeProperties sq parent) = isLeaf sq"
  "isManaged (mergeProperties sq parent) = isManaged sq"
  by (simp_all add: mergeProperties_def)

lemma settings_setPreemptionTime [simp]: "settings (setPreemptionTime now sq old d) = settings sq"
  by (simp add: setPreemptionTime_def Let_def settings_def)

lemma UpdateQueueProperties_settings:
  "\<not> IsRecoveryQueue (QueuePath path) \<Longrightarrow>
   settings (UpdateQueueProperties now path sq old) =
     settings (fold updateProperty (properties sq) (resetProperties sq))"
  by (simp add: UpdateQueueProperties_def Let_def resetProperties_def)

lemma UpdateQueueProperties_same [simp]:
  "isLeaf (UpdateQueueProperties now path sq old) = isLeaf sq"
  "isManaged (UpdateQueueProperties now path sq old) = isManaged sq"
proof -
  have "isManaged (fold updateProperty ps t) = isManaged t" for ps t
    using arg_cong [OF fold_updateProperty_frame [of ps t], of isManaged] by (simp add: with_settings_def)
  moreover have "isLeaf (setPreemptionTime now t old d) = isLeaf t"
    "isManaged (setPreemptionTime now t old d) = isManaged t" for t d
    by (simp_all add: setPreemptionTime_def Let_def)
  ultimately show "isLeaf (UpdateQueueProperties now path sq old) = isLeaf sq"
    "isManaged (UpdateQueueProperties now path sq old) = isManaged sq"
    by (simp_all add: UpdateQueueProperties_def Let_def resetProperties_def)
qed

lemma setResources_same [simp]:
  "isLeaf (setResources sq g m) = isLeaf sq" "isManaged (setResources sq g m) = isManaged sq"
  "stateMachine (setResources sq g m) = stateMachine sq" "properties (setResources sq g m) = properties sq"
  by (simp_all add: setResources_def Let_def)

text \<open>When the parts of a configuration are read without an error, and what is set then.\<close>

definition conf_leaf :: "queueConfig \<Rightarrow> bool" where
  "conf_leaf conf \<longleftrightarrow> \<not> confParent conf \<and> confQueues conf = []"

definition conf_ok :: "string \<Rightarrow> string \<Rightarrow> queueConfig \<Rightarrow> bool" where
  "conf_ok cpu name conf \<longleftrightarrow>
     snd (NewACL (confSubmitACL conf)) = None \<and> snd (NewACL (confAdminACL conf)) = None \<and>
     (conf_leaf conf \<or> isl (FromConf cpu (confChildTemplate conf)) = False) \<and>
     (name = ''root'' \<or>
        \<not> isl (NewResourceFromConf cpu (confMax (confResources conf))) \<and>
        \<not> isl (NewResourceFromConf cpu (confGuaranteed (confResources conf))))"

lemma Start_activates:
  assumes "fsm_documented fsm"
  shows "fst (handleQueueEvent fsm s Start) = Active"
proof -
  have "fsm_dests NewObjectState s Start = [Active]"
    by (cases s) (simp_all add: fsm_dests_def NewObjectState_def)
  then show ?thesis
    using documented_machine.handle_one [OF object_machine [OF assms]] by simp
qed

lemma manageQueue_eq:
  assumes "fsm_documented fsm"
  shows "manageQueue fsm conf sq =
    sq\<lparr>isManaged := True, stateMachine := Active, isLeaf := conf_leaf conf\<rparr>"
  using Start_activates [OF assms] by (cases sq) (auto simp: manageQueue_def conf_leaf_def Let_def)

lemma setTemplate_same:
  "setTemplate cpu sq conf = (sq', err) \<Longrightarrow> \<exists>t. sq' = sq\<lparr>queueTemplate := t\<rparr>"
  by (cases sq) (auto simp: setTemplate_def split: sum.splits)

lemma setTemplate_error: "snd (setTemplate cpu sq conf) = None \<longleftrightarrow> \<not> isl (FromConf cpu conf)"
  by (auto simp: setTemplate_def split: sum.splits)

lemma setResourcesFromConf_same:
  "setResourcesFromConf cpu sq res = (sq', err) \<Longrightarrow> sq' = sq \<or> (\<exists>g m. sq' = setResources sq g m)"
  by (auto simp: setResourcesFromConf_def split: sum.splits)

lemma setResourcesFromConf_error:
  "snd (setResourcesFromConf cpu sq res) = None \<longleftrightarrow>
     \<not> isl (NewResourceFromConf cpu (confMax res)) \<and>
     \<not> isl (NewResourceFromConf cpu (confGuaranteed res))"
  by (auto simp: setResourcesFromConf_def split: sum.splits)


lemma applyConf_spec:
  assumes fsm: "fsm_documented fsm" and run: "applyConf cpu fsm name conf sq = (sq', r)"
  shows "(\<not> isl r \<longleftrightarrow> conf_ok cpu name conf) \<and>
    (conf_ok cpu name conf \<longrightarrow> r = Inr (maxResource sq) \<and> isManaged sq' \<and> stateMachine sq' = Active \<and>
       isLeaf sq' = conf_leaf conf \<and> properties sq' = confProperties conf \<and>
       (if name = ''root''
        then maxResource sq' = maxResource sq \<and> guaranteedResource sq' = guaranteedResource sq \<and>
             maxRunningApps sq' = maxRunningApps sq
        else maxRunningApps sq' = confMaxApplications conf))"
proof -
  obtain submit e1 where a1: "NewACL (confSubmitACL conf) = (submit, e1)" by fastforce
  obtain admin e2 where a2: "NewACL (confAdminACL conf) = (admin, e2)" by fastforce
  define sq1 where sq1: "sq1 = manageQueue fsm conf (sq\<lparr>submitACL := submit, adminACL := admin\<rparr>)"
  note m = sq1 [unfolded manageQueue_eq [OF fsm]]
  obtain sq2 e3 where t: "(if conf_leaf conf then (sq1, None)
      else setTemplate cpu sq1 (confChildTemplate conf)) = (sq2, e3)" by fastforce
  obtain sq3 e4 where res: "(if name \<noteq> ''root'' then setResourcesFromConf cpu sq2 (confResources conf)
      else (sq2, None)) = (sq3, e4)" by fastforce
  have ok: "conf_ok cpu name conf \<longleftrightarrow> e1 = None \<and> e2 = None \<and> e3 = None \<and> e4 = None"
    using t res setTemplate_error [of cpu sq1 "confChildTemplate conf"]
      setResourcesFromConf_error [of cpu sq2 "confResources conf"]
    by (auto simp: conf_ok_def a1 a2 split: if_splits)
  have leaf: "isLeaf sq1 = conf_leaf conf" by (simp add: m)
  show ?thesis
  proof (cases "e1 = None \<and> e2 = None")
    case False
    then have "isl r" using run
      by (cases e1; cases e2) (auto simp: applyConf_def a1 a2 Let_def)
    then show ?thesis using ok False by auto
  next
    case acl: True
    have r: "(sq', r) = (case e3 of Some err \<Rightarrow> (sq2, Inl err) | None \<Rightarrow>
        (case e4 of Some err \<Rightarrow> (sq3, Inl err)
         | None \<Rightarrow> ((if name \<noteq> ''root'' then sq3\<lparr>maxRunningApps := confMaxApplications conf\<rparr> else sq3)
                      \<lparr>properties := confProperties conf\<rparr>, Inr (maxResource sq2))))"
      using run acl unfolding applyConf_def a1 a2
      by (cases e3; cases e4) (simp_all add: Let_def sq1 [symmetric] leaf t res)
    have sq2: "\<exists>tm. sq2 = sq1\<lparr>queueTemplate := tm\<rparr>" if "e3 = None"
    proof (cases "conf_leaf conf")
      case True
      then have "sq2 = sq1\<lparr>queueTemplate := queueTemplate sq1\<rparr>" using t by simp
      then show ?thesis ..
    qed (use t setTemplate_same in auto)
    have sq3: "sq3 = sq2 \<or> (name \<noteq> ''root'' \<and> (\<exists>g m. sq3 = setResources sq2 g m))"
      using res setResourcesFromConf_same [of cpu sq2 "confResources conf" sq3 e4] by (auto split: if_splits)
    show ?thesis
    proof (cases "e3 = None \<and> e4 = None")
      case True
      with sq2 obtain tm where "sq2 = sq1\<lparr>queueTemplate := tm\<rparr>" by blast
      then show ?thesis using True r ok acl sq3 by (auto simp: m)
    qed (use r ok acl in \<open>auto split: option.splits\<close>)
  qed
qed

lemma updateProperty_properties:
  "updateProperty kv (sq\<lparr>properties := ps\<rparr>) = (updateProperty kv sq)\<lparr>properties := ps\<rparr>"
proof -
  have if_rule: "(if c then a else b) = (if c then a' else b')\<lparr>properties := ps\<rparr>"
    if "a = a'\<lparr>properties := ps\<rparr>" "b = b'\<lparr>properties := ps\<rparr>" for c a b a' b'
    using that by simp
  have leaf: "isLeaf (sq\<lparr>properties := ps\<rparr>) = isLeaf sq" by simp
  show ?thesis
    unfolding updateProperty_def Let_def leaf
    by (cases kv, simp only: prod.case, intro if_rule) simp_all
qed

lemma fold_updateProperty_properties:
  "fold updateProperty kvs (sq\<lparr>properties := ps\<rparr>) = (fold updateProperty kvs sq)\<lparr>properties := ps\<rparr>"
  by (induction kvs arbitrary: sq) (simp_all add: updateProperty_properties)

lemma setPreemptionTime_properties:
  "setPreemptionTime now (sq\<lparr>properties := ps\<rparr>) old d = (setPreemptionTime now sq old d)\<lparr>properties := ps\<rparr>"
  by (simp add: setPreemptionTime_def Let_def)

lemma resetProperties_properties:
  "resetProperties (sq\<lparr>properties := ps\<rparr>) = (resetProperties sq)\<lparr>properties := ps\<rparr>"
  by (simp add: resetProperties_def)

lemma mset_map_of:
  assumes "wf_map m" "mset ps = mset m"
  shows "wf_map ps" "map_of ps = map_of m"
proof -
  have "mset (map fst ps) = mset (map fst m)" using assms(2) by simp
  then show wf: "wf_map ps" using assms(1) mset_eq_imp_distinct_iff unfolding wf_map_def by blast
  show "map_of ps = map_of m"
    using wf assms(1) mset_eq_setD [OF assms(2)] unfolding wf_map_def by (metis map_of_inject_set)
qed

text \<open>What a new child of the managed kind looks like in the heap.\<close>

lemma addChildQueue_managed:
  assumes "addChildQueue h path name child = (h', None)" "isManaged child"
  shows "settings (h' (name # path)) = settings child"
  using assms by (auto simp: addChildQueue_def Let_def settings_def split: if_splits)

lemma NewConfiguredQueue_settings:
  assumes fsm: "fsm_documented fsm"
    and new: "NewConfiguredQueue cpu fsm now conf h parent = (h', Inr q)" "parent \<noteq> []"
    and rec: "\<not> IsRecoveryQueue (QueuePath q)"
  obtains sq where "isLeaf sq = conf_leaf conf" "properties sq = confProperties conf"
    "settings (h' q) = settings (fold updateProperty
       (properties (mergeProperties sq (properties (h parent))))
       (resetProperties (mergeProperties sq (properties (h parent)))))"
proof -
  define name where n: "name = ToLower (confName conf)"
  obtain sq r where a: "applyConf cpu fsm name conf
      (newBlankQueue\<lparr>isManaged := True, maxRunningApps := confMaxApplications conf\<rparr>) = (sq, r)"
    by fastforce
  note spec = applyConf_spec [OF fsm a]
  have "\<not> isl r" using new by (cases r) (auto simp: NewConfiguredQueue_def Let_def a n [symmetric])
  with spec have sp: "r = Inr (maxResource (newBlankQueue\<lparr>isManaged := True,
      maxRunningApps := confMaxApplications conf\<rparr>))" "isManaged sq" "isLeaf sq = conf_leaf conf"
    "properties sq = confProperties conf"
    by blast+
  define child where c: "child = UpdateQueueProperties now (name # parent)
      (mergeProperties sq (properties (h parent))) None"
  have q: "q = name # parent" and add: "addChildQueue h parent name child = (h', None)"
    using new sp(1) by (auto simp: NewConfiguredQueue_def Let_def a n [symmetric] c split: prod.splits option.splits)
  have "settings (h' q) = settings child"
    using addChildQueue_managed [OF add] sp(2) q by (simp add: c)
  with that [OF sp(3,4)] rec show ?thesis by (simp add: c q UpdateQueueProperties_settings)
qed

section \<open>Theorems\<close>

text \<open>
  Go ranges over a map in any order: the settings that a queue takes from its properties do not
  depend on the order in which the properties are visited.
\<close>

theorem property_order_irrelevant:
  assumes "wf_map (properties sq)" "mset ps = mset (properties sq)"
  shows "UpdateQueueProperties now path (sq\<lparr>properties := ps\<rparr>) old =
    (UpdateQueueProperties now path sq old)\<lparr>properties := ps\<rparr>"
proof -
  have "fold updateProperty ps (resetProperties sq) = fold updateProperty (properties sq) (resetProperties sq)"
    using fold_updateProperty_map_of mset_map_of [OF assms] assms(1) by blast
  moreover have "properties (resetProperties t) = properties t" for t by (simp add: resetProperties_def)
  ultimately show ?thesis
    by (simp add: UpdateQueueProperties_def Let_def resetProperties_properties
        fold_updateProperty_properties setPreemptionTime_properties)
qed

theorem property_order_irrelevant_witness:
  "UpdateQueueProperties 0 [''a'', ''root'']
     (newBlankQueue\<lparr>properties := [(''priority.policy'', ''fence''), (''priority.offset'', ''5'')]\<rparr>) None =
   (UpdateQueueProperties 0 [''a'', ''root'']
     (newBlankQueue\<lparr>properties := [(''priority.offset'', ''5''), (''priority.policy'', ''fence'')]\<rparr>) None)
     \<lparr>properties := [(''priority.policy'', ''fence''), (''priority.offset'', ''5'')]\<rparr>"
  using property_order_irrelevant [of
      "newBlankQueue\<lparr>properties := [(''priority.offset'', ''5''), (''priority.policy'', ''fence'')]\<rparr>"
      "[(''priority.policy'', ''fence''), (''priority.offset'', ''5'')]" 0 "[''a'', ''root'']" None]
  by simp

text \<open>
  C39. Inheritance of properties. A queue that is created from the configuration under a parent takes
  its own properties first. The priority offset and the priority policy of the parent are never
  inherited; of the preemption policy only the value disabled is inherited; the delay of the quota
  preemption is inherited as it is.
\<close>

theorem queue_properties_inherited:
  assumes "fsm_documented fsm"
    and "NewConfiguredQueue cpu fsm now conf h parent = (h', Inr q)" "parent \<noteq> []"
    and "wf_map (confProperties conf)" "wf_map (properties (h parent))"
    and "\<not> IsRecoveryQueue (QueuePath q)"
  defines "own \<equiv> map_of (confProperties conf)" and "inherited \<equiv> map_of (properties (h parent))"
  shows "priorityOffset (h' q) =
      (case own ''priority.offset'' of Some v \<Rightarrow> fst (parsePriorityOffset v) | None \<Rightarrow> 0) \<and>
    priorityPolicy (h' q) =
      (case own ''priority.policy'' of
         Some v \<Rightarrow> fst (PriorityPolicyFromString v) | None \<Rightarrow> DefaultPriorityPolicy) \<and>
    preemptionPolicy (h' q) =
      (case own ''preemption.policy'' of
         Some v \<Rightarrow> fst (PreemptionPolicyFromString v)
       | None \<Rightarrow> (case inherited ''preemption.policy'' of
           Some v \<Rightarrow> if fst (PreemptionPolicyFromString v) = DisabledPreemptionPolicy
                     then DisabledPreemptionPolicy else DefaultPreemptionPolicy
         | None \<Rightarrow> DefaultPreemptionPolicy)) \<and>
    quotaPreemptionDelay (h' q) =
      (case (case own ''quota.preemption.delay'' of
               Some v \<Rightarrow> Some v | None \<Rightarrow> inherited ''quota.preemption.delay'') of
         Some v \<Rightarrow> fst (convertDelay v 0) | None \<Rightarrow> 0)"
proof -
  obtain sq where sq: "properties sq = confProperties conf"
    "settings (h' q) = settings (fold updateProperty
       (properties (mergeProperties sq (properties (h parent))))
       (resetProperties (mergeProperties sq (properties (h parent)))))"
    using NewConfiguredQueue_settings [OF assms(1-3,6)] by metis
  have wf: "wf_map (properties sq)" using sq(1) assms(4) by simp
  note look = mergeProperties_lookup [OF wf assms(5), unfolded sq(1)]
  have zero: "fst (parsePriorityOffset ''0'') = 0"
    by (simp add: parsePriorityOffset_def ParseIntBits_def digits_val_def is_digit_def)
  have default: "fst (PriorityPolicyFromString (PriorityPolicy_String DefaultPriorityPolicy)) =
      DefaultPriorityPolicy"
    by (simp add: PriorityPolicyFromString_def PriorityPolicy_String_def Let_def ToLower_def
        lower_char_def is_upper_def)
  have filt: "filterParentProperty ''priority.offset'' v = ''0''"
    "filterParentProperty ''priority.policy'' v = PriorityPolicy_String DefaultPriorityPolicy"
    "filterParentProperty ''quota.preemption.delay'' v = v" for v
    by (simp_all add: filterParentProperty_def)
  have pre: "fst (PreemptionPolicyFromString (filterParentProperty ''preemption.policy'' v)) =
      (if fst (PreemptionPolicyFromString v) = DisabledPreemptionPolicy
       then DisabledPreemptionPolicy else DefaultPreemptionPolicy)" for v
    by (auto simp: filterParentProperty_def PreemptionPolicyFromString_def Let_def
        PreemptionPolicy_String_def ToLower_def lower_char_def is_upper_def PriorityPolicy_String_def)
  show ?thesis
    using sq(2) zero default
    by (auto simp: settings_def fold_get_settings [OF look(2)] look(1) own_def inherited_def pre filt
        resetProperties_def DefaultQuotaPreemptionDelay_def split: option.splits)
qed

theorem queue_properties_inherited_witness:
  "\<exists>h'. NewConfiguredQueue ''vcore'' looplab_event 0 (exampleConf ''2'') exampleRoot [''root''] =
       (h', Inr [''a'', ''root'']) \<and>
     priorityOffset (h' [''a'', ''root'']) = 0 \<and>
     preemptionPolicy (h' [''a'', ''root'']) = DisabledPreemptionPolicy"
proof -
  have low: "ToLower ''A'' = ''a''" by code_simp
  have ok: "conf_ok ''vcore'' ''a'' (exampleConf ''2'')"
    by (simp add: conf_ok_def conf_leaf_def exampleConf_def NewACL_def) code_simp
  obtain sq r where a: "applyConf ''vcore'' looplab_event ''a'' (exampleConf ''2'')
      (newBlankQueue\<lparr>isManaged := True, maxRunningApps := confMaxApplications (exampleConf ''2'')\<rparr>) =
      (sq, r)" by fastforce
  then obtain old where "r = Inr old"
    using applyConf_spec [OF looplab_documented a] ok by blast
  then obtain h' where n: "NewConfiguredQueue ''vcore'' looplab_event 0 (exampleConf ''2'') exampleRoot
      [''root''] = (h', Inr [''a'', ''root''])"
    using a by (auto simp: NewConfiguredQueue_def Let_def exampleConf_def low addChildQueue_def
        exampleRoot_def newBlankQueue_def)
  have "\<not> IsRecoveryQueue (QueuePath [''a'', ''root''])" by code_simp
  moreover have "fst (PreemptionPolicyFromString ''disabled'') = DisabledPreemptionPolicy" by code_simp
  ultimately show ?thesis
    using n queue_properties_inherited [OF looplab_documented n]
    by (simp add: exampleConf_def exampleRoot_def)
qed



text \<open>
  The name of a dynamic queue is compared with the name of the recovery queue before it is turned
  into lower case: a name in another case is accepted and creates the recovery queue.
\<close>

lemma dynamic_queue_becomes_recovery_queue:
  "snd (NewDynamicQueue 0 ''@Recovery@'' True (\<lambda>_. newBlankQueue) [''root'']) =
     Inr [''@recovery@'', ''root'']"
proof -
  have "ToLower ''@Recovery@'' = ''@recovery@''" "IsQueueNameValid ''@Recovery@''" by code_simp+
  then show ?thesis
    by (simp add: NewDynamicQueue_def newDynamicQueueInternal_def addChildQueue_def newBlankQueue_def Let_def)
qed

text \<open>
  A reload of the configuration changes the priority offset of a queue and does not tell the parent:
  the priority that the parent caches for the queue is out of date.
\<close>

lemma reload_leaves_cached_priority_stale:
  defines "sq \<equiv> newBlankQueue\<lparr>isLeaf := True, applications := [''app-1''],
      appPriorities := [(''app-1'', 3)], currentPriority := 3\<rparr>"
  defines "h \<equiv> (\<lambda>_. newBlankQueue)
      ([''root''] := newBlankQueue\<lparr>children := [''a''], childPriorities := [(''a'', 3)],
         currentPriority := 3\<rparr>, [''a'', ''root''] := sq)"
  defines "h' \<equiv> h([''a'', ''root''] := UpdateQueueProperties 0 [''a'', ''root'']
      (sq\<lparr>properties := [(''priority.offset'', ''10'')]\<rparr>) None)"
  shows "child_cache_ok h [''root''] ''a'' \<and> \<not> child_cache_ok h' [''root''] ''a''"
proof -
  have r: "\<not> IsRecoveryQueue (QueuePath [''a'', ''root''])" by code_simp
  have ten: "fst (parsePriorityOffset ''10'') = 10" by code_simp
  have "currentPriority (h' [''a'', ''root'']) = 3" "priorityOffset (h' [''a'', ''root'']) = 10"
    "priorityPolicy (h' [''a'', ''root'']) = DefaultPriorityPolicy"
    by (simp_all add: h'_def UpdateQueueProperties_def r Let_def resetProperties_def updateProperty_def
        ten setPreemptionTime_def sq_def newBlankQueue_def)
  then have "getCurrentPriority (h' [''a'', ''root'']) = 13"
    by (simp add: getCurrentPriority_def priorityValueByPolicy_def MinPriority_def MaxPriority_def)
  then show ?thesis
    by (simp add: child_cache_ok_def h_def h'_def sq_def getCurrentPriority_def
        priorityValueByPolicy_def MinPriority_def MaxPriority_def newBlankQueue_def)
qed

end
