(* ===== verification/ConfigChecks.thy ===== *)
theory ConfigChecks
  imports Configs Resources
begin

text \<open>
  The validation of a configuration (\<open>pkg/common/configs/configvalidator.go\<close>): the checks of queues,
  resources, limits and placement rules, and \<open>Validate\<close>, which runs them on every partition and returns
  the configuration with the root queue inserted. A map that is not set in the YAML file is the empty map; a map that is set but empty is not told apart from it.
  A weight of the node sorting policy is a float64, kept as its mantissa and exponent. Whether the Go
  regular expression package accepts an expression is the argument \<open>compiles\<close>.
\<close>

section \<open>Data\<close>

datatype float64 = Finite int int | PosInf | NegInf | NaN

fun negative :: "float64 \<Rightarrow> bool" where
  "negative (Finite mantissa _) = (mantissa < 0)"
| "negative NegInf = True"
| "negative _ = False"

record ruleFilter =
  filterType :: string
  filterUsers :: "string list"
  filterGroups :: "string list"

datatype PlacementRule =
  PlacementRule (ruleName: string) (ruleCreate: bool) (ruleFilterConf: ruleFilter)
    (ruleParent: "PlacementRule option") (ruleValue: string)

record NodeSortingPolicy =
  nspType :: string
  nspResourceWeights :: "float64 gomap"

record PartitionConfig =
  pcName :: string
  pcQueues :: "queueConfig list option"
  pcPlacementRules :: "PlacementRule list"
  pcLimits :: "limit list"
  pcNodeSortPolicy :: NodeSortingPolicy

datatype limit_error =
    EmptyLimit
  | LimitUserName string
  | LimitGroupName string
  | DuplicateUser string
  | DuplicateGroup string
  | UserAfterWildcard string
  | GroupAfterWildcard string
  | OnlyWildcardGroup
  | LimitNotPositive string
  | LimitNull string
  | LimitAboveQueueApplications string
  | LimitAboveQueueMax string
  | LimitAboveParent string string
  | LimitAboveWildcard string string
  | LimitsDiffer

datatype rule_error =
    RuleName string
  | FilterType string
  | FilterUsers "string list"
  | FilterGroups "string list"
  | FixedRuleQualified string
  | RuleQueueNotLeaf nat
  | RuleQueueMissing nat
  | RuleLastQueueLeaf nat string

datatype check_error =
    CheckACL acl_error
  | CheckParse parse_error
  | LimitError limit_error
  | RuleError rule_error
  | ResourcesError string string
  | MaxApplicationsAboveParent
  | MaxApplicationsUnset
  | TopQueueNotRoot
  | UndefinedPolicy string
  | NegativeWeight string
  | InvalidQueueName string
  | DuplicateChild string nat
  | QueuesNotSet
  | RootResources
  | CheckPanic
  | ConfigNotSet
  | DuplicatePartition string

definition RootQueue :: string where
  "RootQueue = ''root''"

definition Wildcard :: string where
  "Wildcard = ''*''"

section \<open>Resources of queues\<close>

definition checkResourceConfig ::
    "string \<Rightarrow> queueConfig \<Rightarrow> check_error + resource option \<times> resource option" where
  "checkResourceConfig cpuName cur =
     (case NewResourceFromConf cpuName (confGuaranteed (confResources cur)) of
        Inl err \<Rightarrow> Inl (CheckParse err)
      | Inr g \<Rightarrow>
          (case NewResourceFromConf cpuName (confMax (confResources cur)) of
             Inl err \<Rightarrow> Inl (CheckParse err)
           | Inr m \<Rightarrow>
               if \<not> FitInMaxUndef (Some m) (Some g) then Inl (ResourcesError ''guaranteed above max'' (confName cur))
               else Inr (Some g, Some m)))"

text \<open>The last part of \<open>checkQueueResource\<close>, for the sum over the children.\<close>

definition checkGuaranteed ::
    "string \<Rightarrow> resource option \<Rightarrow> resource option \<Rightarrow> resource option \<Rightarrow> check_error + resource option" where
  "checkGuaranteed name curG curM sumG =
     (if \<not> FitInMaxUndef curG sumG then Inl (ResourcesError ''children above guaranteed'' name)
      else if \<not> FitInMaxUndef curM sumG then Inl (ResourcesError ''children above max'' name)
      else if IsZero curG then Inr sumG
      else Inr curG)"

fun checkQueueResource :: "string \<Rightarrow> queueConfig \<Rightarrow> resource option \<Rightarrow> check_error + resource option"
  and checkChildren ::
    "string \<Rightarrow> queueConfig list \<Rightarrow> resource option \<Rightarrow> resource option \<Rightarrow> check_error + resource option" where
  "checkQueueResource cpuName (QueueConfig name par res maxApps props adm sub tmpl queues limits) parentM =
     (case checkResourceConfig cpuName (QueueConfig name par res maxApps props adm sub tmpl queues limits) of
        Inl err \<Rightarrow> Inl err
      | Inr (curG, curM) \<Rightarrow>
          if \<not> FitInMaxUndef parentM curM then Inl (ResourcesError ''max above parent'' name)
          else
            let curM = ComponentWiseMin curM parentM
            in case checkChildren cpuName queues curM (Some NewResource) of
                 Inl err \<Rightarrow> Inl err
               | Inr sumG \<Rightarrow> checkGuaranteed name curG curM sumG)"
| "checkChildren cpuName [] curM sumG = Inr sumG"
| "checkChildren cpuName (child # queues) curM sumG =
     (case checkQueueResource cpuName child curM of
        Inl err \<Rightarrow> Inl err
      | Inr childG \<Rightarrow> checkChildren cpuName queues curM (AddTo sumG childG))"

section \<open>Limits along the hierarchy\<close>

text \<open>The loop over the users of a limit, and over its groups: the maximum of the parents for the name, or
  for the wild card, must not be exceeded. The result is the map for the next level.\<close>

fun checkNamesResource ::
    "string \<Rightarrow> resource option \<Rightarrow> resource option gomap \<Rightarrow> string list \<Rightarrow> resource option gomap \<Rightarrow>
     check_error + resource option gomap" where
  "checkNamesResource queueName limitMax parentLimits [] cur = Inr cur"
| "checkNamesResource queueName limitMax parentLimits (name # names) cur =
     (case map_of parentLimits name of
        Some existingMax \<Rightarrow>
          if \<not> FitInMaxUndef existingMax limitMax then Inl (LimitError (LimitAboveParent name queueName))
          else checkNamesResource queueName limitMax parentLimits names
                 (AList.update name (ComponentWiseMin limitMax existingMax) cur)
      | None \<Rightarrow>
          (case map_of parentLimits Wildcard of
             Some existingMax \<Rightarrow>
               if name \<noteq> Wildcard \<and> \<not> FitInMaxUndef existingMax limitMax
               then Inl (LimitError (LimitAboveWildcard name queueName))
               else checkNamesResource queueName limitMax parentLimits names (AList.update name limitMax cur)
           | None \<Rightarrow>
               checkNamesResource queueName limitMax parentLimits names (AList.update name limitMax cur)))"

fun checkLimitsResource ::
    "string \<Rightarrow> string \<Rightarrow> limit list \<Rightarrow> resource option gomap \<Rightarrow> resource option gomap \<Rightarrow>
     resource option gomap \<times> resource option gomap \<Rightarrow>
     check_error + resource option gomap \<times> resource option gomap" where
  "checkLimitsResource cpuName queueName [] parentUsers parentGroups cur = Inr cur"
| "checkLimitsResource cpuName queueName (lim # limits) parentUsers parentGroups (curUsers, curGroups) =
     (case NewResourceFromConf cpuName (limitMaxResources lim) of
        Inl err \<Rightarrow> Inl (CheckParse err)
      | Inr limitMax \<Rightarrow>
          (case checkNamesResource queueName (Some limitMax) parentUsers (limitUsers lim) curUsers of
             Inl err \<Rightarrow> Inl err
           | Inr curUsers \<Rightarrow>
               (case checkNamesResource queueName (Some limitMax) parentGroups (limitGroups lim) curGroups of
                  Inl err \<Rightarrow> Inl err
                | Inr curGroups \<Rightarrow>
                    checkLimitsResource cpuName queueName limits parentUsers parentGroups (curUsers, curGroups))))"

function (sequential) checkLimitResource ::
    "string \<Rightarrow> queueConfig \<Rightarrow> resource option gomap \<Rightarrow> resource option gomap \<Rightarrow> check_error option"
  and checkLimitResources ::
    "string \<Rightarrow> queueConfig list \<Rightarrow> resource option gomap \<Rightarrow> resource option gomap \<Rightarrow> check_error option" where
  "checkLimitResource cpuName (QueueConfig name par res maxApps props adm sub tmpl queues limits)
       parentUsers parentGroups =
     (case checkLimitsResource cpuName name limits parentUsers parentGroups (parentUsers, parentGroups) of
        Inl err \<Rightarrow> Some err
      | Inr (curUsers, curGroups) \<Rightarrow> checkLimitResources cpuName queues curUsers curGroups)"
| "checkLimitResources cpuName [] curUsers curGroups = None"
| "checkLimitResources cpuName (child # queues) curUsers curGroups =
     (case checkLimitResource cpuName child curUsers curGroups of
        Some err \<Rightarrow> Some err
      | None \<Rightarrow> checkLimitResources cpuName queues curUsers curGroups)"
  by pat_completeness auto
termination
  by (relation "measure (\<lambda>x. case x of Inl (_, q, _) \<Rightarrow> size q | Inr (_, qs, _) \<Rightarrow> size_list size qs)") auto

section \<open>Maximum number of applications\<close>

fun checkQueueMaxApplications :: "queueConfig \<Rightarrow> check_error option"
  and checkChildMaxApplications :: "nat \<Rightarrow> queueConfig list \<Rightarrow> check_error option" where
  "checkQueueMaxApplications (QueueConfig name par res maxApps props adm sub tmpl queues limits) =
     checkChildMaxApplications maxApps queues"
| "checkChildMaxApplications maxApps [] = None"
| "checkChildMaxApplications maxApps (child # queues) =
     (if maxApps \<noteq> 0 \<and> maxApps < confMaxApplications child then Some MaxApplicationsAboveParent
      else if maxApps \<noteq> 0 \<and> confMaxApplications child = 0 then Some MaxApplicationsUnset
      else case checkQueueMaxApplications child of
             Some err \<Rightarrow> Some err
           | None \<Rightarrow> checkChildMaxApplications maxApps queues)"

fun checkNamesApplications ::
    "string \<Rightarrow> nat \<Rightarrow> nat gomap \<Rightarrow> string list \<Rightarrow> nat gomap \<Rightarrow> check_error + nat gomap" where
  "checkNamesApplications queueName limitMax parentLimits [] cur = Inr cur"
| "checkNamesApplications queueName limitMax parentLimits (name # names) cur =
     (case map_of parentLimits name of
        Some parentMax \<Rightarrow>
          if parentMax \<noteq> 0 \<and> (parentMax < limitMax \<or> limitMax = 0) then Inl (LimitError (LimitAboveParent name queueName))
          else checkNamesApplications queueName limitMax parentLimits names (AList.update name limitMax cur)
      | None \<Rightarrow>
          (case map_of parentLimits Wildcard of
             Some wildcardMax \<Rightarrow>
               if name \<noteq> Wildcard \<and> wildcardMax \<noteq> 0 \<and> (wildcardMax < limitMax \<or> limitMax = 0)
               then Inl (LimitError (LimitAboveWildcard name queueName))
               else checkNamesApplications queueName limitMax parentLimits names (AList.update name limitMax cur)
           | None \<Rightarrow>
               checkNamesApplications queueName limitMax parentLimits names (AList.update name limitMax cur)))"

fun checkLimitsApplications ::
    "string \<Rightarrow> limit list \<Rightarrow> nat gomap \<Rightarrow> nat gomap \<Rightarrow> nat gomap \<times> nat gomap \<Rightarrow>
     check_error + nat gomap \<times> nat gomap" where
  "checkLimitsApplications queueName [] parentUsers parentGroups cur = Inr cur"
| "checkLimitsApplications queueName (lim # limits) parentUsers parentGroups (curUsers, curGroups) =
     (case checkNamesApplications queueName (limitMaxApplications lim) parentUsers (limitUsers lim) curUsers of
        Inl err \<Rightarrow> Inl err
      | Inr curUsers \<Rightarrow>
          (case checkNamesApplications queueName (limitMaxApplications lim) parentGroups (limitGroups lim) curGroups of
             Inl err \<Rightarrow> Inl err
           | Inr curGroups \<Rightarrow> checkLimitsApplications queueName limits parentUsers parentGroups (curUsers, curGroups)))"

fun checkLimitMaxApplications :: "queueConfig \<Rightarrow> nat gomap \<Rightarrow> nat gomap \<Rightarrow> check_error option"
  and checkLimitsMaxApplications :: "queueConfig list \<Rightarrow> nat gomap \<Rightarrow> nat gomap \<Rightarrow> check_error option" where
  "checkLimitMaxApplications (QueueConfig name par res maxApps props adm sub tmpl queues limits) parentUsers parentGroups =
     (case checkLimitsApplications name limits parentUsers parentGroups (parentUsers, parentGroups) of
        Inl err \<Rightarrow> Some err
      | Inr (curUsers, curGroups) \<Rightarrow> checkLimitsMaxApplications queues curUsers curGroups)"
| "checkLimitsMaxApplications [] curUsers curGroups = None"
| "checkLimitsMaxApplications (child # queues) curUsers curGroups =
     (case checkLimitMaxApplications child curUsers curGroups of
        Some err \<Rightarrow> Some err
      | None \<Rightarrow> checkLimitsMaxApplications queues curUsers curGroups)"


section \<open>Single limits\<close>

text \<open>The names that were seen before are kept in a list without duplicates, as a duplicate is an error.\<close>

fun checkLimitNames ::
    "(string \<Rightarrow> bool) \<Rightarrow> (string \<Rightarrow> limit_error) \<Rightarrow> (string \<Rightarrow> limit_error) \<Rightarrow> (string \<Rightarrow> limit_error) \<Rightarrow>
     string list \<Rightarrow> string list \<Rightarrow> check_error + string list" where
  "checkLimitNames valid invalid duplicate afterWildcard [] existing = Inr existing"
| "checkLimitNames valid invalid duplicate afterWildcard (name # names) existing =
     (if name \<noteq> ''*'' \<and> \<not> valid name then Inl (LimitError (invalid name))
      else if name \<in> set existing then Inl (LimitError (duplicate name))
      else
        let existing = existing @ [name]
        in if ''*'' \<in> set existing \<and> name \<noteq> ''*'' then Inl (LimitError (afterWildcard name))
           else checkLimitNames valid invalid duplicate afterWildcard names existing)"

definition checkLimitMaxResources :: "string \<Rightarrow> limit \<Rightarrow> check_error + resource option" where
  "checkLimitMaxResources cpuName lim =
     (if limitMaxResources lim \<noteq> []
      then case NewResourceFromConf cpuName (limitMaxResources lim) of
             Inl err \<Rightarrow> Inl (CheckParse err)
           | Inr res \<Rightarrow>
               if \<not> StrictlyGreaterThanZero (Some res) then Inl (LimitError (LimitNotPositive (limitText lim)))
               else Inr (Some res)
      else Inr (Some NewResource))"

definition checkLimit ::
    "string \<Rightarrow> limit \<Rightarrow> string list \<Rightarrow> string list \<Rightarrow> queueConfig \<Rightarrow> check_error + string list \<times> string list" where
  "checkLimit cpuName lim existingUserName existingGroupName queue =
     (if limitUsers lim = [] \<and> limitGroups lim = [] then Inl (LimitError EmptyLimit)
      else case checkLimitNames configUserRegExp LimitUserName DuplicateUser UserAfterWildcard
                  (limitUsers lim) existingUserName of
             Inl err \<Rightarrow> Inl err
           | Inr existingUserName \<Rightarrow>
      (case checkLimitNames configGroupRegExp LimitGroupName DuplicateGroup GroupAfterWildcard
              (limitGroups lim) existingGroupName of
         Inl err \<Rightarrow> Inl err
       | Inr existingGroupName \<Rightarrow>
           if ''*'' \<in> set existingGroupName \<and> length existingGroupName = 1 then Inl (LimitError OnlyWildcardGroup)
           else case checkLimitMaxResources cpuName lim of
                  Inl err \<Rightarrow> Inl err
                | Inr limitResource \<Rightarrow>
           if limitMaxApplications lim = 0 \<and> limitMaxResources lim = [] then Inl (LimitError (LimitNull (limitText lim)))
           else if confMaxApplications queue \<noteq> 0 \<and> confMaxApplications queue < limitMaxApplications lim
           then Inl (LimitError (LimitAboveQueueApplications (limitText lim)))
           else if confName queue \<noteq> RootQueue
           then case NewResourceFromConf cpuName (confMax (confResources queue)) of
                  Inl err \<Rightarrow> Inl (CheckParse err)
                | Inr queueMaxResource \<Rightarrow>
                    if \<not> FitInMaxUndef (Some queueMaxResource) limitResource
                    then Inl (LimitError (LimitAboveQueueMax (limitText lim)))
                    else Inr (existingUserName, existingGroupName)
           else Inr (existingUserName, existingGroupName)))"

fun checkLimitsLoop ::
    "string \<Rightarrow> queueConfig \<Rightarrow> limit list \<Rightarrow> string list \<Rightarrow> string list \<Rightarrow> check_error option" where
  "checkLimitsLoop cpuName queue [] existingUserName existingGroupName = None"
| "checkLimitsLoop cpuName queue (lim # limits) existingUserName existingGroupName =
     (case checkLimit cpuName lim existingUserName existingGroupName queue of
        Inl err \<Rightarrow> Some err
      | Inr (existingUserName, existingGroupName) \<Rightarrow>
          checkLimitsLoop cpuName queue limits existingUserName existingGroupName)"

definition checkLimits :: "string \<Rightarrow> limit list \<Rightarrow> queueConfig \<Rightarrow> check_error option" where
  "checkLimits cpuName limits queue =
     (if limits = [] then None else checkLimitsLoop cpuName queue limits [] [])"

text \<open>\<open>reflect.DeepEqual\<close> on limits compares maps as sets of entries.\<close>

definition sameMap :: "string gomap \<Rightarrow> string gomap \<Rightarrow> bool" where
  "sameMap a b \<longleftrightarrow> list_all (\<lambda>(k, v). map_of b k = Some v) a \<and> list_all (\<lambda>(k, v). map_of a k = Some v) b"

definition sameLimit :: "limit \<Rightarrow> limit \<Rightarrow> bool" where
  "sameLimit a b \<longleftrightarrow>
     limitText a = limitText b \<and> limitUsers a = limitUsers b \<and> limitGroups a = limitGroups b \<and>
     sameMap (limitMaxResources a) (limitMaxResources b) \<and> limitMaxApplications a = limitMaxApplications b"

definition setLimits :: "limit list \<Rightarrow> queueConfig \<Rightarrow> queueConfig" where
  "setLimits lims q =
     QueueConfig (confName q) (confParent q) (confResources q) (confMaxApplications q) (confProperties q)
       (confAdminACL q) (confSubmitACL q) (confChildTemplate q) (confQueues q) lims"

text \<open>The root queue is the head of the list; the result is the partition with the limits of the root.\<close>

definition checkLimitsStructure :: "PartitionConfig \<Rightarrow> check_error + PartitionConfig" where
  "checkLimitsStructure pc =
     (case pcQueues pc of
        Some (rootQueue # queues) \<Rightarrow>
          if ToLower (confName rootQueue) \<noteq> RootQueue then Inl TopQueueNotRoot
          else if pcLimits pc \<noteq> [] \<and> confLimits rootQueue \<noteq> [] \<and>
                  \<not> list_all2 sameLimit (pcLimits pc) (confLimits rootQueue) then Inl (LimitError LimitsDiffer)
          else if pcLimits pc \<noteq> [] \<and> confLimits rootQueue = []
          then Inr (pc\<lparr>pcQueues := Some (setLimits (pcLimits pc) rootQueue # queues)\<rparr>)
          else Inr pc
      | _ \<Rightarrow> Inl CheckPanic)"

section \<open>Queues\<close>

fun checkNames :: "queueConfig list \<Rightarrow> nat \<Rightarrow> string list \<Rightarrow> check_error option" where
  "checkNames [] level queueMap = None"
| "checkNames (child # queues) level queueMap =
     (if \<not> IsQueueNameValid (confName child) then Some (InvalidQueueName (confName child))
      else if ToLower (confName child) \<in> set queueMap then Some (DuplicateChild (confName child) level)
      else checkNames queues level (ToLower (confName child) # queueMap))"

fun checkQueues :: "string \<Rightarrow> queueConfig \<Rightarrow> nat \<Rightarrow> check_error option"
  and checkQueueList :: "string \<Rightarrow> queueConfig list \<Rightarrow> nat \<Rightarrow> check_error option" where
  "checkQueues cpuName (QueueConfig name par res maxApps props adm sub tmpl queues limits) level =
     (case checkACL adm of
        Some err \<Rightarrow> Some (CheckACL err)
      | None \<Rightarrow>
     (case checkACL sub of
        Some err \<Rightarrow> Some (CheckACL err)
      | None \<Rightarrow>
     (case checkLimits cpuName limits (QueueConfig name par res maxApps props adm sub tmpl queues limits) of
        Some err \<Rightarrow> Some err
      | None \<Rightarrow>
     (case checkNames queues level [] of
        Some err \<Rightarrow> Some err
      | None \<Rightarrow> checkQueueList cpuName queues (level + 1)))))"
| "checkQueueList cpuName [] level = None"
| "checkQueueList cpuName (q # queues) level =
     (case checkQueues cpuName q level of
        Some err \<Rightarrow> Some err
      | None \<Rightarrow> checkQueueList cpuName queues level)"

definition setParent :: "queueConfig \<Rightarrow> queueConfig" where
  "setParent q =
     QueueConfig (confName q) True (confResources q) (confMaxApplications q) (confProperties q)
       (confAdminACL q) (confSubmitACL q) (confChildTemplate q) (confQueues q) (confLimits q)"

definition newRoot :: "queueConfig list \<Rightarrow> queueConfig" where
  "newRoot queues =
     QueueConfig RootQueue True \<lparr>confGuaranteed = [], confMax = []\<rparr> 0 [] [] []
       \<lparr>ctMaxApplications = 0, ctProperties = [], ctResources = \<lparr>confGuaranteed = [], confMax = []\<rparr>\<rparr> queues []"

definition insertRoot :: "queueConfig list \<Rightarrow> queueConfig" where
  "insertRoot queues =
     (case queues of
        [q] \<Rightarrow> if ToLower (confName q) \<noteq> RootQueue then newRoot queues else setParent q
      | _ \<Rightarrow> newRoot queues)"

definition checkQueuesStructure :: "PartitionConfig \<Rightarrow> check_error + PartitionConfig" where
  "checkQueuesStructure pc =
     (case pcQueues pc of
        None \<Rightarrow> Inl QueuesNotSet
      | Some queues \<Rightarrow>
          let rootQueue = insertRoot queues
          in if confGuaranteed (confResources rootQueue) \<noteq> [] \<or> confMax (confResources rootQueue) \<noteq> []
             then Inl RootResources
             else Inr (pc\<lparr>pcQueues := Some [rootQueue]\<rparr>))"


section \<open>Placement rules\<close>

text \<open>\<open>^[_a-zA-Z][a-zA-Z0-9_]*$\<close>, and the characters that make a name a regular expression.\<close>

definition RuleNameRegExp :: "string \<Rightarrow> bool" where
  "RuleNameRegExp s = matches_name ''_'' s"

definition SpecialRegExp :: "string \<Rightarrow> bool" where
  "SpecialRegExp s \<longleftrightarrow> (\<exists>c\<in>set s. c \<in> set ''^$*+?()[{}|'')"

definition checkPlacementFilter :: "(string \<Rightarrow> bool) \<Rightarrow> ruleFilter \<Rightarrow> check_error option" where
  "checkPlacementFilter compiles filt =
     (if filterType filt \<noteq> [] \<and> \<not> EqualFold (filterType filt) ''allow'' \<and> \<not> EqualFold (filterType filt) ''deny''
      then Some (RuleError (FilterType (filterType filt)))
      else if length (filterUsers filt) = 1 \<and> \<not> configUserRegExp (hd (filterUsers filt)) \<and>
              (\<not> compiles (hd (filterUsers filt)) \<or> \<not> SpecialRegExp (hd (filterUsers filt)))
      then Some (RuleError (FilterUsers (filterUsers filt)))
      else if length (filterGroups filt) = 1 \<and> \<not> configGroupRegExp (hd (filterGroups filt)) \<and>
              (\<not> compiles (hd (filterGroups filt)) \<or> \<not> SpecialRegExp (hd (filterGroups filt)))
      then Some (RuleError (FilterGroups (filterGroups filt)))
      else None)"

fun checkPlacementRule :: "(string \<Rightarrow> bool) \<Rightarrow> PlacementRule \<Rightarrow> check_error option" where
  "checkPlacementRule compiles (PlacementRule name create filt par val) =
     (if \<not> RuleNameRegExp name then Some (RuleError (RuleName name))
      else case (case par of Some p \<Rightarrow> checkPlacementRule compiles p | None \<Rightarrow> None) of
             Some err \<Rightarrow> Some err
           | None \<Rightarrow> checkPlacementFilter compiles filt)"

fun getRuleChain :: "PlacementRule \<Rightarrow> PlacementRule list" where
  "getRuleChain (PlacementRule name create filt par val) =
     (case par of Some p \<Rightarrow> getRuleChain p | None \<Rightarrow> []) @ [PlacementRule name create filt par val]"

text \<open>The loop over the chain: the static path and the names so far, and whether a rule that is not fixed
  was found.\<close>

fun longestStaticPath ::
    "PlacementRule list \<Rightarrow> string \<Rightarrow> string \<Rightarrow> bool \<Rightarrow> check_error + string \<times> string \<times> bool" where
  "longestStaticPath [] staticPath ruleChain foundDynamicRule = Inr (staticPath, ruleChain, foundDynamicRule)"
| "longestStaticPath (r # rules) staticPath ruleChain foundDynamicRule =
     (let ruleChain = (if ruleChain = [] then ruleName r else ruleChain @ ''->'' @ ruleName r)
      in if foundDynamicRule then longestStaticPath rules staticPath ruleChain foundDynamicRule
         else if ruleName r \<noteq> ''fixed''
         then longestStaticPath rules (if staticPath = [] then ''<dynamic>'' else staticPath) ruleChain True
         else if prefix RootQueue (ruleValue r)
         then if staticPath \<noteq> [] then Inl (RuleError (FixedRuleQualified (ruleValue r)))
              else longestStaticPath rules (ruleValue r) ruleChain foundDynamicRule
         else longestStaticPath rules ((if staticPath = [] then RootQueue else staticPath) @ ''.'' @ ruleValue r)
                ruleChain foundDynamicRule)"

definition getLongestStaticPath :: "PlacementRule \<Rightarrow> check_error + string \<times> string \<times> bool" where
  "getLongestStaticPath rule = longestStaticPath (getRuleChain rule) [] [] False"

record placementStaticPath =
  spPath :: string
  spRuleChain :: string
  spCreate :: bool
  spHasDynamicPart :: bool
  spRuleNo :: nat

fun longestPlacementPaths :: "PlacementRule list \<Rightarrow> nat \<Rightarrow> check_error + placementStaticPath list" where
  "longestPlacementPaths [] i = Inr []"
| "longestPlacementPaths (rule # rules) i =
     (case getLongestStaticPath rule of
        Inl err \<Rightarrow> Inl err
      | Inr (path, ruleChain, hasDynamicPart) \<Rightarrow>
          (case longestPlacementPaths rules (i + 1) of
             Inl err \<Rightarrow> Inl err
           | Inr paths \<Rightarrow>
               if Index path RootQueue \<noteq> Some 0 then Inr paths
               else Inr (\<lparr>spPath = path, spRuleChain = ruleChain, spCreate = ruleCreate rule,
                          spHasDynamicPart = hasDynamicPart, spRuleNo = i\<rparr> # paths)))"

definition getLongestPlacementPaths :: "PlacementRule list \<Rightarrow> check_error + placementStaticPath list" where
  "getLongestPlacementPaths rules = longestPlacementPaths rules 0"

datatype placementPathCheckResult = placementOK | errNonExistingQueue | errQueueNotLeaf | errLastQueueLeaf

text \<open>\<open>None\<close> is the nil dereference for an empty configuration without a parent, and the access to an
  empty path.\<close>

fun checkQueueHierarchyForPlacement ::
    "string list \<Rightarrow> bool \<Rightarrow> bool \<Rightarrow> queueConfig list \<Rightarrow> queueConfig option \<Rightarrow>
     (placementPathCheckResult \<times> string) option" where
  "checkQueueHierarchyForPlacement [] create hasDynamicPart conf parentConf = None"
| "checkQueueHierarchyForPlacement (queueName # path) create hasDynamicPart conf parentConf =
     (if conf = []
      then case parentConf of
             None \<Rightarrow> None
           | Some par \<Rightarrow>
               if \<not> confParent par then Some (errLastQueueLeaf, confName par)
               else if \<not> create then Some (errNonExistingQueue, [])
               else Some (placementOK, [])
      else case List.find (\<lambda>queue. confName queue = queueName) conf of
             None \<Rightarrow> Some (if \<not> create then errNonExistingQueue else placementOK, [])
           | Some queueConf \<Rightarrow>
               if path = []
               then if hasDynamicPart
                    then Some (if confParent queueConf then placementOK else errQueueNotLeaf, [])
                    else Some (if confParent queueConf then errQueueNotLeaf else placementOK, [])
               else checkQueueHierarchyForPlacement path create hasDynamicPart (confQueues queueConf) (Some queueConf))"

definition checkStaticPath :: "queueConfig list \<Rightarrow> placementStaticPath \<Rightarrow> check_error option" where
  "checkStaticPath conf sp =
     (case checkQueueHierarchyForPlacement (Split (ToLower (spPath sp)) CHR ''.'') (spCreate sp)
             (spHasDynamicPart sp) conf None of
        None \<Rightarrow> Some CheckPanic
      | Some (errQueueNotLeaf, _) \<Rightarrow> Some (RuleError (RuleQueueNotLeaf (spRuleNo sp)))
      | Some (errNonExistingQueue, _) \<Rightarrow> Some (RuleError (RuleQueueMissing (spRuleNo sp)))
      | Some (errLastQueueLeaf, lastQueue) \<Rightarrow> Some (RuleError (RuleLastQueueLeaf (spRuleNo sp) lastQueue))
      | Some (placementOK, _) \<Rightarrow> None)"

text \<open>The first error of a check over a list.\<close>

fun firstError :: "('a \<Rightarrow> check_error option) \<Rightarrow> 'a list \<Rightarrow> check_error option" where
  "firstError check [] = None"
| "firstError check (x # xs) = (case check x of Some err \<Rightarrow> Some err | None \<Rightarrow> firstError check xs)"

definition checkPlacementRules :: "(string \<Rightarrow> bool) \<Rightarrow> PartitionConfig \<Rightarrow> check_error option" where
  "checkPlacementRules compiles pc =
     (if pcPlacementRules pc = [] then None
      else case firstError (checkPlacementRule compiles) (pcPlacementRules pc) of
             Some err \<Rightarrow> Some err
           | None \<Rightarrow>
               (case getLongestPlacementPaths (pcPlacementRules pc) of
                  Inl err \<Rightarrow> Some err
                | Inr paths \<Rightarrow>
                    firstError (checkStaticPath (case pcQueues pc of Some qs \<Rightarrow> qs | None \<Rightarrow> [])) paths))"

section \<open>Partitions\<close>

datatype SortingPolicy = BinPackingPolicy | FairnessPolicy

fun SortingPolicy_String :: "SortingPolicy \<Rightarrow> string" where
  "SortingPolicy_String BinPackingPolicy = ''binpacking''"
| "SortingPolicy_String FairnessPolicy = ''fair''"

definition SortingPolicyFromString :: "string \<Rightarrow> SortingPolicy \<times> check_error option" where
  "SortingPolicyFromString str =
     (if str = SortingPolicy_String FairnessPolicy \<or> str = [] then (FairnessPolicy, None)
      else if str = SortingPolicy_String BinPackingPolicy then (BinPackingPolicy, None)
      else (FairnessPolicy, Some (UndefinedPolicy str)))"

definition checkNodeSortingPolicy :: "PartitionConfig \<Rightarrow> check_error option" where
  "checkNodeSortingPolicy pc =
     (case snd (SortingPolicyFromString (nspType (pcNodeSortPolicy pc))) of
        Some err \<Rightarrow> Some err
      | None \<Rightarrow>
          firstError (\<lambda>(k, v). if negative v then Some (NegativeWeight k) else None)
            (nspResourceWeights (pcNodeSortPolicy pc)))"

text \<open>The checks of one partition after its structure, in the order of the code.\<close>

definition checkPartition :: "string \<Rightarrow> (string \<Rightarrow> bool) \<Rightarrow> PartitionConfig \<Rightarrow> check_error option" where
  "checkPartition cpuName compiles pc =
     (case pcQueues pc of
        Some (rootQueue # _) \<Rightarrow>
          firstError (\<lambda>check. check ())
            [\<lambda>_. checkQueues cpuName rootQueue 1,
             \<lambda>_. (case checkQueueResource cpuName rootQueue None of Inl err \<Rightarrow> Some err | Inr _ \<Rightarrow> None),
             \<lambda>_. checkPlacementRules compiles pc,
             \<lambda>_. checkNodeSortingPolicy pc,
             \<lambda>_. checkQueueMaxApplications rootQueue,
             \<lambda>_. checkLimitResource cpuName rootQueue [] [],
             \<lambda>_. checkLimitMaxApplications rootQueue [] []]
      | _ \<Rightarrow> Some CheckPanic)"

fun validatePartitions ::
    "string \<Rightarrow> (string \<Rightarrow> bool) \<Rightarrow> PartitionConfig list \<Rightarrow> string list \<Rightarrow> check_error + PartitionConfig list" where
  "validatePartitions cpuName compiles [] partitionMap = Inr []"
| "validatePartitions cpuName compiles (pc # partitions) partitionMap =
     (let pc = (if pcName pc = [] \<or> ToLower (pcName pc) = ''default'' then pc\<lparr>pcName := ''default''\<rparr> else pc)
      in if ToLower (pcName pc) \<in> set partitionMap then Inl (DuplicatePartition (pcName pc))
         else case checkQueuesStructure pc of
                Inl err \<Rightarrow> Inl err
              | Inr pc \<Rightarrow>
         (case checkLimitsStructure pc of
            Inl err \<Rightarrow> Inl err
          | Inr pc \<Rightarrow>
         (case checkPartition cpuName compiles pc of
            Some err \<Rightarrow> Inl err
          | None \<Rightarrow>
         (case validatePartitions cpuName compiles partitions (ToLower (pcName pc) # partitionMap) of
            Inl err \<Rightarrow> Inl err
          | Inr rest \<Rightarrow> Inr (pc # rest)))))"

definition Validate ::
    "string \<Rightarrow> (string \<Rightarrow> bool) \<Rightarrow> PartitionConfig list option \<Rightarrow> check_error + PartitionConfig list" where
  "Validate cpuName compiles newConfig =
     (case newConfig of
        None \<Rightarrow> Inl ConfigNotSet
      | Some partitions \<Rightarrow> validatePartitions cpuName compiles partitions [])"

end
