(* ===== verification/ConfigValid.thy ===== *)
theory ConfigValid
  imports ConfigChecks Queues
begin

text \<open>
  What a configuration that passes \<open>Validate\<close> guarantees: the shape of the queue tree, the nesting of the
  resources of its queues, and that a second validation changes nothing.
\<close>

section \<open>Specification\<close>

text \<open>The queue and all queues below it.\<close>

fun subqueues :: "queueConfig \<Rightarrow> queueConfig list" where
  "subqueues (QueueConfig name par res maxApps props adm sub tmpl queues limits) =
     QueueConfig name par res maxApps props adm sub tmpl queues limits # concat (map subqueues queues)"

lemma subqueues_eq: "subqueues q = q # concat (map subqueues (confQueues q))"
  by (cases q) simp

lemma subqueues_self [simp]: "q \<in> set (subqueues q)"
  by (subst subqueues_eq) simp

lemma subqueues_child: "c \<in> set (confQueues q) \<Longrightarrow> x \<in> set (subqueues c) \<Longrightarrow> x \<in> set (subqueues q)"
  by (subst subqueues_eq) auto

lemma subqueues_cases:
  assumes "x \<in> set (subqueues q)"
  obtains "x = q" | c where "c \<in> set (confQueues q)" "x \<in> set (subqueues c)"
  using assms by (subst (asm) subqueues_eq) auto

lemma queue_induct [case_names queue]:
  assumes "\<And>q. (\<And>c. c \<in> set (confQueues q) \<Longrightarrow> P c) \<Longrightarrow> P q"
  shows "P q"
proof (induction q)
  case (QueueConfig name par res maxApps props adm sub tmpl queues limits)
  show ?case by (rule assms) (simp add: QueueConfig)
qed

text \<open>One level of the tree: valid and distinct names, and limits on applications below that of the queue.\<close>

definition level_ok :: "queueConfig \<Rightarrow> bool" where
  "level_ok q \<longleftrightarrow>
     list_all (\<lambda>c. IsQueueNameValid (confName c)) (confQueues q) \<and>
     distinct (map (\<lambda>c. ToLower (confName c)) (confQueues q)) \<and>
     (confMaxApplications q \<noteq> 0 \<longrightarrow>
        list_all (\<lambda>c. 0 < confMaxApplications c \<and> confMaxApplications c \<le> confMaxApplications q) (confQueues q))"

definition root_ok :: "PartitionConfig \<Rightarrow> bool" where
  "root_ok pc \<longleftrightarrow>
     (\<exists>root. pcQueues pc = Some [root] \<and> ToLower (confName root) = RootQueue \<and> confParent root \<and>
        confGuaranteed (confResources root) = [] \<and> confMax (confResources root) = [] \<and>
        (\<forall>q\<in>set (subqueues root). level_ok q))"

text \<open>The limits of the partition are those of the root queue.\<close>

definition limits_ok :: "PartitionConfig \<Rightarrow> bool" where
  "limits_ok pc \<longleftrightarrow> pcLimits pc = [] \<or>
     (case pcQueues pc of
        Some (root # _) \<Rightarrow> confLimits root \<noteq> [] \<and>
          (confLimits root = pcLimits pc \<or> list_all2 sameLimit (pcLimits pc) (confLimits root))
      | _ \<Rightarrow> False)"

text \<open>The configured resources of a queue.\<close>

definition conf_max :: "string \<Rightarrow> queueConfig \<Rightarrow> resource option" where
  "conf_max cpuName q = (case NewResourceFromConf cpuName (confMax (confResources q)) of Inr m \<Rightarrow> Some m | Inl _ \<Rightarrow> None)"

definition conf_guaranteed :: "string \<Rightarrow> queueConfig \<Rightarrow> resource option" where
  "conf_guaranteed cpuName q =
     (case NewResourceFromConf cpuName (confGuaranteed (confResources q)) of Inr g \<Rightarrow> Some g | Inl _ \<Rightarrow> None)"

section \<open>The shape of the tree\<close>

lemma checkNames_ok:
  "checkNames queues level seen = None \<longleftrightarrow>
     list_all (\<lambda>c. IsQueueNameValid (confName c)) queues \<and>
     distinct (map (\<lambda>c. ToLower (confName c)) queues) \<and>
     (\<forall>c\<in>set queues. ToLower (confName c) \<notin> set seen)"
  by (induction queues level seen rule: checkNames.induct) (auto simp: image_iff)

lemma checkQueueList_None:
  "checkQueueList cpuName queues level = None \<longleftrightarrow> (\<forall>q\<in>set queues. checkQueues cpuName q level = None)"
  by (induction queues) (auto split: option.splits)

lemma checkQueues_names:
  assumes "checkQueues cpuName q level = None" "x \<in> set (subqueues q)"
  shows "list_all (\<lambda>c. IsQueueNameValid (confName c)) (confQueues x) \<and>
    distinct (map (\<lambda>c. ToLower (confName c)) (confQueues x))"
  using assms
proof (induction q arbitrary: level rule: queue_induct)
  case (queue q)
  obtain n p r m ps a s t qs l where q: "q = QueueConfig n p r m ps a s t qs l" by (cases q)
  have run: "checkNames qs level [] = None" "checkQueueList cpuName qs (level + 1) = None"
    using queue.prems(1) by (auto simp: q split: option.splits)
  from queue.prems(2) show ?case
  proof (cases rule: subqueues_cases)
    case 1
    then show ?thesis using run(1) by (simp add: q checkNames_ok)
  next
    case (2 c)
    then show ?thesis using queue.IH [of c "level + 1"] run(2) by (simp add: q checkQueueList_None)
  qed
qed

lemma checkChildMaxApplications_None:
  "checkChildMaxApplications m queues = None \<longleftrightarrow>
     (\<forall>c\<in>set queues. (m \<noteq> 0 \<longrightarrow> 0 < confMaxApplications c \<and> confMaxApplications c \<le> m) \<and>
        checkQueueMaxApplications c = None)"
  by (induction queues) (auto split: option.splits)

lemma checkQueueMaxApplications_eq:
  "checkQueueMaxApplications q = checkChildMaxApplications (confMaxApplications q) (confQueues q)"
  by (cases q) simp

lemma checkQueueMaxApplications_sub:
  assumes "checkQueueMaxApplications q = None" "x \<in> set (subqueues q)"
  shows "confMaxApplications x \<noteq> 0 \<longrightarrow>
    list_all (\<lambda>c. 0 < confMaxApplications c \<and> confMaxApplications c \<le> confMaxApplications x) (confQueues x)"
  using assms
proof (induction q rule: queue_induct)
  case (queue q)
  have all: "\<forall>c\<in>set (confQueues q). (confMaxApplications q \<noteq> 0 \<longrightarrow>
      0 < confMaxApplications c \<and> confMaxApplications c \<le> confMaxApplications q) \<and> checkQueueMaxApplications c = None"
    using queue.prems(1) by (simp add: checkQueueMaxApplications_eq [of q] checkChildMaxApplications_None)
  from queue.prems(2) show ?case
  proof (cases rule: subqueues_cases)
    case 1
    then show ?thesis using all by (auto simp: list_all_iff)
  next
    case (2 c)
    then show ?thesis using queue.IH [OF 2(1) _ 2(2)] all by simp
  qed
qed

lemma firstError_None: "firstError check xs = None \<longleftrightarrow> (\<forall>x\<in>set xs. check x = None)"
  by (induction xs) (auto split: option.splits)


lemma checkPartition_root:
  assumes "checkPartition cpuName compiles pc = None" "pcQueues pc = Some [root]"
  shows "checkQueues cpuName root 1 = None" "\<exists>g. checkQueueResource cpuName root None = Inr g"
    "checkQueueMaxApplications root = None" "checkLimitResource cpuName root [] [] = None"
    "checkLimitMaxApplications root [] [] = None"
  using assms by (auto simp: checkPartition_def split: option.splits sum.splits)

lemma root_name: "ToLower RootQueue = RootQueue"
  by code_simp

lemma checkQueuesStructure_ok:
  assumes "checkQueuesStructure pc = Inr pc'"
  obtains root where "pc' = pc\<lparr>pcQueues := Some [root]\<rparr>" "ToLower (confName root) = RootQueue" "confParent root"
    "confGuaranteed (confResources root) = []" "confMax (confResources root) = []"
proof -
  obtain queues where q: "pcQueues pc = Some queues"
    using assms by (auto simp: checkQueuesStructure_def split: option.splits)
  have root: "ToLower (confName (insertRoot queues)) = RootQueue" "confParent (insertRoot queues)"
    by (auto simp: insertRoot_def newRoot_def setParent_def root_name split: list.split)
  show thesis
    by (rule that [OF _ root]) (use assms q in \<open>auto simp: checkQueuesStructure_def Let_def split: if_splits\<close>)
qed

lemma setLimits_simps [simp]:
  "confName (setLimits l q) = confName q" "confParent (setLimits l q) = confParent q"
  "confResources (setLimits l q) = confResources q" "confLimits (setLimits l q) = l"
  by (simp_all add: setLimits_def)

lemma checkLimitsStructure_ok:
  assumes "checkLimitsStructure pc = Inr pc'" "pcQueues pc = Some [root]"
  obtains root' where "pc' = pc\<lparr>pcQueues := Some [root']\<rparr>" "confName root' = confName root" "confParent root' = confParent root"
    "confResources root' = confResources root" "pcLimits pc \<noteq> [] \<longrightarrow> confLimits root' \<noteq> []"
    "pcLimits pc \<noteq> [] \<longrightarrow> confLimits root' = pcLimits pc \<or> list_all2 sameLimit (pcLimits pc) (confLimits root')"
proof -
  have "pc' = pc \<and> (pcLimits pc = [] \<or> confLimits root \<noteq> [] \<and> list_all2 sameLimit (pcLimits pc) (confLimits root)) \<or>
      pcLimits pc \<noteq> [] \<and> pc' = pc\<lparr>pcQueues := Some [setLimits (pcLimits pc) root]\<rparr>"
    using assms by (auto simp: checkLimitsStructure_def split: if_splits)
  then show thesis
  proof
    assume *: "pc' = pc \<and> (pcLimits pc = [] \<or> confLimits root \<noteq> [] \<and> list_all2 sameLimit (pcLimits pc) (confLimits root))"
    then have "pc' = pc\<lparr>pcQueues := Some [root]\<rparr>" using assms(2) by simp
    then show thesis by (rule that) (use * in auto)
  qed (auto intro: that)
qed

text \<open>One partition that passes is in the form that passing leaves it in.\<close>

lemma validated_partition:
  assumes "checkQueuesStructure pc = Inr pc1" "checkLimitsStructure pc1 = Inr pc2"
    and "checkPartition cpuName compiles pc2 = None"
  shows "root_ok pc2" "limits_ok pc2" "pcName pc2 = pcName pc" "pcLimits pc2 = pcLimits pc"
proof -
  obtain root where root: "pc1 = pc\<lparr>pcQueues := Some [root]\<rparr>" "ToLower (confName root) = RootQueue" "confParent root"
    "confGuaranteed (confResources root) = []" "confMax (confResources root) = []"
    by (rule checkQueuesStructure_ok [OF assms(1)])
  have "pcQueues pc1 = Some [root]" using root(1) by simp
  then obtain root' where root': "pc2 = pc1\<lparr>pcQueues := Some [root']\<rparr>" "confName root' = confName root"
    "confParent root' = confParent root" "confResources root' = confResources root"
    "pcLimits pc1 \<noteq> [] \<longrightarrow> confLimits root' \<noteq> []"
    "pcLimits pc1 \<noteq> [] \<longrightarrow> confLimits root' = pcLimits pc1 \<or> list_all2 sameLimit (pcLimits pc1) (confLimits root')"
    by (rule checkLimitsStructure_ok [OF assms(2)])
  have q: "pcQueues pc2 = Some [root']" using root'(1) by simp
  note c = checkPartition_root [OF assms(3) q]
  have "level_ok x" if "x \<in> set (subqueues root')" for x
    using checkQueues_names [OF c(1) that] checkQueueMaxApplications_sub [OF c(3) that] by (simp add: level_ok_def)
  then show "root_ok pc2"
    using q root root' by (auto simp: root_ok_def)
  show "limits_ok pc2" using root'(1,5,6) by (auto simp: limits_ok_def)
  show "pcName pc2 = pcName pc" "pcLimits pc2 = pcLimits pc" using root(1) root'(1) by simp_all
qed

lemma validatePartitions_ok:
  assumes "validatePartitions cpuName compiles ps seen = Inr ps'"
  shows "length ps' = length ps \<and> list_all root_ok ps' \<and> list_all limits_ok ps' \<and>
    list_all (\<lambda>pc. checkPartition cpuName compiles pc = None) ps' \<and> map pcLimits ps' = map pcLimits ps \<and>
    distinct (map (\<lambda>pc. ToLower (pcName pc)) ps') \<and>
    (\<forall>pc\<in>set ps'. pcName pc \<noteq> [] \<and> (ToLower (pcName pc) = ''default'' \<longrightarrow> pcName pc = ''default'') \<and>
       ToLower (pcName pc) \<notin> set seen)"
  using assms
proof (induction ps arbitrary: seen ps')
  case (Cons pc ps)
  define pc0 where pc0: "pc0 = (if pcName pc = [] \<or> ToLower (pcName pc) = ''default'' then pc\<lparr>pcName := ''default''\<rparr> else pc)"
  obtain pc1 pc2 rest where run: "ToLower (pcName pc0) \<notin> set seen" "checkQueuesStructure pc0 = Inr pc1"
    "checkLimitsStructure pc1 = Inr pc2" "checkPartition cpuName compiles pc2 = None"
    "validatePartitions cpuName compiles ps (ToLower (pcName pc2) # seen) = Inr rest" "ps' = pc2 # rest"
    using Cons.prems by (auto simp: pc0 [symmetric] Let_def split: if_splits sum.splits option.splits)
  note one = validated_partition [OF run(2-4)]
  have "pcName pc0 \<noteq> []" "ToLower (pcName pc0) = ''default'' \<longrightarrow> pcName pc0 = ''default''" "pcLimits pc0 = pcLimits pc"
    by (simp_all add: pc0)
  then show ?case using Cons.IH [OF run(5)] one run(1,4,6) by (auto simp: image_iff)
qed simp


section \<open>Validating again\<close>

lemma sameLimit_refl: "wf_map (limitMaxResources l) \<Longrightarrow> sameLimit l l"
  by (auto simp: sameLimit_def sameMap_def list_all_iff map_of_wf)

lemma revalidate_partition:
  assumes "root_ok pc" "limits_ok pc" "\<forall>l\<in>set (pcLimits pc). wf_map (limitMaxResources l)"
  shows "checkQueuesStructure pc = Inr pc" "checkLimitsStructure pc = Inr pc"
proof -
  obtain root where root: "pcQueues pc = Some [root]" "ToLower (confName root) = RootQueue" "confParent root"
    "confGuaranteed (confResources root) = []" "confMax (confResources root) = []"
    using assms(1) by (auto simp: root_ok_def)
  have "setParent root = root" using root(3) by (cases root) (simp add: setParent_def)
  then have "insertRoot [root] = root" using root(2) by (simp add: insertRoot_def)
  then show "checkQueuesStructure pc = Inr pc" using root by (simp add: checkQueuesStructure_def)
  have "list_all2 sameLimit (pcLimits pc) (pcLimits pc)"
    using assms(3) by (simp add: list.rel_refl_strong sameLimit_refl)
  then show "checkLimitsStructure pc = Inr pc"
    using assms(2) root by (auto simp: checkLimitsStructure_def limits_ok_def)
qed

lemma revalidate:
  assumes "list_all root_ok ps" "list_all limits_ok ps" "list_all (\<lambda>pc. checkPartition cpuName compiles pc = None) ps"
    and "distinct (map (\<lambda>pc. ToLower (pcName pc)) ps)"
    and "\<forall>pc\<in>set ps. pcName pc \<noteq> [] \<and> (ToLower (pcName pc) = ''default'' \<longrightarrow> pcName pc = ''default'') \<and>
       ToLower (pcName pc) \<notin> set seen"
    and "\<forall>pc\<in>set ps. \<forall>l\<in>set (pcLimits pc). wf_map (limitMaxResources l)"
  shows "validatePartitions cpuName compiles ps seen = Inr ps"
  using assms
proof (induction ps arbitrary: seen)
  case (Cons pc ps)
  have "validatePartitions cpuName compiles ps (ToLower (pcName pc) # seen) = Inr ps"
    using Cons.prems by (intro Cons.IH) (auto simp: image_iff)
  moreover have "(if pcName pc = [] \<or> ToLower (pcName pc) = ''default'' then pc\<lparr>pcName := ''default''\<rparr> else pc) = pc"
    using Cons.prems(5) by auto
  ultimately show ?case using Cons.prems revalidate_partition [of pc] by (simp add: Let_def)
qed simp

section \<open>The resources of the tree\<close>

lemma parse_nonneg: "parse s milli = Inr q \<Longrightarrow> 0 \<le> qval q"
proof -
  assume run: "parse s milli = Inr q"
  have scale: "map_of multipliers sfx = Some x \<Longrightarrow> 0 \<le> x" for sfx x
    by (auto simp: multipliers_def split: if_splits)
  show ?thesis
    using run
    by (auto simp: parse_def ParseInt_def Let_def qval_of_int wrap64_id split: option.splits if_splits dest!: scale)
qed

lemma conf_loop_nonneg:
  assumes "newResourceFromConf_loop cpuName m acc = Inr r" "nonneg_res (Some acc)"
  shows "nonneg_res (Some r)"
  using assms
proof (induction m arbitrary: acc)
  case (Cons p m)
  obtain k v where p: "p = (k, v)" by fastforce
  obtain q where q: "(if k = cpuName then ParseVCore v else ParseQuantity v) = Inr q"
    using Cons.prems(1) by (auto simp: p split: sum.splits)
  then have "0 \<le> qval q" by (auto simp: ParseVCore_def ParseQuantity_def parse_nonneg split: if_splits)
  then have "nonneg_res (Some (AList.update k q acc))"
    using Cons.prems(2) by (auto simp: nonneg_res_def wf_res_def amount_def map_get_def update_conv' wf_intros)
  then show ?case using Cons.IH Cons.prems(1) q by (simp add: p)
qed simp

lemma conf_nonneg: "NewResourceFromConf cpuName m = Inr r \<Longrightarrow> nonneg_res (Some r)"
  unfolding NewResourceFromConf_def
  by (erule conf_loop_nonneg) (simp add: nonneg_res_def wf_res_def amount_def NewResource_def map_get_def)


lemma conf_side_nonneg: "nonneg_res (conf_guaranteed cpuName q)" "nonneg_res (conf_max cpuName q)"
  by (auto simp: conf_guaranteed_def conf_max_def conf_nonneg split: sum.split)
    (simp_all add: nonneg_res_def wf_res_def amount_def)

lemma conf_resources:
  assumes "checkResourceConfig cpuName q = Inr (g, m)"
  shows "g = conf_guaranteed cpuName q" "m = conf_max cpuName q" "nonneg_res g" "nonneg_res m" "FitInMaxUndef m g"
  using assms
  by (auto simp: checkResourceConfig_def conf_guaranteed_def conf_max_def conf_nonneg split: sum.splits if_splits)

lemma checkQueueResource_eq:
  "checkQueueResource cpuName q parentM =
     (case checkResourceConfig cpuName q of
        Inl err \<Rightarrow> Inl err
      | Inr (curG, curM) \<Rightarrow>
          if \<not> FitInMaxUndef parentM curM then Inl (ResourcesError ''max above parent'' (confName q))
          else
            case checkChildren cpuName (confQueues q) (ComponentWiseMin curM parentM) (Some NewResource) of
              Inl err \<Rightarrow> Inl err
            | Inr sumG \<Rightarrow> checkGuaranteed (confName q) curG (ComponentWiseMin curM parentM) sumG)"
  by (cases q) (simp add: Let_def split: sum.split prod.split)

text \<open>The checks that a successful run has passed.\<close>

lemma checkQueueResource_run:
  assumes "checkQueueResource cpuName q parentM = Inr g"
  obtains sumG where "checkResourceConfig cpuName q = Inr (conf_guaranteed cpuName q, conf_max cpuName q)"
    "FitInMaxUndef parentM (conf_max cpuName q)"
    "checkChildren cpuName (confQueues q) (ComponentWiseMin (conf_max cpuName q) parentM) (Some NewResource) = Inr sumG"
    "FitInMaxUndef (conf_guaranteed cpuName q) sumG"
    "FitInMaxUndef (ComponentWiseMin (conf_max cpuName q) parentM) sumG"
    "g = (if IsZero (conf_guaranteed cpuName q) then sumG else conf_guaranteed cpuName q)"
proof -
  obtain cg cm where c: "checkResourceConfig cpuName q = Inr (cg, cm)"
    using assms by (auto simp: checkQueueResource_eq split: sum.splits)
  note e = conf_resources(1,2) [OF c]
  show thesis
    using assms c that
    by (auto simp: checkQueueResource_eq checkGuaranteed_def e [symmetric] split: sum.splits if_splits)
qed

lemma checkChildren_run:
  assumes "checkChildren cpuName queues curM acc = Inr sumG" "nonneg_res acc" "acc \<noteq> None"
    and "\<And>c g. c \<in> set queues \<Longrightarrow> checkQueueResource cpuName c curM = Inr g \<Longrightarrow>
      nonneg_res g \<and> (\<forall>k. amount (conf_guaranteed cpuName c) k \<le> amount g k)"
  shows "(\<forall>c\<in>set queues. \<exists>g. checkQueueResource cpuName c curM = Inr g) \<and> nonneg_res sumG \<and> sumG \<noteq> None \<and>
    (\<forall>k. min max_int64 (amount acc k + (\<Sum>c\<leftarrow>queues. amount (conf_guaranteed cpuName c) k)) \<le> amount sumG k)"
  using assms
proof (induction queues arbitrary: acc)
  case Nil
  then show ?case by simp
next
  case (Cons c queues)
  obtain g where g: "checkQueueResource cpuName c curM = Inr g" "checkChildren cpuName queues curM (AddTo acc g) = Inr sumG"
    using Cons.prems(1) by (auto split: sum.splits)
  have ng: "nonneg_res g" "\<And>k. amount (conf_guaranteed cpuName c) k \<le> amount g k"
    using Cons.prems(4) [OF _ g(1)] by simp_all
  have add: "amount (AddTo acc g) k = min max_int64 (amount acc k + amount g k)" for k
    using Cons.prems(2,3) ng(1) nonneg_resD(2) [OF Cons.prems(2), of k] nonneg_resD(2) [OF ng(1), of k]
    by (simp add: amount_simps nonneg_resD(1) sat64_def)
  have acc': "nonneg_res (AddTo acc g)" "AddTo acc g \<noteq> None"
    using Cons.prems(2,3) ng(1) by (auto simp: nonneg_res_def add wf_intros)
  have IH: "(\<forall>c\<in>set queues. \<exists>g. checkQueueResource cpuName c curM = Inr g) \<and> nonneg_res sumG \<and> sumG \<noteq> None \<and>
    (\<forall>k. min max_int64 (amount (AddTo acc g) k + (\<Sum>c\<leftarrow>queues. amount (conf_guaranteed cpuName c) k)) \<le> amount sumG k)"
    by (rule Cons.IH [OF g(2) acc']) (use Cons.prems(4) in \<open>meson list.set_intros(2)\<close>)
  have "min max_int64 (amount acc k + (\<Sum>c\<leftarrow>c # queues. amount (conf_guaranteed cpuName c) k)) \<le> amount sumG k" for k
  proof -
    have "0 \<le> amount sumG k" using IH by (simp add: nonneg_resD)
    have "min max_int64 (amount (AddTo acc g) k + (\<Sum>c\<leftarrow>queues. amount (conf_guaranteed cpuName c) k)) \<le> amount sumG k"
      using IH by simp
    moreover have "0 \<le> (\<Sum>c\<leftarrow>queues. amount (conf_guaranteed cpuName c) k)"
      by (rule sum_list_nonneg) (auto simp: nonneg_resD conf_side_nonneg)
    ultimately show ?thesis using ng(2) [of k] by (auto simp: add min_def split: if_splits)
  qed
  then show ?case using IH g(1) by auto
qed

lemma new_resource: "nonneg_res (Some NewResource)" "Some NewResource \<noteq> None" "amount (Some NewResource) k = 0"
  by (simp_all add: nonneg_res_def wf_res_def amount_def NewResource_def map_get_def)

text \<open>The guaranteed resource that a queue hands to its parent is at least the configured one.\<close>

lemma checkQueueResource_bound:
  assumes "checkQueueResource cpuName q M = Inr g"
  shows "nonneg_res g \<and> (\<forall>k. amount (conf_guaranteed cpuName q) k \<le> amount g k)"
  using assms
proof (induction q arbitrary: M g rule: queue_induct)
  case (queue q)
  let ?G = "conf_guaranteed cpuName q"
  obtain sumG where run:
    "checkChildren cpuName (confQueues q) (ComponentWiseMin (conf_max cpuName q) M) (Some NewResource) = Inr sumG"
    "g = (if IsZero ?G then sumG else ?G)"
    by (rule checkQueueResource_run [OF queue.prems])
  have "nonneg_res sumG" using checkChildren_run [OF run(1) new_resource(1,2)] queue.IH by blast
  moreover have "IsZero ?G \<Longrightarrow> amount ?G k = 0" for k
    using conf_side_nonneg by (simp add: IsZero_iff nonneg_resD)
  ultimately show ?case using run(2) conf_side_nonneg by (auto simp: nonneg_resD)
qed

text \<open>A bound on the sum that was accumulated bounds the sum over the children.\<close>

lemma sum_bound:
  assumes "FitInMaxUndef b sumG" "nonneg_res sumG" "nonneg_res b" "res_has b k"
    and "s \<le> amount sumG k"
  shows "s \<le> amount b k"
proof (cases "res_has sumG k")
  case True
  then have "amount sumG k \<le> max 0 (amount b k)" using assms by (simp add: FitInMaxUndef_iff nonneg_resD)
  then show ?thesis using assms(5) nonneg_resD(2) [OF assms(3), of k] by simp
next
  case False
  then show ?thesis using assms(5) nonneg_resD(2) [OF assms(3), of k] by (simp add: amount_undefined)
qed

lemma checkQueueResource_children:
  assumes "checkQueueResource cpuName q M = Inr g" "wf_res M"
  defines "M' \<equiv> ComponentWiseMin (conf_max cpuName q) M"
    and "s \<equiv> \<lambda>k. min max_int64 (\<Sum>c\<leftarrow>confQueues q. amount (conf_guaranteed cpuName c) k)"
  shows "wf_res M'" "\<And>c. c \<in> set (confQueues q) \<Longrightarrow> \<exists>g. checkQueueResource cpuName c M' = Inr g"
    "\<And>c. c \<in> set (confQueues q) \<Longrightarrow> FitInMaxUndef M' (conf_guaranteed cpuName c)"
    "\<And>k. res_has (conf_guaranteed cpuName q) k \<Longrightarrow> s k \<le> amount (conf_guaranteed cpuName q) k"
    "\<And>k. res_has (conf_max cpuName q) k \<Longrightarrow> s k \<le> amount (conf_max cpuName q) k"
proof -
  let ?G = "conf_guaranteed cpuName" and ?X = "conf_max cpuName"
  obtain sumG where run: "checkChildren cpuName (confQueues q) M' (Some NewResource) = Inr sumG"
    "FitInMaxUndef (?G q) sumG" "FitInMaxUndef M' sumG"
    unfolding M'_def by (rule checkQueueResource_run [OF assms(1)])
  have wf: "wf_res (?X x)" "wf_res (?G x)" for x using conf_side_nonneg by (auto simp: nonneg_resD)
  show wfM: "wf_res M'" using wf assms(2) by (simp add: M'_def wf_intros)
  have kids: "(\<forall>c\<in>set (confQueues q). \<exists>g. checkQueueResource cpuName c M' = Inr g) \<and> nonneg_res sumG \<and> sumG \<noteq> None \<and>
    (\<forall>k. min max_int64 (amount (Some NewResource) k + (\<Sum>c\<leftarrow>confQueues q. amount (?G c) k)) \<le> amount sumG k)"
    by (rule checkChildren_run [OF run(1) new_resource(1,2)]) (rule checkQueueResource_bound)
  have sums: "s k \<le> amount sumG k" for k using kids unfolding new_resource(3) s_def by simp
  show "\<exists>g. checkQueueResource cpuName c M' = Inr g" if "c \<in> set (confQueues q)" for c using kids that by blast
  show "s k \<le> amount (?G q) k" if "res_has (?G q) k" for k
    using sum_bound [OF run(2) _ conf_side_nonneg(1) that sums] kids by simp
  have "FitInMaxUndef (?X q) sumG"
    using run(3) FitInMaxUndef_ComponentWiseMin [OF wf(1) assms(2), of sumG q] kids by (simp add: M'_def nonneg_resD)
  then show "s k \<le> amount (?X q) k" if "res_has (?X q) k" for k
    using sum_bound [OF _ _ conf_side_nonneg(2) that sums] kids by simp
  show "FitInMaxUndef M' (?G c)" if c: "c \<in> set (confQueues q)" for c
    unfolding FitInMaxUndef_iff [OF wf(2)]
  proof (intro allI impI)
    fix k assume has: "res_has M' k"
    have "amount (?G c) k \<le> (\<Sum>c\<leftarrow>confQueues q. amount (?G c) k)"
      using c by (intro member_le_sum_list) (auto simp: nonneg_resD conf_side_nonneg)
    then have "amount (?G c) k \<le> s k" using amount_bounds(2) [of "?G c" k] by (simp add: s_def)
    also have "\<dots> \<le> amount sumG k" by (rule sums)
    also have "\<dots> \<le> max 0 (amount M' k)"
      using run(3) kids has by (cases "res_has sumG k") (auto simp: FitInMaxUndef_iff nonneg_resD amount_undefined)
    finally show "amount (?G c) k \<le> max 0 (amount M' k)" .
  qed
qed

text \<open>The maximum of the parents bounds the maximum of every queue below and, except for the top one, the
  guaranteed resource.\<close>

lemma checkQueueResource_nest:
  assumes "checkQueueResource cpuName q M = Inr g" "wf_res M" "x \<in> set (subqueues q)"
  shows "FitInMaxUndef M (conf_max cpuName x)" "x = q \<or> FitInMaxUndef M (conf_guaranteed cpuName x)"
    "\<exists>M' g'. checkQueueResource cpuName x M' = Inr g' \<and> wf_res M'"
proof -
  have "FitInMaxUndef M (conf_max cpuName x) \<and> (x = q \<or> FitInMaxUndef M (conf_guaranteed cpuName x)) \<and>
      (\<exists>M' g'. checkQueueResource cpuName x M' = Inr g' \<and> wf_res M')"
    using assms
  proof (induction q arbitrary: M g rule: queue_induct)
    case (queue q)
    let ?M = "ComponentWiseMin (conf_max cpuName q) M"
    have wf: "wf_res (conf_max cpuName x)" "wf_res (conf_guaranteed cpuName x)" for x
      using conf_side_nonneg by (auto simp: nonneg_resD)
    have min: "FitInMaxUndef ?M s \<Longrightarrow> FitInMaxUndef M s" if "wf_res s" for s
      using FitInMaxUndef_ComponentWiseMin [OF wf(1) queue.prems(2) that] by simp
    from queue.prems(3) show ?case
    proof (cases rule: subqueues_cases)
      case 1
      moreover have "FitInMaxUndef M (conf_max cpuName q)"
        by (rule checkQueueResource_run [OF queue.prems(1)])
      ultimately show ?thesis using queue.prems(1,2) by blast
    next
      case (2 c)
      note kids = checkQueueResource_children [OF queue.prems(1,2)]
      obtain gc where "checkQueueResource cpuName c ?M = Inr gc" using kids(2) [OF 2(1)] by blast
      from queue.IH [OF 2(1) this kids(1) 2(2)] kids(3) [OF 2(1)] show ?thesis
        using min wf by blast
    qed
  qed
  then show "FitInMaxUndef M (conf_max cpuName x)" "x = q \<or> FitInMaxUndef M (conf_guaranteed cpuName x)"
    "\<exists>M' g'. checkQueueResource cpuName x M' = Inr g' \<and> wf_res M'" by blast+
qed

definition nested :: "string \<Rightarrow> queueConfig \<Rightarrow> bool" where
  "nested cpuName q \<longleftrightarrow>
     (\<forall>x\<in>set (subqueues q). FitInMaxUndef (conf_max cpuName q) (conf_max cpuName x) \<and>
        FitInMaxUndef (conf_max cpuName q) (conf_guaranteed cpuName x)) \<and>
     (\<forall>k. let s = min max_int64 (\<Sum>c\<leftarrow>confQueues q. amount (conf_guaranteed cpuName c) k)
          in (res_has (conf_guaranteed cpuName q) k \<longrightarrow> s \<le> amount (conf_guaranteed cpuName q) k) \<and>
             (res_has (conf_max cpuName q) k \<longrightarrow> s \<le> amount (conf_max cpuName q) k))"

lemma checkQueueResource_nested:
  assumes "checkQueueResource cpuName q M = Inr g" "wf_res M"
  shows "nested cpuName q"
proof -
  let ?G = "conf_guaranteed cpuName" and ?X = "conf_max cpuName"
  note kids = checkQueueResource_children [OF assms]
  have wf: "wf_res (?X x)" "wf_res (?G x)" for x using conf_side_nonneg by (auto simp: nonneg_resD)
  have min: "FitInMaxUndef (ComponentWiseMin (?X q) M) s \<Longrightarrow> FitInMaxUndef (?X q) s" if "wf_res s" for s
    using FitInMaxUndef_ComponentWiseMin [OF wf(1) assms(2) that] by simp
  have "FitInMaxUndef (?X q) (?X x) \<and> FitInMaxUndef (?X q) (?G x)" if "x \<in> set (subqueues q)" for x
    using that
  proof (cases rule: subqueues_cases)
    case 1
    have "checkResourceConfig cpuName q = Inr (?G q, ?X q)" by (rule checkQueueResource_run [OF assms(1)])
    then have "FitInMaxUndef (?X q) (?G q)" by (rule conf_resources(5))
    then show ?thesis using 1 by (simp add: FitInMaxUndef_iff wf)
  next
    case (2 c)
    obtain gc where gc: "checkQueueResource cpuName c (ComponentWiseMin (?X q) M) = Inr gc" using kids(2) [OF 2(1)] by blast
    show ?thesis using checkQueueResource_nest(1,2) [OF gc kids(1) 2(2)] kids(3) [OF 2(1)] min wf by blast
  qed
  then show ?thesis using kids(4,5) by (simp add: nested_def Let_def)
qed

section \<open>An example\<close>

definition exampleQueue :: "string \<Rightarrow> string gomap \<Rightarrow> string gomap \<Rightarrow> nat \<Rightarrow> queueConfig list \<Rightarrow> queueConfig" where
  "exampleQueue name g m apps queues =
     QueueConfig name (queues \<noteq> []) \<lparr>confGuaranteed = g, confMax = m\<rparr> apps [] [] []
       \<lparr>ctMaxApplications = 0, ctProperties = [], ctResources = \<lparr>confGuaranteed = [], confMax = []\<rparr>\<rparr> queues []"

definition examplePartition :: PartitionConfig where
  "examplePartition =
     \<lparr>pcName = [], pcQueues = Some [exampleQueue ''a'' [] [(''memory'', ''10'')] 5
        [exampleQueue ''b'' [(''memory'', ''4'')] [(''memory'', ''8'')] 3 [],
         exampleQueue ''c'' [(''memory'', ''6'')] [] 1 []]],
      pcPlacementRules = [], pcLimits = [], pcNodeSortPolicy = \<lparr>nspType = ''fair'', nspResourceWeights = []\<rparr>\<rparr>"

definition exampleValidated :: "PartitionConfig list" where
  "exampleValidated =
     [examplePartition\<lparr>pcName := ''default'', pcQueues := map_option (\<lambda>qs. [newRoot qs]) (pcQueues examplePartition)\<rparr>]"

lemma example_valid: "Validate ''vcore'' (\<lambda>_. True) (Some [examplePartition]) = Inr exampleValidated"
  by code_simp

section \<open>Properties\<close>

text \<open>
  C16. A configuration that passes validation is well formed. The names of the partitions are set and distinct
  up to case. Every partition has a single queue at the top, named root up to case, a parent, without
  resource limits. In its whole tree the names of queues are valid and the children of a queue have distinct names up to
  case, and below a queue with a limit on applications every queue has a positive limit that is not larger.
\<close>

theorem validated_configuration_well_formed:
  assumes "Validate cpuName compiles config = Inr ps"
  shows "distinct (map (\<lambda>pc. ToLower (pcName pc)) ps) \<and>
    (\<forall>pc\<in>set ps. pcName pc \<noteq> [] \<and>
      (\<exists>root. pcQueues pc = Some [root] \<and> ToLower (confName root) = ''root'' \<and> confParent root \<and>
        confGuaranteed (confResources root) = [] \<and> confMax (confResources root) = [] \<and>
        (\<forall>q\<in>set (subqueues root).
          (\<forall>c\<in>set (confQueues q). IsQueueNameValid (confName c)) \<and>
          distinct (map (\<lambda>c. ToLower (confName c)) (confQueues q)) \<and>
          (confMaxApplications q \<noteq> 0 \<longrightarrow>
            (\<forall>c\<in>set (confQueues q). 0 < confMaxApplications c \<and> confMaxApplications c \<le> confMaxApplications q)))))"
proof -
  obtain ps0 where "validatePartitions cpuName compiles ps0 [] = Inr ps"
    using assms by (auto simp: Validate_def split: option.splits)
  from validatePartitions_ok [OF this] show ?thesis
    by (auto simp: list_all_iff root_ok_def level_ok_def RootQueue_def)
qed

theorem validated_configuration_well_formed_witness:
  "Validate ''vcore'' (\<lambda>_. True) (Some [examplePartition]) = Inr exampleValidated \<and>
   (\<exists>root. pcQueues (hd exampleValidated) = Some [root] \<and> ToLower (confName root) = ''root'' \<and>
      (\<forall>q\<in>set (subqueues root). distinct (map (\<lambda>c. ToLower (confName c)) (confQueues q))))"
proof -
  have "hd exampleValidated \<in> set exampleValidated" by (simp add: exampleValidated_def)
  then show ?thesis using validated_configuration_well_formed [OF example_valid] example_valid by blast
qed



text \<open>
  C40. Validation is idempotent: a configuration that passed, with the root queue and the limits that the first pass
  filled in, passes again and is not changed any more.
\<close>

theorem validation_idempotent:
  assumes "Validate cpuName compiles config = Inr ps"
    and "\<forall>pc\<in>set (case config of Some cs \<Rightarrow> cs | None \<Rightarrow> []). \<forall>l\<in>set (pcLimits pc). wf_map (limitMaxResources l)"
  shows "Validate cpuName compiles (Some ps) = Inr ps"
proof -
  obtain ps0 where c: "config = Some ps0" "validatePartitions cpuName compiles ps0 [] = Inr ps"
    using assms(1) by (auto simp: Validate_def split: option.splits)
  note ok = validatePartitions_ok [OF c(2)]
  have same: "pcLimits ` set ps = pcLimits ` set ps0" using ok by (metis list.set_map)
  have "\<forall>pc\<in>set ps. \<forall>l\<in>set (pcLimits pc). wf_map (limitMaxResources l)"
  proof (intro ballI)
    fix pc l assume "pc \<in> set ps" "l \<in> set (pcLimits pc)"
    moreover obtain pc0 where "pc0 \<in> set ps0" "pcLimits pc = pcLimits pc0"
      using same \<open>pc \<in> set ps\<close> by (metis imageE imageI)
    ultimately show "wf_map (limitMaxResources l)" using assms(2) c(1) by simp
  qed
  then show ?thesis using revalidate [of ps cpuName compiles "[]"] ok by (simp add: Validate_def)
qed


theorem validation_idempotent_witness:
  "Validate ''vcore'' (\<lambda>_. True) (Some exampleValidated) = Inr exampleValidated"
  by (rule validation_idempotent [OF example_valid]) (simp add: examplePartition_def)

end
