(* ===== verification/Allocations.thy ===== *)
theory Allocations
  imports Resources GoStrings "HOL-Library.Multiset"
begin

text \<open>
  Allocations and asks (\<open>pkg/scheduler/objects/allocation.go\<close>) and the sorted list of the asks of
  an application (\<open>pkg/scheduler/objects/sorted_asks.go\<close>).

  An allocation object is a record; a pointer to another allocation is its address in a store. The scheduler
  interface message that describes an allocation is a record of the fields that are read, and the
  tag names of the interface are a parameter. Times are nanoseconds, \<open>None\<close> is the zero time; the
  events that the setters send are left out.
\<close>

section \<open>Allocations\<close>

record alloc_log_entry =
  logMessage :: string
  LastOccurrence :: gotime
  logCount :: int

record alloc =
  allocationKey :: string
  applicationID :: string
  taskGroupName :: string
  placeholder :: bool
  createTime :: int
  priority :: int
  requiredNode :: string
  allowPreemptSelf :: bool
  allowPreemptOther :: bool
  originator :: bool
  tags :: "string gomap"
  foreign :: bool
  preemptable :: bool
  allocated :: bool
  allocLog :: "alloc_log_entry gomap"
  preemptionTriggered :: bool
  preemptCheckTime :: gotime
  schedulingAttempted :: bool
  scaleUpTriggered :: bool
  allocRes :: "resource option"
  userQuotaCheckFailed :: bool
  headroomCheckFailed :: bool
  allocNodeID :: string
  bindTime :: gotime
  placeholderUsed :: bool
  placeholderCreateTime :: gotime
  released :: bool
  release :: "nat option"
  preempted :: bool
  instType :: string

section \<open>Creation from the scheduler interface\<close>

record si_alloc =
  siAllocationKey :: string
  siApplicationID :: string
  siNodeID :: string
  siResource :: "resource option"
  siTags :: "string gomap"
  siPriority :: int
  siPlaceholder :: bool
  siTaskGroupName :: string
  siAllowPreemptSelf :: bool
  siAllowPreemptOther :: bool
  siOriginator :: bool

record si_names =
  siCreationTime :: string
  siForeign :: string
  siAllocTypeStatic :: string
  siRequiredNode :: string

definition GetRequiredNodeFromTag :: "si_names \<Rightarrow> string gomap \<Rightarrow> string" where
  "GetRequiredNodeFromTag si tagMap = map_get [] tagMap (siRequiredNode si)"

definition CloneAllocationTags :: "string gomap \<Rightarrow> string gomap" where
  "CloneAllocationTags tagMap = range_update (\<lambda>_ _ v. v) [] tagMap []"

definition NewAllocationFromSI :: "si_names \<Rightarrow> int \<Rightarrow> si_alloc option \<Rightarrow> alloc option" where
  "NewAllocationFromSI si now sia =
     (case sia of
        None \<Rightarrow> None
      | Some a \<Rightarrow>
          if siPlaceholder a \<and> siTaskGroupName a = [] then None
          else
            let create = (case ParseIntBits 64 (map_get [] (siTags a) (siCreationTime si)) of
                            None \<Rightarrow> now | Some t \<Rightarrow> t * 10 ^ 9);
                foreignTag = map_of (siTags a) (siForeign si);
                bound = siNodeID a \<noteq> []
            in Some
                 \<lparr>allocationKey = siAllocationKey a, applicationID = siApplicationID a,
                  taskGroupName = siTaskGroupName a, placeholder = siPlaceholder a,
                  createTime = create, priority = siPriority a,
                  requiredNode = GetRequiredNodeFromTag si (siTags a),
                  allowPreemptSelf = siAllowPreemptSelf a,
                  allowPreemptOther = siAllowPreemptOther a, originator = siOriginator a,
                  tags = CloneAllocationTags (siTags a), foreign = foreignTag \<noteq> None,
                  preemptable = foreignTag \<noteq> Some (siAllocTypeStatic si),
                  allocated = bound, allocLog = [], preemptionTriggered = False,
                  preemptCheckTime = None, schedulingAttempted = False, scaleUpTriggered = False,
                  allocRes = siResource a, userQuotaCheckFailed = False,
                  headroomCheckFailed = False, allocNodeID = siNodeID a,
                  bindTime = (if bound then Some now else None), placeholderUsed = False,
                  placeholderCreateTime = None, released = False, release = None,
                  preempted = False, instType = []\<rparr>)"

section \<open>State of an allocation\<close>

datatype alloc_error = AlreadyPreempted | AlreadyReleased

definition SetReleased :: "alloc \<Rightarrow> bool \<Rightarrow> alloc \<times> alloc_error option" where
  "SetReleased a rel =
     (if rel \<and> preempted a then (a, Some AlreadyPreempted) else (a\<lparr>released := rel\<rparr>, None))"

definition MarkPreempted :: "alloc \<Rightarrow> alloc \<times> alloc_error option" where
  "MarkPreempted a =
     (if released a then (a, Some AlreadyReleased) else (a\<lparr>preempted := True\<rparr>, None))"

definition MarkUnPreempted :: "alloc \<Rightarrow> alloc" where
  "MarkUnPreempted a = a\<lparr>preempted := False\<rparr>"

definition allocate :: "alloc \<Rightarrow> alloc \<times> bool" where
  "allocate a = (if allocated a then (a, False) else (a\<lparr>allocated := True\<rparr>, True))"

definition deallocate :: "alloc \<Rightarrow> alloc \<times> bool" where
  "deallocate a = (if \<not> allocated a then (a, False) else (a\<lparr>allocated := False\<rparr>, True))"

definition SetRelease :: "alloc \<Rightarrow> nat \<Rightarrow> alloc" where
  "SetRelease a r = a\<lparr>release := Some r\<rparr>"

definition ClearRelease :: "alloc \<Rightarrow> alloc" where
  "ClearRelease a = a\<lparr>release := None\<rparr>"

definition HasRelease :: "alloc \<Rightarrow> bool" where
  "HasRelease a \<longleftrightarrow> release a \<noteq> None"

text \<open>The increment of an int32 wraps around.\<close>

definition inc32 :: "int \<Rightarrow> int" where
  "inc32 n = (n + 1 + 2 ^ 31) mod 2 ^ 32 - 2 ^ 31"

definition LogAllocationFailure :: "int \<Rightarrow> alloc \<Rightarrow> string \<Rightarrow> bool \<Rightarrow> alloc" where
  "LogAllocationFailure now a message forAllocate =
     (if \<not> forAllocate then a
      else let entry = map_get \<lparr>logMessage = message, LastOccurrence = None, logCount = 0\<rparr>
                         (allocLog a) message;
               entry = entry\<lparr>LastOccurrence := Some now, logCount := inc32 (logCount entry)\<rparr>
           in a\<lparr>allocLog := AList.update message entry (allocLog a)\<rparr>)"

text \<open>The checks send an event only when their outcome changes; the flag says which was last.\<close>

definition setHeadroomCheckFailed :: "alloc \<Rightarrow> alloc \<times> bool" where
  "setHeadroomCheckFailed a =
     (if \<not> headroomCheckFailed a then (a\<lparr>headroomCheckFailed := True\<rparr>, True) else (a, False))"

definition setHeadroomCheckPassed :: "alloc \<Rightarrow> alloc \<times> bool" where
  "setHeadroomCheckPassed a =
     (if headroomCheckFailed a then (a\<lparr>headroomCheckFailed := False\<rparr>, True) else (a, False))"

definition setUserQuotaCheckFailed :: "alloc \<Rightarrow> alloc \<times> bool" where
  "setUserQuotaCheckFailed a =
     (if \<not> userQuotaCheckFailed a then (a\<lparr>userQuotaCheckFailed := True\<rparr>, True) else (a, False))"

definition setUserQuotaCheckPassed :: "alloc \<Rightarrow> alloc \<times> bool" where
  "setUserQuotaCheckPassed a =
     (if userQuotaCheckFailed a then (a\<lparr>userQuotaCheckFailed := False\<rparr>, True) else (a, False))"

definition LessThan :: "alloc \<Rightarrow> alloc \<Rightarrow> bool" where
  "LessThan a other =
     (if priority a = priority other then createTime a > createTime other \<or> createTime a = createTime other
      else priority a < priority other)"

section \<open>The sorted list of asks\<close>

text \<open>\<open>sort.Search\<close> of the standard library: binary search for the first index with the property.\<close>

function Search_loop :: "(nat \<Rightarrow> bool) \<Rightarrow> nat \<Rightarrow> nat \<Rightarrow> nat" where
  "Search_loop f i j =
     (if i < j
      then let m = (i + j) div 2 in if \<not> f m then Search_loop f (m + 1) j else Search_loop f i m
      else i)"
  by pat_completeness auto
termination by (relation "measure (\<lambda>(f, i, j). j - i)") auto

definition Search :: "nat \<Rightarrow> (nat \<Rightarrow> bool) \<Rightarrow> nat" where
  "Search n f = Search_loop f 0 n"

definition insertAt :: "'a list \<Rightarrow> nat \<Rightarrow> 'a \<Rightarrow> 'a list" where
  "insertAt s index ask = take index s @ ask # drop index s"

definition insertIndex :: "alloc list \<Rightarrow> alloc \<Rightarrow> nat" where
  "insertIndex s ask =
     (let size = length s
      in if size > 0 \<and> LessThan ask (s ! (size - 1)) then size
         else Search size (\<lambda>i. LessThan (s ! i) ask))"

definition sorted_insert :: "alloc list \<Rightarrow> alloc \<Rightarrow> alloc list" where
  "sorted_insert s ask = insertAt s (insertIndex s ask) ask"

definition removeAt :: "'a list \<Rightarrow> nat \<Rightarrow> 'a list" where
  "removeAt s index = take index s @ drop (index + 1) s"

fun sorted_remove_loop :: "alloc list \<Rightarrow> nat \<Rightarrow> alloc list \<Rightarrow> alloc \<Rightarrow> alloc list" where
  "sorted_remove_loop s i [] ask = s"
| "sorted_remove_loop s i (a # as) ask =
     (if allocationKey a = allocationKey ask then removeAt s i
      else sorted_remove_loop s (i + 1) as ask)"

definition sorted_remove :: "alloc list \<Rightarrow> alloc \<Rightarrow> alloc list" where
  "sorted_remove s ask = sorted_remove_loop s 0 s ask"

section \<open>Specification vocabulary\<close>

text \<open>No ask is preceded by one that it should precede: higher priority first, then older first.\<close>

definition requests_sorted :: "alloc list \<Rightarrow> bool" where
  "requests_sorted s \<longleftrightarrow> sorted_wrt (\<lambda>a b. LessThan b a) s"

text \<open>The list without the first ask with a key.\<close>

fun remove1_key :: "string \<Rightarrow> alloc list \<Rightarrow> alloc list" where
  "remove1_key k [] = []"
| "remove1_key k (a # s) = (if allocationKey a = k then s else a # remove1_key k s)"

text \<open>The steps that mark a bound allocation for release or for preemption.\<close>

datatype mark = Release bool | Preempt | UnPreempt

fun apply_mark :: "mark \<Rightarrow> alloc \<Rightarrow> alloc" where
  "apply_mark (Release b) a = fst (SetReleased a b)"
| "apply_mark Preempt a = fst (MarkPreempted a)"
| "apply_mark UnPreempt a = MarkUnPreempted a"

definition exampleAsk :: "string \<Rightarrow> int \<Rightarrow> int \<Rightarrow> alloc" where
  "exampleAsk key prio created =
     \<lparr>allocationKey = key, applicationID = ''app-1'', taskGroupName = [], placeholder = False,
      createTime = created, priority = prio, requiredNode = [], allowPreemptSelf = True,
      allowPreemptOther = False, originator = False, tags = [], foreign = False,
      preemptable = True, allocated = False, allocLog = [], preemptionTriggered = False,
      preemptCheckTime = None, schedulingAttempted = False, scaleUpTriggered = False,
      allocRes = Some [(''cpu'', Quantity 1)], userQuotaCheckFailed = False,
      headroomCheckFailed = False, allocNodeID = [], bindTime = None, placeholderUsed = False,
      placeholderCreateTime = None, released = False, release = None, preempted = False,
      instType = []\<rparr>"

section \<open>Lemmas\<close>

declare Search_loop.simps [simp del]

lemma LessThan_iff:
  "LessThan a b \<longleftrightarrow>
   priority a < priority b \<or> (priority a = priority b \<and> createTime b \<le> createTime a)"
  by (auto simp: LessThan_def)

lemma LessThan_refl [simp]: "LessThan a a"
  and LessThan_trans: "LessThan a b \<Longrightarrow> LessThan b c \<Longrightarrow> LessThan a c"
  and LessThan_total: "LessThan a b \<or> LessThan b a"
  by (auto simp: LessThan_iff)

lemma Search_loop_spec:
  assumes "i \<le> j" "\<forall>k<i. \<not> f k" "\<forall>k. j \<le> k \<and> k < n \<longrightarrow> f k"
    and "\<forall>k l. k \<le> l \<and> l < n \<and> f k \<longrightarrow> f l" "j \<le> n"
  shows "Search_loop f i j \<le> n \<and> (\<forall>k<Search_loop f i j. \<not> f k) \<and>
    (\<forall>k. Search_loop f i j \<le> k \<and> k < n \<longrightarrow> f k)"
  using assms
proof (induction f i j rule: Search_loop.induct)
  case (1 f i j)
  note IH = "1.IH" and prems = "1.prems"
  show ?case
  proof (cases "i < j")
    case True
    define m where "m = (i + j) div 2"
    have m: "i \<le> m" "m < j" using True by (auto simp: m_def)
    show ?thesis
    proof (cases "f m")
      case fm: True
      have eq: "Search_loop f i j = Search_loop f i m"
        using True fm by (subst Search_loop.simps) (simp add: m_def)
      have up: "\<forall>k. m \<le> k \<and> k < n \<longrightarrow> f k" using prems(4) fm by blast
      show ?thesis unfolding eq
        by (rule IH(2) [OF True m_def]) (use fm m up prems in auto)
    next
      case fm: False
      have eq: "Search_loop f i j = Search_loop f (m + 1) j"
        using True fm by (subst Search_loop.simps) (simp add: m_def)
      have low: "\<not> f k" if "k < m + 1" for k
        using prems(4,5) fm m that by (metis Suc_eq_plus1 less_Suc_eq_le order_less_le_trans)
      show ?thesis unfolding eq
        by (rule IH(1) [OF True m_def]) (use fm m low prems in auto)
    qed
  next
    case False
    then have "Search_loop f i j = i" by (subst Search_loop.simps) simp
    with False prems show ?thesis by auto
  qed
qed

lemma Search_spec:
  assumes "\<forall>k l. k \<le> l \<and> l < n \<and> f k \<longrightarrow> f l"
  shows "Search n f \<le> n \<and> (\<forall>k<Search n f. \<not> f k) \<and> (\<forall>k. Search n f \<le> k \<and> k < n \<longrightarrow> f k)"
  unfolding Search_def using assms by (intro Search_loop_spec) auto

lemma sorted_wrt_insert_mid:
  assumes "sorted_wrt R (xs @ ys)" "\<forall>x\<in>set xs. R x a" "\<forall>y\<in>set ys. R a y"
  shows "sorted_wrt R (xs @ a # ys)"
  using assms by (auto simp: sorted_wrt_append)

lemma sorted_wrt_remove_mid: "sorted_wrt R (xs @ a # ys) \<Longrightarrow> sorted_wrt R (xs @ ys)"
  by (auto simp: sorted_wrt_append)

lemma LessThan_last_all:
  assumes "requests_sorted s" "s \<noteq> []" "LessThan ask (last s)" "x \<in> set s"
  shows "LessThan ask x"
proof (cases "x = last s")
  case False
  have "s = butlast s @ [last s]" using assms(2) by simp
  then have "sorted_wrt (\<lambda>a b. LessThan b a) (butlast s @ [last s])"
    using assms(1) by (simp add: requests_sorted_def)
  moreover have "x \<in> set (butlast s @ [last s])" using assms(2,4) by simp
  then have "x \<in> set (butlast s)" using False by simp
  ultimately have "LessThan (last s) x" by (auto simp: sorted_wrt_append)
  with assms(3) show ?thesis by (rule LessThan_trans)
qed (simp add: assms(3))

text \<open>In a sorted list the asks that come after the new one form a tail, found by the search.\<close>

lemma Search_splits:
  assumes "requests_sorted s"
    and i_def: "i = Search (length s) (\<lambda>i. LessThan (s ! i) ask)"
  shows "i \<le> length s" "x \<in> set (take i s) \<Longrightarrow> \<not> LessThan x ask" "x \<in> set (drop i s) \<Longrightarrow> LessThan x ask"
proof -
  have mono: "LessThan (s ! l) ask" if "k \<le> l" "l < length s" "LessThan (s ! k) ask" for k l
  proof (cases "k = l")
    case False
    then have "LessThan (s ! l) (s ! k)"
      using assms(1) that by (simp add: requests_sorted_def sorted_wrt_iff_nth_less)
    then show ?thesis using that(3) by (rule LessThan_trans)
  qed (use that in simp)
  have sp: "i \<le> length s" "\<forall>k<i. \<not> LessThan (s ! k) ask"
    "\<forall>k. i \<le> k \<and> k < length s \<longrightarrow> LessThan (s ! k) ask"
    using Search_spec [of "length s" "\<lambda>i. LessThan (s ! i) ask"] mono unfolding i_def by blast+
  show "i \<le> length s" by (rule sp(1))
  show "\<not> LessThan x ask" if "x \<in> set (take i s)"
    using that sp(1,2) by (auto simp: in_set_conv_nth)
  show "LessThan x ask" if "x \<in> set (drop i s)"
    using that sp(1,3) by (auto simp: in_set_conv_nth)
qed

lemma sorted_remove_loop_eq:
  "sorted_remove_loop (pre @ s) (length pre) s ask =
     pre @ remove1_key (allocationKey ask) s"
proof (induction s arbitrary: pre)
  case (Cons a s)
  have "sorted_remove_loop ((pre @ [a]) @ s) (length (pre @ [a])) s ask =
      (pre @ [a]) @ remove1_key (allocationKey ask) s" by (rule Cons.IH)
  then show ?case by (simp add: removeAt_def)
qed simp

lemma sorted_remove_eq: "sorted_remove s ask = remove1_key (allocationKey ask) s"
  using sorted_remove_loop_eq [of "[]"] by (simp add: sorted_remove_def)

lemma remove1_key_distinct:
  "distinct (map allocationKey s) \<Longrightarrow>
   remove1_key k s = filter (\<lambda>a. allocationKey a \<noteq> k) s"
proof (induction s)
  case (Cons a s)
  then have "filter (\<lambda>b. allocationKey b \<noteq> allocationKey a) s = s"
    by (intro filter_True) (auto simp: image_iff)
  with Cons show ?case by auto
qed simp

lemma sorted_wrt_remove1_key: "sorted_wrt R s \<Longrightarrow> sorted_wrt R (remove1_key k s)"
  and set_remove1_key: "set (remove1_key k s) \<subseteq> set s"
  by (induction s) auto

section \<open>Properties\<close>

text \<open>
  C35. The list of asks stays sorted: inserting an ask into a sorted list, on the fast path at the
  end or at the place found by binary search, gives a sorted list with exactly that ask added, and
  removing an ask keeps the order and removes exactly the ask with that key.
\<close>

theorem sorted_requests_invariant:
  assumes "requests_sorted s"
  shows "requests_sorted (sorted_insert s ask) \<and>
    mset (sorted_insert s ask) = add_mset ask (mset s) \<and>
    requests_sorted (sorted_remove s ask) \<and>
    (distinct (map allocationKey s) \<longrightarrow>
      sorted_remove s ask = filter (\<lambda>a. allocationKey a \<noteq> allocationKey ask) s)"
proof -
  have ins: "mset (insertAt s i ask) = add_mset ask (mset s)" for i
    using append_take_drop_id [of i s] unfolding insertAt_def
    by (metis mset.simps(2) mset_append union_mset_add_mset_right)
  have "requests_sorted (sorted_insert s ask)"
  proof (cases "s \<noteq> [] \<and> LessThan ask (last s)")
    case True
    then show ?thesis
      using assms LessThan_last_all [OF assms]
      by (auto simp: sorted_insert_def insertIndex_def insertAt_def requests_sorted_def sorted_wrt_append last_conv_nth)
  next
    case False
    define i where "i = Search (length s) (\<lambda>i. LessThan (s ! i) ask)"
    have "sorted_insert s ask = take i s @ ask # drop i s"
      using False by (auto simp: sorted_insert_def insertIndex_def insertAt_def i_def last_conv_nth Let_def)
    moreover have "sorted_wrt (\<lambda>a b. LessThan b a) (take i s @ ask # drop i s)"
      using Search_splits [OF assms i_def] assms LessThan_total
      by (intro sorted_wrt_insert_mid) (auto simp: requests_sorted_def)
    ultimately show ?thesis by (simp add: requests_sorted_def)
  qed
  moreover have "requests_sorted (sorted_remove s ask)"
    using assms by (simp add: requests_sorted_def sorted_remove_eq sorted_wrt_remove1_key)
  ultimately show ?thesis
    by (auto simp: sorted_insert_def insertIndex_def Let_def ins sorted_remove_eq remove1_key_distinct)
qed

theorem sorted_requests_invariant_witness:
  "requests_sorted (sorted_insert [exampleAsk ''a'' 5 1, exampleAsk ''b'' 1 1] (exampleAsk ''c'' 3 2)) \<and>
   map allocationKey (sorted_insert [exampleAsk ''a'' 5 1, exampleAsk ''b'' 1 1] (exampleAsk ''c'' 3 2)) =
     [''a'', ''c'', ''b'']"
proof
  have "requests_sorted [exampleAsk ''a'' 5 1, exampleAsk ''b'' 1 1]"
    by (simp add: requests_sorted_def LessThan_iff exampleAsk_def)
  then show "requests_sorted (sorted_insert [exampleAsk ''a'' 5 1, exampleAsk ''b'' 1 1] (exampleAsk ''c'' 3 2))"
    using sorted_requests_invariant by blast
  show "map allocationKey (sorted_insert [exampleAsk ''a'' 5 1, exampleAsk ''b'' 1 1] (exampleAsk ''c'' 3 2)) =
      [''a'', ''c'', ''b'']"
    by code_simp
qed

text \<open>
  C36. Release and preemption of an allocation exclude each other: from an allocation that is not
  both released and preempted no sequence of marks reaches one that is, and a mark that would is
  refused with an error and changes nothing.
\<close>

theorem release_and_preemption_exclusive:
  assumes "\<not> (released a \<and> preempted a)"
  shows "\<not> (released (fold apply_mark ms a) \<and> preempted (fold apply_mark ms a)) \<and>
    (preempted a \<longrightarrow> SetReleased a True = (a, Some AlreadyPreempted)) \<and>
    (released a \<longrightarrow> MarkPreempted a = (a, Some AlreadyReleased))"
proof -
  have step: "\<not> (released (apply_mark m a) \<and> preempted (apply_mark m a))"
    if "\<not> (released a \<and> preempted a)" for m a
    using that
    by (cases m) (auto simp: SetReleased_def MarkPreempted_def MarkUnPreempted_def)
  have "\<not> (released (fold apply_mark ms a) \<and> preempted (fold apply_mark ms a))"
    using assms
  proof (induction ms arbitrary: a)
    case (Cons m ms)
    show ?case using Cons.IH [OF step [OF Cons.prems]] by simp
  qed simp
  then show ?thesis by (simp add: SetReleased_def MarkPreempted_def)
qed

theorem release_and_preemption_exclusive_witness:
  "\<not> released (fold apply_mark [Preempt, Release True] (exampleAsk ''a'' 0 0))"
proof -
  have "preempted (fold apply_mark [Preempt, Release True] (exampleAsk ''a'' 0 0))"
    by (simp add: exampleAsk_def SetReleased_def MarkPreempted_def)
  then show ?thesis
    using release_and_preemption_exclusive [of "exampleAsk ''a'' 0 0" "[Preempt, Release True]"]
    by (auto simp: exampleAsk_def)
qed

end
