(* ===== verification/Nodes.thy ===== *)
theory Nodes
  imports Allocations
begin

text \<open>
  Nodes (\<open>pkg/scheduler/objects/node.go\<close>) and reservations
  (\<open>pkg/scheduler/objects/reservation.go\<close>): the capacity of a node, what YuniKorn allocations use
  of it, what foreign allocations occupy, what is left, and the reservations.

  The attributes, the listeners and the events of a node are left out; the predicate checks that
  a plugin of the resource manager answers are not part of this theory.
\<close>

section \<open>Data\<close>

record reservation =
  resAppID :: string
  resNodeID :: string
  resAllocKey :: string
  resRequiredNode :: string

record node =
  NodeID :: string
  totalResource :: "resource option"
  occupiedResource :: "resource option"
  nodeAllocated :: "resource option"
  availableResource :: "resource option"
  allocations :: "alloc gomap"
  schedulable :: bool
  reservations :: "reservation gomap"

definition NewNode :: "(string \<times> resource option) option \<Rightarrow> node option" where
  "NewNode proto =
     (case proto of
        None \<Rightarrow> None
      | Some (nodeID, capacity) \<Rightarrow>
          let total = Prune (Some (orZero capacity))
          in Some \<lparr>NodeID = nodeID, totalResource = total, occupiedResource = Some NewResource,
                   nodeAllocated = Some NewResource,
                   availableResource = fst (SubErrorNegative total (Some NewResource)),
                   allocations = [], schedulable = True, reservations = []\<rparr>)"

section \<open>Capacity and usage\<close>

definition refreshAvailableResource :: "node \<Rightarrow> node" where
  "refreshAvailableResource sn =
     sn\<lparr>availableResource :=
          Prune (SubFrom (SubFrom (Clone (totalResource sn)) (nodeAllocated sn)) (occupiedResource sn))\<rparr>"

definition SetCapacity :: "node \<Rightarrow> resource option \<Rightarrow> node \<times> resource option" where
  "SetCapacity sn newCapacity =
     (if Equals (totalResource sn) newCapacity then (sn, None)
      else let delta = Sub newCapacity (totalResource sn)
           in (refreshAvailableResource (sn\<lparr>totalResource := Prune newCapacity\<rparr>), delta))"

definition UpdateAllocatedResource :: "node \<Rightarrow> resource option \<Rightarrow> node" where
  "UpdateAllocatedResource sn delta =
     refreshAvailableResource (sn\<lparr>nodeAllocated := Prune (AddTo (nodeAllocated sn) delta)\<rparr>)"

definition SetOccupiedResource :: "node \<Rightarrow> resource option \<Rightarrow> node" where
  "SetOccupiedResource sn occupied =
     (if Equals (occupiedResource sn) occupied then sn
      else refreshAvailableResource (sn\<lparr>occupiedResource := occupied\<rparr>))"

definition FitInNode :: "node \<Rightarrow> resource option \<Rightarrow> bool" where
  "FitInNode sn resRequest = FitIn (totalResource sn) resRequest"

definition CanAllocate :: "node \<Rightarrow> resource option \<Rightarrow> bool" where
  "CanAllocate sn res = FitIn (availableResource sn) res"

definition SetSchedulable :: "node \<Rightarrow> bool \<Rightarrow> node" where
  "SetSchedulable sn b = sn\<lparr>schedulable := b\<rparr>"

definition getAllocations :: "node \<Rightarrow> bool \<Rightarrow> alloc list" where
  "getAllocations sn isForeign = filter (\<lambda>v. foreign v = isForeign) (map snd (allocations sn))"

definition RemoveAllocation :: "node \<Rightarrow> string \<Rightarrow> node \<times> alloc option" where
  "RemoveAllocation sn key =
     (case map_of (allocations sn) key of
        None \<Rightarrow> (sn, None)
      | Some a \<Rightarrow>
          let sn = sn\<lparr>allocations := AList.delete key (allocations sn)\<rparr>;
              sn = (if foreign a
                    then sn\<lparr>occupiedResource := Sub (occupiedResource sn) (allocRes a)\<rparr>
                    else sn\<lparr>nodeAllocated := Prune (SubFrom (nodeAllocated sn) (allocRes a))\<rparr>)
          in (sn\<lparr>availableResource := AddTo (availableResource sn) (allocRes a)\<rparr>, Some a))"

definition addAllocationInternal :: "node \<Rightarrow> alloc option \<Rightarrow> bool \<Rightarrow> node \<times> bool" where
  "addAllocationInternal sn al force =
     (case al of
        None \<Rightarrow> (sn, False)
      | Some a \<Rightarrow>
          let res = allocRes a
          in if force \<or> FitIn (availableResource sn) res
             then
               let sn = sn\<lparr>allocations := AList.update (allocationKey a) a (allocations sn)\<rparr>;
                   sn = (if foreign a
                         then sn\<lparr>occupiedResource := Add (occupiedResource sn) res\<rparr>
                         else sn\<lparr>nodeAllocated := AddTo (nodeAllocated sn) res\<rparr>)
               in (sn\<lparr>availableResource := Prune (SubFrom (availableResource sn) res)\<rparr>, True)
             else (sn, False))"

definition TryAddAllocation :: "node \<Rightarrow> alloc option \<Rightarrow> node \<times> bool" where
  "TryAddAllocation sn al = addAllocationInternal sn al False"

definition AddAllocation :: "node \<Rightarrow> alloc option \<Rightarrow> node" where
  "AddAllocation sn al = fst (addAllocationInternal sn al True)"

definition UpdateForeignAllocation :: "node \<Rightarrow> alloc \<Rightarrow> node \<times> alloc option" where
  "UpdateForeignAllocation sn a =
     (let key = allocationKey a;
          existing = map_of (allocations sn) key;
          sn = sn\<lparr>allocations := AList.update key a (allocations sn)\<rparr>
      in case existing of
           None \<Rightarrow> (sn, None)
         | Some e \<Rightarrow>
             let delta = Prune (Sub (Clone (allocRes a)) (Clone (allocRes e)))
             in (refreshAvailableResource
                   (sn\<lparr>occupiedResource := Prune (AddTo (occupiedResource sn) delta)\<rparr>), Some e))"

text \<open>\<open>None\<close> is the nil dereference when the placeholder is not on the node.\<close>

definition node_ReplaceAllocation ::
    "node \<Rightarrow> string \<Rightarrow> alloc \<Rightarrow> resource option \<Rightarrow> (node \<times> alloc) option" where
  "node_ReplaceAllocation sn key replace delta =
     (case map_of (allocations sn) key of
        None \<Rightarrow> None
      | Some ph \<Rightarrow>
          let replace = replace\<lparr>placeholderCreateTime := Some (createTime ph)\<rparr>;
              sn = sn\<lparr>allocations := AList.delete key (allocations sn)\<rparr>;
              replace = replace\<lparr>placeholderUsed := True\<rparr>;
              sn = sn\<lparr>allocations := AList.update (allocationKey replace) replace (allocations sn)\<rparr>;
              sn = sn\<lparr>nodeAllocated := AddTo (nodeAllocated sn) delta\<rparr>
          in Some (sn\<lparr>availableResource := Prune (SubFrom (availableResource sn) delta)\<rparr>, replace))"

section \<open>Reservations\<close>

definition newReservation ::
    "node option \<Rightarrow> string option \<Rightarrow> alloc option \<Rightarrow> bool \<Rightarrow> reservation option" where
  "newReservation sn app al appBased =
     (case (sn, app, al) of
        (Some sn, Some appID, Some a) \<Rightarrow>
          Some \<lparr>resAppID = (if appBased then [] else appID),
                resNodeID = (if appBased then NodeID sn else []),
                resAllocKey = allocationKey a, resRequiredNode = requiredNode a\<rparr>
      | _ \<Rightarrow> None)"

definition IsReserved :: "node \<Rightarrow> bool" where
  "IsReserved sn \<longleftrightarrow> reservations sn \<noteq> []"

definition isReservedForAllocation :: "node \<Rightarrow> string \<Rightarrow> bool" where
  "isReservedForAllocation sn key = (if key = [] then False else map_has (reservations sn) key)"

definition preAllocateCheck :: "node \<Rightarrow> resource option \<Rightarrow> string \<Rightarrow> bool" where
  "preAllocateCheck sn res key =
     (if \<not> StrictlyGreaterThanZero res then False
      else if IsReserved sn \<and> \<not> isReservedForAllocation sn key then False
      else FitIn (availableResource sn) res)"

datatype reserve_error =
  ReservationNil | NodeAlreadyReserved | NormalReservationPresent | NodeNotFitReserve

definition node_Reserve ::
    "node \<Rightarrow> string option \<Rightarrow> alloc option \<Rightarrow> node \<times> reserve_error option" where
  "node_Reserve sn app al =
     (case (newReservation (Some sn) app al False, al) of
        (Some r, Some ask) \<Rightarrow>
          let reqNode = requiredNode ask \<noteq> []
          in if \<not> reqNode \<and> reservations sn \<noteq> [] then (sn, Some NodeAlreadyReserved)
             else if reqNode \<and> list_ex (\<lambda>(_, r). resRequiredNode r = []) (reservations sn)
             then (sn, Some NormalReservationPresent)
             else if \<not> FitIn (totalResource sn) (allocRes ask) then (sn, Some NodeNotFitReserve)
             else (sn\<lparr>reservations := AList.update (allocationKey ask) r (reservations sn)\<rparr>, None)
      | _ \<Rightarrow> (sn, Some ReservationNil))"

definition node_unReserve :: "node \<Rightarrow> alloc option \<Rightarrow> node \<times> nat" where
  "node_unReserve sn al =
     (case al of
        None \<Rightarrow> (sn, 0)
      | Some a \<Rightarrow>
          if map_has (reservations sn) (allocationKey a)
          then (sn\<lparr>reservations := AList.delete (allocationKey a) (reservations sn)\<rparr>, 1)
          else (sn, 0))"

section \<open>Specification vocabulary\<close>

text \<open>Amounts far from the bounds of the integers, so that sums of a few of them are exact.\<close>

definition small :: "resource option \<Rightarrow> bool" where
  "small r \<longleftrightarrow> wf_res r \<and> (\<forall>k. \<bar>amount r k\<bar> \<le> 2 ^ 58)"

definition small_node :: "node \<Rightarrow> bool" where
  "small_node sn \<longleftrightarrow> small (totalResource sn) \<and> small (occupiedResource sn) \<and>
     small (nodeAllocated sn) \<and> small (availableResource sn) \<and>
     totalResource sn \<noteq> None \<and> occupiedResource sn \<noteq> None \<and> nodeAllocated sn \<noteq> None \<and>
     availableResource sn \<noteq> None"

definition usage_of :: "bool \<Rightarrow> string \<Rightarrow> alloc \<Rightarrow> int" where
  "usage_of isForeign k a = (if foreign a = isForeign then amount (allocRes a) k else 0)"

text \<open>The books of a node: what is available is the capacity without what is allocated and
  occupied, and these are the sums over the allocations of the node.\<close>

definition node_ok :: "node \<Rightarrow> bool" where
  "node_ok sn \<longleftrightarrow> wf_map (allocations sn) \<and>
     (\<forall>k. amount (availableResource sn) k =
            amount (totalResource sn) k - amount (nodeAllocated sn) k - amount (occupiedResource sn) k \<and>
          amount (nodeAllocated sn) k = map_sum (usage_of False k) (allocations sn) \<and>
          amount (occupiedResource sn) k = map_sum (usage_of True k) (allocations sn))"

text \<open>The calls that change the books, with what the callers guarantee.\<close>

inductive node_step :: "node \<Rightarrow> node \<Rightarrow> bool" where
  capacity: "small_node sn \<Longrightarrow> small r \<Longrightarrow> r \<noteq> None \<Longrightarrow> node_step sn (fst (SetCapacity sn r))"
| add: "small_node sn \<Longrightarrow> small (allocRes a) \<Longrightarrow> map_of (allocations sn) (allocationKey a) = None \<Longrightarrow>
     node_step sn (fst (addAllocationInternal sn (Some a) force))"
| remove: "small_node sn \<Longrightarrow> \<forall>a. map_of (allocations sn) key = Some a \<longrightarrow> small (allocRes a) \<Longrightarrow>
     node_step sn (fst (RemoveAllocation sn key))"
| update_foreign: "small_node sn \<Longrightarrow> small (allocRes a) \<Longrightarrow> foreign a \<Longrightarrow>
     map_of (allocations sn) (allocationKey a) = Some e \<Longrightarrow> foreign e \<Longrightarrow> small (allocRes e) \<Longrightarrow>
     node_step sn (fst (UpdateForeignAllocation sn a))"
| replace: "small_node sn \<Longrightarrow> map_of (allocations sn) key = Some ph \<Longrightarrow> \<not> foreign ph \<Longrightarrow>
     \<not> foreign a \<Longrightarrow> small (allocRes a) \<Longrightarrow> small (allocRes ph) \<Longrightarrow>
     map_of (allocations sn) (allocationKey a) = None \<Longrightarrow> small delta \<Longrightarrow>
     \<forall>k. amount delta k = amount (allocRes a) k - amount (allocRes ph) k \<Longrightarrow>
     node_ReplaceAllocation sn key a delta = Some (sn', a') \<Longrightarrow> node_step sn sn'"
| reserve: "node_step sn (fst (node_Reserve sn app al))"
| unreserve: "node_step sn (fst (node_unReserve sn al))"
| schedulable: "node_step sn (SetSchedulable sn b)"

text \<open>A node holds one normal reservation or only reservations that require the node.\<close>

definition reservations_ok :: "node \<Rightarrow> bool" where
  "reservations_ok sn \<longleftrightarrow> wf_map (reservations sn) \<and>
     (length (reservations sn) \<le> 1 \<or> (\<forall>(k, r)\<in>set (reservations sn). resRequiredNode r \<noteq> []))"

definition exampleNode :: node where
  "exampleNode =
     \<lparr>NodeID = ''node-1'', totalResource = Some [(''cpu'', Quantity 2)],
      occupiedResource = Some [], nodeAllocated = Some [],
      availableResource = Some [(''cpu'', Quantity 2)], allocations = [], schedulable = True,
      reservations = []\<rparr>"

section \<open>Exact amounts\<close>

lemma smallD: "small r \<Longrightarrow> wf_res r" "small r \<Longrightarrow> \<bar>amount r k\<bar> \<le> 2 ^ 58"
  by (simp_all add: small_def)

lemma sat64_small: "\<bar>i\<bar> \<le> 2 ^ 62 \<Longrightarrow> sat64 i = i"
  by (auto simp: sat64_def)

lemma small_ops:
  assumes "small a" "small b"
  shows "amount (Add a b) k = amount a k + amount b k"
    and "amount (Sub a b) k = amount a k - amount b k"
    and "a \<noteq> None \<Longrightarrow> amount (AddTo a b) k = amount a k + amount b k"
    and "a \<noteq> None \<Longrightarrow> amount (SubFrom a b) k = amount a k - amount b k"
proof -
  have "\<bar>amount a k\<bar> \<le> 2 ^ 58" "\<bar>amount b k\<bar> \<le> 2 ^ 58" "amount b k \<noteq> min_int64"
    using smallD(2) [OF assms(1), of k] smallD(2) [OF assms(2), of k] by auto
  then show "amount (Add a b) k = amount a k + amount b k"
    "amount (Sub a b) k = amount a k - amount b k"
    "a \<noteq> None \<Longrightarrow> amount (AddTo a b) k = amount a k + amount b k"
    "a \<noteq> None \<Longrightarrow> amount (SubFrom a b) k = amount a k - amount b k"
    using assms by (simp_all add: amount_simps smallD sat64_small)
qed

lemma refresh_amount:
  assumes "small (totalResource sn)" "small (nodeAllocated sn)" "small (occupiedResource sn)"
    and "totalResource sn \<noteq> None"
  shows "amount (availableResource (refreshAvailableResource sn)) k =
    amount (totalResource sn) k - amount (nodeAllocated sn) k - amount (occupiedResource sn) k"
proof -
  let ?x = "SubFrom (totalResource sn) (nodeAllocated sn)"
  have b: "\<bar>amount (totalResource sn) k\<bar> \<le> 2 ^ 58" "\<bar>amount (nodeAllocated sn) k\<bar> \<le> 2 ^ 58"
    "\<bar>amount (occupiedResource sn) k\<bar> \<le> 2 ^ 58"
    using assms smallD(2) by blast+
  have x: "amount ?x k = amount (totalResource sn) k - amount (nodeAllocated sn) k"
    using small_ops(4) [OF assms(1,2,4)] .
  have wf: "wf_res ?x" "?x \<noteq> None" "wf_res (SubFrom ?x (occupiedResource sn))"
    using assms by (simp_all add: smallD wf_intros)
  have "amount (SubFrom ?x (occupiedResource sn)) k =
      sat64 (amount ?x k - amount (occupiedResource sn) k)"
    using wf assms b by (intro amount_SubFrom) (auto simp: smallD abs_le_iff)
  also have "\<dots> = amount ?x k - amount (occupiedResource sn) k"
    using b by (intro sat64_small) (simp add: x)
  finally show ?thesis
    using wf assms(1) x by (simp add: refreshAvailableResource_def Clone_id smallD amount_simps)
qed

lemma refresh_same [simp]:
  "totalResource (refreshAvailableResource sn) = totalResource sn"
  "nodeAllocated (refreshAvailableResource sn) = nodeAllocated sn"
  "occupiedResource (refreshAvailableResource sn) = occupiedResource sn"
  "allocations (refreshAvailableResource sn) = allocations sn"
  "reservations (refreshAvailableResource sn) = reservations sn"
  by (simp_all add: refreshAvailableResource_def)

lemma small_Prune: "small r \<Longrightarrow> small (Prune r)"
  by (simp add: small_def wf_intros amount_simps)

section \<open>The books of a node\<close>

lemma node_ok_add:
  assumes "small_node sn" "node_ok sn" "small (allocRes a)"
    and "map_of (allocations sn) (allocationKey a) = None"
  shows "node_ok (fst (addAllocationInternal sn (Some a) force))"
proof (cases "force \<or> FitIn (availableResource sn) (allocRes a)")
  case True
  have wf: "wf_res (SubFrom (availableResource sn) (allocRes a))"
    using assms(1,3) by (simp add: small_node_def smallD wf_intros)
  show ?thesis
    using assms True wf
    by (auto simp: addAllocationInternal_def Let_def node_ok_def small_node_def small_ops amount_simps
        map_sum_update_new usage_of_def wf_intros)
next
  case False
  then show ?thesis using assms(2) by (simp add: addAllocationInternal_def Let_def)
qed

lemma node_ok_remove:
  assumes "small_node sn" "node_ok sn" "map_of (allocations sn) key = Some a" "small (allocRes a)"
  shows "node_ok (fst (RemoveAllocation sn key))"
proof -
  have wf: "wf_res (SubFrom (nodeAllocated sn) (allocRes a))" "wf_map (allocations sn)"
    using assms(1,2,4) by (simp_all add: small_node_def smallD wf_intros node_ok_def)
  show ?thesis
    using assms wf
    by (auto simp: RemoveAllocation_def Let_def node_ok_def small_node_def small_ops amount_simps
        map_sum_delete usage_of_def wf_intros)
qed

lemma node_ok_update_foreign:
  assumes "small_node sn" "node_ok sn" "small (allocRes a)" "foreign a"
    and "map_of (allocations sn) (allocationKey a) = Some e" "foreign e" "small (allocRes e)"
  shows "node_ok (fst (UpdateForeignAllocation sn a))"
proof -
  define delta where "delta = Prune (Sub (Clone (allocRes a)) (Clone (allocRes e)))"
  have wf: "wf_res (allocRes a)" "wf_res (allocRes e)" using assms(3,7) by (simp_all add: smallD)
  have d: "amount delta k = amount (allocRes a) k - amount (allocRes e) k" for k
    using assms(3,7) wf by (simp add: delta_def amount_simps Clone_id wf_intros small_ops)
  have wfd: "wf_res delta" using wf by (simp add: delta_def Clone_id wf_intros)
  define occ where "occ = Prune (AddTo (occupiedResource sn) delta)"
  have o: "amount occ k = amount (occupiedResource sn) k + amount delta k" for k
  proof -
    have "\<bar>amount (occupiedResource sn) k + amount delta k\<bar> \<le> 2 ^ 62"
      using assms(1) smallD(2) [OF assms(3), of k] smallD(2) [OF assms(7), of k]
        smallD(2) [of "occupiedResource sn" k]
      by (simp add: d small_node_def)
    then show ?thesis
      using assms(1) wfd unfolding occ_def
      by (simp add: amount_simps sat64_small small_node_def smallD wf_intros)
  qed
  have occ: "wf_res occ" using assms(1) wfd by (simp add: occ_def small_node_def smallD wf_intros)
  let ?x = "SubFrom (totalResource sn) (nodeAllocated sn)"
  have x: "amount ?x k = amount (totalResource sn) k - amount (nodeAllocated sn) k" for k
    using assms(1) by (simp add: small_node_def small_ops)
  have wfx: "wf_res ?x" "?x \<noteq> None"
    using assms(1) by (simp_all add: small_node_def smallD wf_intros)
  have b: "\<bar>amount ?x k - amount occ k\<bar> \<le> 2 ^ 62 \<and> amount occ k \<noteq> min_int64" for k
    using assms(1) smallD(2) [OF assms(3), of k] smallD(2) [OF assms(7), of k]
      smallD(2) [of "occupiedResource sn" k] smallD(2) [of "totalResource sn" k]
      smallD(2) [of "nodeAllocated sn" k]
    by (auto simp: small_node_def d o x abs_le_iff)
  have av: "amount (Prune (SubFrom ?x occ)) k = amount ?x k - amount occ k" for k
    using b [of k] wfx occ by (simp add: amount_simps wf_intros sat64_small)
  have sn': "fst (UpdateForeignAllocation sn a) =
      refreshAvailableResource (sn\<lparr>allocations := AList.update (allocationKey a) a (allocations sn),
        occupiedResource := occ\<rparr>)"
    using assms(5) by (simp add: UpdateForeignAllocation_def Let_def occ_def delta_def)
  show ?thesis
    unfolding sn' node_ok_def using assms(1,2,4-6)
    by (simp add: refreshAvailableResource_def Clone_id small_node_def smallD av x o d node_ok_def
        map_sum_update usage_of_def wf_intros)
qed

lemma node_ok_capacity:
  assumes "small_node sn" "node_ok sn" "small r" "r \<noteq> None"
  shows "node_ok (fst (SetCapacity sn r))"
proof (cases "Equals (totalResource sn) r")
  case True
  then show ?thesis using assms(2) by (simp add: SetCapacity_def)
next
  case False
  let ?sn = "sn\<lparr>totalResource := Prune r\<rparr>"
  have "amount (availableResource (refreshAvailableResource ?sn)) k =
      amount (Prune r) k - amount (nodeAllocated sn) k - amount (occupiedResource sn) k" for k
    using assms refresh_amount [of ?sn k] by (simp add: small_node_def small_Prune)
  then show ?thesis
    using assms(2) False by (simp add: SetCapacity_def Let_def node_ok_def)
qed

lemma node_ok_replace:
  assumes "small_node sn" "node_ok sn" "map_of (allocations sn) key = Some ph" "\<not> foreign ph"
    and "\<not> foreign a" "map_of (allocations sn) (allocationKey a) = None" "small delta"
    and "\<forall>k. amount delta k = amount (allocRes a) k - amount (allocRes ph) k"
    and "node_ReplaceAllocation sn key a delta = Some (sn', a')"
  shows "node_ok sn'"
proof -
  have wf: "wf_map (allocations sn)" using assms(2) by (simp add: node_ok_def)
  let ?a = "a\<lparr>placeholderCreateTime := Some (createTime ph), placeholderUsed := True\<rparr>"
  let ?m = "AList.update (allocationKey a) ?a (AList.delete key (allocations sn))"
  have "key \<noteq> allocationKey a" using assms(3,6) by auto
  then have new: "map_of (AList.delete key (allocations sn)) (allocationKey a) = None"
    using assms(6) by (simp add: delete_conv')
  have sum: "map_sum (usage_of f k) ?m =
      map_sum (usage_of f k) (allocations sn) - usage_of f k ph + usage_of f k ?a" for f k
    using map_sum_update_new [OF new, of "usage_of f k" ?a] map_sum_delete [OF wf assms(3), of "usage_of f k"]
    by simp
  have sn': "sn' = sn\<lparr>allocations := ?m, nodeAllocated := AddTo (nodeAllocated sn) delta,
      availableResource := Prune (SubFrom (availableResource sn) delta)\<rparr>"
    using assms(3,9) by (auto simp: node_ReplaceAllocation_def Let_def)
  have p: "wf_res (SubFrom (availableResource sn) delta)"
    using assms(1,7) by (simp add: small_node_def smallD wf_intros)
  show ?thesis
    unfolding sn' node_ok_def using assms(1,2,4,5,7,8) wf p
    by (simp add: sum node_ok_def small_node_def small_ops amount_simps usage_of_def wf_intros)
qed

lemma Reserve_same:
  "node_ok (fst (node_Reserve sn app al)) = node_ok sn"
  "node_ok (fst (node_unReserve sn al)) = node_ok sn"
  by (auto simp: node_Reserve_def node_unReserve_def node_ok_def Let_def split: option.splits prod.splits)

lemma node_ok_step: "node_step sn sn' \<Longrightarrow> node_ok sn \<Longrightarrow> node_ok sn'"
proof (induction rule: node_step.induct)
  case (remove sn key)
  then show ?case
    by (cases "map_of (allocations sn) key")
      (simp_all add: node_ok_remove, simp add: RemoveAllocation_def)
next
  case (schedulable sn b)
  then show ?case by (simp add: SetSchedulable_def node_ok_def)
next
  case (replace sn key ph a delta sn' a')
  show ?case
    by (rule node_ok_replace [OF replace.hyps(1) replace.prems replace.hyps(2-4) replace.hyps(7-10)])
next
  case (update_foreign sn a e)
  show ?case
    by (rule node_ok_update_foreign [OF update_foreign.hyps(1) update_foreign.prems update_foreign.hyps(2-6)])
qed (simp_all add: node_ok_capacity node_ok_add Reserve_same)

section \<open>Reservations\<close>

lemma length_AList_update:
  "map_of m k = None \<Longrightarrow> length (AList.update k v m) = length m + 1"
  "map_of m k \<noteq> None \<Longrightarrow> length (AList.update k v m) = length m"
  by (induction m) (auto split: if_splits)

lemma set_AList_update: "set (AList.update k v m) \<subseteq> insert (k, v) (set m)"
  by (induction m) auto

lemma set_AList_delete: "set (AList.delete k m) \<subseteq> set m"
  and length_AList_delete: "length (AList.delete k m) \<le> length m"
  by (induction m) auto

lemma Reserve_success:
  assumes "snd (node_Reserve sn (Some app) (Some ask)) = None"
  shows "fst (node_Reserve sn (Some app) (Some ask)) =
      sn\<lparr>reservations := AList.update (allocationKey ask)
        \<lparr>resAppID = app, resNodeID = [], resAllocKey = allocationKey ask,
          resRequiredNode = requiredNode ask\<rparr> (reservations sn)\<rparr>"
    and "requiredNode ask = [] \<Longrightarrow> reservations sn = []"
    and "requiredNode ask \<noteq> [] \<Longrightarrow> \<not> list_ex (\<lambda>(_, r). resRequiredNode r = []) (reservations sn)"
    and "FitIn (totalResource sn) (allocRes ask)"
  using assms by (auto simp: node_Reserve_def newReservation_def Let_def split: if_splits)

lemma Reserve_failure:
  "snd (node_Reserve sn app al) \<noteq> None \<Longrightarrow> fst (node_Reserve sn app al) = sn"
  by (auto simp: node_Reserve_def Let_def split: option.splits if_splits)

lemma reservations_ok_reserve:
  assumes "reservations_ok sn"
  shows "reservations_ok (fst (node_Reserve sn (Some app) (Some ask)))"
proof (cases "snd (node_Reserve sn (Some app) (Some ask)) = None")
  case True
  define r where "r = \<lparr>resAppID = app, resNodeID = [], resAllocKey = allocationKey ask,
    resRequiredNode = requiredNode ask\<rparr>"
  note eq = Reserve_success(1) [OF True, folded r_def]
    and guard = Reserve_success(2,3) [OF True]
  show ?thesis
  proof (cases "requiredNode ask = []")
    case True
    then show ?thesis using guard by (simp add: eq reservations_ok_def)
  next
    case False
    then have "\<forall>(k, r)\<in>set (reservations sn). resRequiredNode r \<noteq> []"
      using guard(2) by (auto simp: list_ex_iff)
    then have "\<forall>(k, r)\<in>set (AList.update (allocationKey ask) r (reservations sn)). resRequiredNode r \<noteq> []"
      using False set_AList_update [of "allocationKey ask" r "reservations sn"]
      by (auto simp: r_def)
    then show ?thesis using assms by (simp add: eq reservations_ok_def wf_intros)
  qed
next
  case False
  then show ?thesis using assms by (simp add: Reserve_failure)
qed

lemma reservations_ok_unreserve:
  "reservations_ok sn \<Longrightarrow> reservations_ok (fst (node_unReserve sn al))"
proof (cases al)
  case (Some a)
  let ?m = "AList.delete (allocationKey a) (reservations sn)"
  assume ok: "reservations_ok sn"
  have "length (reservations sn) \<le> 1 \<Longrightarrow> length ?m \<le> 1"
    using length_AList_delete [of "allocationKey a" "reservations sn"] by linarith
  moreover have "\<forall>(k, r)\<in>set (reservations sn). resRequiredNode r \<noteq> [] \<Longrightarrow>
      \<forall>(k, r)\<in>set ?m. resRequiredNode r \<noteq> []"
    using set_AList_delete [of "allocationKey a" "reservations sn"] by blast
  ultimately have "reservations_ok (sn\<lparr>reservations := ?m\<rparr>)"
    using ok by (auto simp: reservations_ok_def wf_intros)
  then show ?thesis using ok Some by (simp add: node_unReserve_def)
qed (simp add: node_unReserve_def)

lemma example_node_small: "small_node exampleNode"
  by (auto simp: small_node_def small_def exampleNode_def amount_def)

lemma example_node_ok: "node_ok exampleNode"
  by (simp add: node_ok_def exampleNode_def amount_def)

lemma example_ask_small: "small (allocRes (exampleAsk key p t))"
  by (simp add: small_def exampleAsk_def amount_def)

section \<open>Properties\<close>



text \<open>
  C33. A node is never over-committed by a checked allocation: TryAddAllocation succeeds exactly
  when the request fits in what is available and then leaves no negative amount of a requested
  type; otherwise it changes nothing. Removing the allocation again restores the available amounts.
\<close>

theorem TryAddAllocation_fits:
  assumes "small_node sn" "small (allocRes a)"
    and "map_of (allocations sn) (allocationKey a) = None"
  shows "case TryAddAllocation sn (Some a) of (sn', ok) \<Rightarrow>
    (ok \<longleftrightarrow> CanAllocate sn (allocRes a)) \<and> (\<not> ok \<longrightarrow> sn' = sn) \<and>
    (ok \<longrightarrow> (\<forall>k. res_has (allocRes a) k \<and> 0 < amount (allocRes a) k \<longrightarrow> 0 \<le> amount (availableResource sn') k) \<and>
       (\<forall>k. amount (availableResource (fst (RemoveAllocation sn' (allocationKey a)))) k =
             amount (availableResource sn) k))"
proof (cases "CanAllocate sn (allocRes a)")
  case True
  define sn' where "sn' = fst (TryAddAllocation sn (Some a))"
  have t: "TryAddAllocation sn (Some a) = (sn', True)"
    using True by (simp add: sn'_def TryAddAllocation_def addAllocationInternal_def Let_def CanAllocate_def)
  have av: "availableResource sn' = Prune (SubFrom (availableResource sn) (allocRes a))"
    "map_of (allocations sn') (allocationKey a) = Some a"
    using True by (auto simp: sn'_def TryAddAllocation_def addAllocationInternal_def Let_def
        CanAllocate_def update_conv')
  have wf: "wf_res (SubFrom (availableResource sn) (allocRes a))" "availableResource sn \<noteq> None"
    using assms(1,2) by (simp_all add: small_node_def smallD wf_intros)
  have ne: "availableResource sn' \<noteq> None"
    using av(1) wf(2) by (simp del: not_None_eq)
  have amt: "amount (availableResource sn') k = amount (availableResource sn) k - amount (allocRes a) k" for k
    using assms(1,2) wf by (simp add: av amount_simps small_node_def small_ops)
  have "0 \<le> amount (availableResource sn') k"
    if "res_has (allocRes a) k" "0 < amount (allocRes a) k" for k
    using True that assms(2) by (auto simp: CanAllocate_def FitIn_iff smallD amt split: if_splits)
  moreover have "amount (availableResource (fst (RemoveAllocation sn' (allocationKey a)))) k =
      amount (availableResource sn) k" for k
  proof -
    have "\<bar>amount (availableResource sn) k - amount (allocRes a) k + amount (allocRes a) k\<bar> \<le> 2 ^ 62"
      using assms(1) smallD(2) [of "availableResource sn" k] by (simp add: small_node_def)
    then have "amount (AddTo (availableResource sn') (allocRes a)) k = amount (availableResource sn) k"
      using amount_AddTo [OF ne, of "allocRes a" k] assms(2) by (simp add: smallD amt sat64_small)
    then show ?thesis using av by (simp add: RemoveAllocation_def Let_def)
  qed
  ultimately show ?thesis using True by (simp add: t)
next
  case False
  then show ?thesis
    by (simp add: TryAddAllocation_def addAllocationInternal_def CanAllocate_def Let_def)
qed

theorem TryAddAllocation_fits_witness:
  "snd (TryAddAllocation exampleNode (Some (exampleAsk ''a'' 0 0))) \<and>
   0 \<le> amount (availableResource (fst (TryAddAllocation exampleNode (Some (exampleAsk ''a'' 0 0))))) ''cpu''"
proof -
  have "CanAllocate exampleNode (allocRes (exampleAsk ''a'' 0 0))"
    by (simp add: CanAllocate_def exampleNode_def exampleAsk_def FitIn_def fitIn_def Let_def qval_less_iff)
  moreover have "map_of (allocations exampleNode) (allocationKey (exampleAsk ''a'' 0 0)) = None"
    by (simp add: exampleNode_def)
  moreover have "res_has (allocRes (exampleAsk ''a'' 0 0)) ''cpu''"
    "0 < amount (allocRes (exampleAsk ''a'' 0 0)) ''cpu''"
    by (simp_all add: exampleAsk_def res_has_def amount_def)
  ultimately show ?thesis
    using TryAddAllocation_fits [OF example_node_small example_ask_small, of "''a''" 0 0]
    by (auto split: prod.splits)
qed

text \<open>
  C34. A node is reserved either for one ask or only for asks that require this node: Reserve and
  unReserve keep this invariant, and Reserve refuses a request that does not fit on the empty node.
\<close>

theorem node_reservations_invariant:
  assumes "reservations_ok sn"
  shows "reservations_ok (fst (node_Reserve sn (Some app) (Some ask))) \<and>
    reservations_ok (fst (node_unReserve sn al)) \<and>
    (snd (node_Reserve sn (Some app) (Some ask)) = None \<longrightarrow>
       FitInNode sn (allocRes ask) \<and>
       isReservedForAllocation (fst (node_Reserve sn (Some app) (Some ask))) (allocationKey ask) =
         (allocationKey ask \<noteq> []))"
  using reservations_ok_reserve [OF assms, of app ask] reservations_ok_unreserve [OF assms, of al]
    Reserve_success(1,4) [of sn app ask]
  by (simp add: FitInNode_def isReservedForAllocation_def map_has_map_of update_conv')

theorem node_reservations_invariant_witness:
  "reservations_ok exampleNode \<and>
   isReservedForAllocation (fst (node_Reserve exampleNode (Some ''app-1'') (Some (exampleAsk ''a'' 0 0)))) ''a''"
proof -
  have ok: "reservations_ok exampleNode" by (simp add: reservations_ok_def exampleNode_def)
  have "snd (node_Reserve exampleNode (Some ''app-1'') (Some (exampleAsk ''a'' 0 0))) = None"
    by (simp add: node_Reserve_def newReservation_def exampleNode_def exampleAsk_def Let_def
        FitIn_def fitIn_def qval_less_iff)
  then show ?thesis
    using node_reservations_invariant [OF ok, of "''app-1''" "exampleAsk ''a'' 0 0" None] ok
    by (simp add: exampleAsk_def)
qed

text \<open>An update of a foreign allocation that the node does not know stores the allocation without
  booking its resource, so that the books no longer balance.\<close>

lemma unknown_foreign_update_unbalances:
  "\<exists>a. foreign a \<and> node_ok exampleNode \<and> \<not> node_ok (fst (UpdateForeignAllocation exampleNode a))"
proof -
  let ?a = "(exampleAsk ''a'' 0 0)\<lparr>foreign := True\<rparr>"
  have "map_sum (usage_of True ''cpu'') (allocations (fst (UpdateForeignAllocation exampleNode ?a))) = 1"
    "amount (occupiedResource (fst (UpdateForeignAllocation exampleNode ?a))) ''cpu'' = 0"
    by (simp_all add: UpdateForeignAllocation_def exampleNode_def exampleAsk_def Let_def usage_of_def amount_def)
  then have "\<not> node_ok (fst (UpdateForeignAllocation exampleNode ?a))"
    unfolding node_ok_def by (metis zero_neq_one)
  then show ?thesis using example_node_ok by (intro exI [of _ ?a]) simp
qed

end
