(* ===== verification/EventBuffer.thy ===== *)
theory EventBuffer
  imports Prelude
begin

text \<open>
  The event history (\<open>pkg/events/event_ringbuffer.go\<close>) and the event store
  (\<open>pkg/events/event_store.go\<close>). Event records are opaque; an unused slot of a slice is \<open>None\<close>.
  The counters of type uint64 are natural numbers with the wrap-around written out. The refinement
  relation keeps all positions inside the slice, so that no slice operation panics.

  The abstract view of the ring buffer is the list of all events that were ever added, the index of
  an event being its identifier, together with the lowest identifier that is still available and
  the capacity. The refinement relation \<open>ring_rel\<close> ties the two.
\<close>

section \<open>Slices\<close>

text \<open>\<open>copy(dst[i:], src)\<close>, and \<open>s[i:j]\<close>.\<close>

definition go_copy :: "'a list \<Rightarrow> nat \<Rightarrow> 'a list \<Rightarrow> 'a list" where
  "go_copy dst i src =
     take i dst @ take (length dst - i) src @ drop (i + length src) dst"

definition slice :: "'a list \<Rightarrow> nat \<Rightarrow> nat \<Rightarrow> 'a list" where
  "slice xs i j = drop i (take j xs)"

section \<open>The ring buffer\<close>

record eventRange =
  rangeStart :: nat
  rangeEnd :: nat

record 'e eventRingBuffer =
  events :: "'e option list"
  capacity :: nat
  head :: nat
  full :: bool
  nextId :: nat
  lowestId :: nat
  resizeOffset :: nat

definition newEventRingBuffer :: "nat \<Rightarrow> 'e eventRingBuffer" where
  "newEventRingBuffer cap =
     \<lparr>events = replicate cap None, capacity = cap, head = 0, full = False, nextId = 0,
      lowestId = 0, resizeOffset = 0\<rparr>"

definition ring_Add :: "'e eventRingBuffer \<Rightarrow> 'e \<Rightarrow> 'e eventRingBuffer" where
  "ring_Add e event =
     (let e = e\<lparr>events := (events e)[head e := Some event]\<rparr>;
          e = (if \<not> full e then e\<lparr>full := (head e = sub64 (capacity e) 1)\<rparr>
               else e\<lparr>lowestId := add64 (lowestId e) 1\<rparr>);
          e = e\<lparr>head := add64 (head e) 1 mod capacity e\<rparr>
      in e\<lparr>nextId := add64 (nextId e) 1\<rparr>)"

definition getLastEventID :: "'e eventRingBuffer \<Rightarrow> nat" where
  "getLastEventID e = (if nextId e = 0 then 0 else sub64 (nextId e) 1)"

definition id2pos :: "'e eventRingBuffer \<Rightarrow> nat \<Rightarrow> nat \<times> bool" where
  "id2pos e i =
     (if i < lowestId e \<or> i \<ge> nextId e then (0, False)
      else (sub64 i (resizeOffset e) mod capacity e, True))"

definition getEntriesFromRanges ::
    "'e eventRingBuffer \<Rightarrow> eventRange \<Rightarrow> eventRange option \<Rightarrow> 'e option list" where
  "getEntriesFromRanges e r1 r2 =
     (case r2 of
        None \<Rightarrow>
          let dst = replicate (sub64 (rangeEnd r1) (rangeStart r1)) None
          in go_copy dst 0 (drop (rangeStart r1) (events e))
      | Some r2 \<Rightarrow>
          let total = add64 (sub64 (rangeEnd r1) (rangeStart r1)) (sub64 (rangeEnd r2) (rangeStart r2));
              dst = replicate total None;
              dst = go_copy dst 0 (drop (rangeStart r1) (events e));
              nextIdx = sub64 (rangeEnd r1) (rangeStart r1)
          in go_copy dst nextIdx (drop (rangeStart r2) (events e)))"

definition getEventsFromID ::
    "'e eventRingBuffer \<Rightarrow> nat \<Rightarrow> nat \<Rightarrow> 'e option list \<times> nat \<times> nat" where
  "getEventsFromID e i count =
     (let lowest = lowestId e; (pos, idFound) = id2pos e i
      in if \<not> idFound then ([], lowest, getLastEventID e)
         else
           let count = min count (capacity e)
           in if full e \<and> pos \<ge> head e
              then
                let r1 = \<lparr>rangeStart = pos, rangeEnd = min (add64 pos count) (capacity e)\<rparr>;
                    endPos = sub64 (add64 pos count) (capacity e);
                    r2 = (if endPos > 0 then Some \<lparr>rangeStart = 0, rangeEnd = min endPos (head e)\<rparr>
                          else None)
                in (getEntriesFromRanges e r1 r2, lowest, getLastEventID e)
              else
                (getEntriesFromRanges e
                   \<lparr>rangeStart = pos, rangeEnd = min (add64 pos count) (head e)\<rparr> None,
                 lowest, getLastEventID e))"

definition GetRecentEvents :: "'e eventRingBuffer \<Rightarrow> nat \<Rightarrow> 'e option list" where
  "GetRecentEvents e count =
     (let lastID = getLastEventID e;
          startID = (if lastID < count then 0 else add64 (sub64 lastID count) 1)
      in fst (getEventsFromID e startID count))"

definition updateLowestID :: "'e eventRingBuffer \<Rightarrow> nat \<Rightarrow> nat \<Rightarrow> 'e eventRingBuffer" where
  "updateLowestID e beginSize endSize =
     (if beginSize < endSize then e
      else if sub64 (nextId e) (lowestId e) \<le> endSize then e
      else e\<lparr>lowestId := sub64 (nextId e) endSize\<rparr>)"

definition ring_Resize :: "'e eventRingBuffer \<Rightarrow> nat \<Rightarrow> 'e eventRingBuffer" where
  "ring_Resize e newSize =
     (if newSize = capacity e then e
      else
        let newEvents = replicate newSize None;
            n = min (sub64 (nextId e) (lowestId e)) newSize;
            startIndex = sub64 (add64 (head e) (capacity e)) n mod capacity e;
            endIndex = sub64 (add64 startIndex n) 1 mod capacity e;
            e' = updateLowestID e (capacity e) newSize;
            newEvents =
              (if endIndex \<ge> startIndex
               then go_copy newEvents 0 (slice (events e) startIndex (endIndex + 1))
               else let new1 = go_copy newEvents 0 (drop startIndex (events e))
                    in go_copy new1 (capacity e - startIndex) (take (endIndex + 1) (events e)))
        in e'\<lparr>capacity := newSize, events := newEvents, head := n mod newSize,
              resizeOffset := lowestId e', full := (n = newSize)\<rparr>)"

section \<open>The event store\<close>

record 'e eventStore =
  storeEvents :: "'e option list"
  storeIdx :: nat
  storeSize :: nat
  lastSize :: nat

definition newEventStore :: "nat \<Rightarrow> 'e eventStore" where
  "newEventStore n =
     \<lparr>storeEvents = replicate n None, storeIdx = 0, storeSize = n, lastSize = n\<rparr>"

definition Store :: "'e eventStore \<Rightarrow> 'e \<Rightarrow> 'e eventStore" where
  "Store es event =
     (if storeIdx es = length (storeEvents es) then es
      else es\<lparr>storeEvents := (storeEvents es)[storeIdx es := Some event],
              storeIdx := add64 (storeIdx es) 1\<rparr>)"

definition CollectEvents :: "'e eventStore \<Rightarrow> 'e eventStore \<times> 'e option list" where
  "CollectEvents es =
     (let messages = take (storeIdx es) (storeEvents es);
          es = (if storeSize es \<noteq> lastSize es
                then es\<lparr>storeEvents := replicate (storeSize es) None\<rparr> else es)
      in (es\<lparr>storeIdx := 0, lastSize := storeSize es\<rparr>, messages))"

definition SetStoreSize :: "'e eventStore \<Rightarrow> nat \<Rightarrow> 'e eventStore" where
  "SetStoreSize es n = es\<lparr>storeSize := n\<rparr>"

section \<open>Abstract views\<close>

record 'e event_log =
  logEvents :: "'e list"
  logLowest :: nat
  logCapacity :: nat

datatype 'e ring_op = AddEvent 'e | ResizeTo nat

fun abs_op :: "'e ring_op \<Rightarrow> 'e event_log \<Rightarrow> 'e event_log" where
  "abs_op (AddEvent x) l =
     l\<lparr>logEvents := logEvents l @ [x],
       logLowest := max (logLowest l) (length (logEvents l) + 1 - logCapacity l)\<rparr>"
| "abs_op (ResizeTo n) l =
     l\<lparr>logCapacity := n, logLowest := max (logLowest l) (length (logEvents l) - n)\<rparr>"

fun do_op :: "'e ring_op \<Rightarrow> 'e eventRingBuffer \<Rightarrow> 'e eventRingBuffer" where
  "do_op (AddEvent x) e = ring_Add e x"
| "do_op (ResizeTo n) e = ring_Resize e n"

definition abs_get :: "'e event_log \<Rightarrow> nat \<Rightarrow> nat \<Rightarrow> 'e list" where
  "abs_get l i count =
     (if logLowest l \<le> i then take (min count (logCapacity l)) (drop i (logEvents l)) else [])"

definition ring_rel :: "'e eventRingBuffer \<Rightarrow> 'e event_log \<Rightarrow> bool" where
  "ring_rel e l \<longleftrightarrow>
     0 < capacity e \<and> capacity e < 2 ^ 62 \<and> length (logEvents l) < 2 ^ 62 \<and>
     capacity e = logCapacity l \<and> length (events e) = capacity e \<and>
     nextId e = length (logEvents l) \<and> lowestId e = logLowest l \<and>
     resizeOffset e \<le> lowestId e \<and> lowestId e \<le> nextId e \<and>
     nextId e - lowestId e \<le> capacity e \<and>
     head e = (nextId e - resizeOffset e) mod capacity e \<and>
     (full e \<longleftrightarrow> nextId e - lowestId e = capacity e) \<and>
     (\<not> full e \<longrightarrow> resizeOffset e = lowestId e) \<and>
     (\<forall>i. lowestId e \<le> i \<and> i < nextId e \<longrightarrow>
        events e ! ((i - resizeOffset e) mod capacity e) = Some (logEvents l ! i))"

text \<open>Operations that keep the counters in range and never set the capacity to zero.\<close>

definition op_ok :: "'e ring_op \<Rightarrow> bool" where
  "op_ok x = (case x of AddEvent _ \<Rightarrow> True | ResizeTo n \<Rightarrow> 0 < n \<and> n < 2 ^ 62)"

text \<open>The requests for which the computation of the second range underflows.\<close>

definition range_underflows :: "'e eventRingBuffer \<Rightarrow> nat \<Rightarrow> nat \<Rightarrow> bool" where
  "range_underflows e i count \<longleftrightarrow>
     full e \<and> 0 < head e \<and> head e \<le> fst (id2pos e i) \<and>
     fst (id2pos e i) + min count (capacity e) < capacity e"

section \<open>Lemmas\<close>

lemma go_copy_length [simp]: "i \<le> length dst \<Longrightarrow> length (go_copy dst i src) = length dst"
  by (auto simp: go_copy_def)

lemma go_copy_fill:
  "length dst \<le> length src \<Longrightarrow> go_copy dst 0 src = take (length dst) src"
  by (simp add: go_copy_def)

lemma go_copy_tail:
  "i \<le> length dst \<Longrightarrow> length dst - i \<le> length src \<Longrightarrow>
   go_copy dst i src = take i dst @ take (length dst - i) src"
  by (simp add: go_copy_def)

lemma take_go_copy0: "n \<le> length dst \<Longrightarrow> n \<le> length src \<Longrightarrow> take n (go_copy dst 0 src) = take n src"
  by (simp add: go_copy_def min_def)

lemma ring_relD:
  assumes "ring_rel e l"
  shows "0 < capacity e" "capacity e < 2 ^ 62" "nextId e < 2 ^ 62" "capacity e = logCapacity l"
    "length (events e) = capacity e" "nextId e = length (logEvents l)" "lowestId e = logLowest l"
    "resizeOffset e \<le> lowestId e" "lowestId e \<le> nextId e" "nextId e - lowestId e \<le> capacity e"
    "head e = (nextId e - resizeOffset e) mod capacity e"
    "full e \<longleftrightarrow> nextId e - lowestId e = capacity e" "\<not> full e \<Longrightarrow> resizeOffset e = lowestId e"
    "\<And>i. lowestId e \<le> i \<Longrightarrow> i < nextId e \<Longrightarrow>
       events e ! ((i - resizeOffset e) mod capacity e) = Some (logEvents l ! i)"
  using assms by (auto simp: ring_rel_def)

lemma ring_relI:
  assumes "0 < capacity e" "capacity e < 2 ^ 62" "length (logEvents l) < 2 ^ 62"
    "capacity e = logCapacity l" "length (events e) = capacity e"
    "nextId e = length (logEvents l)" "lowestId e = logLowest l"
    "resizeOffset e \<le> lowestId e" "lowestId e \<le> nextId e" "nextId e - lowestId e \<le> capacity e"
    "head e = (nextId e - resizeOffset e) mod capacity e"
    "full e \<longleftrightarrow> nextId e - lowestId e = capacity e" "\<not> full e \<Longrightarrow> resizeOffset e = lowestId e"
    "\<And>i. lowestId e \<le> i \<Longrightarrow> i < nextId e \<Longrightarrow>
       events e ! ((i - resizeOffset e) mod capacity e) = Some (logEvents l ! i)"
  shows "ring_rel e l"
  using assms unfolding ring_rel_def by blast

lemma ring_rel_new: "0 < cap \<Longrightarrow> cap < 2 ^ 62 \<Longrightarrow>
  ring_rel (newEventRingBuffer cap) \<lparr>logEvents = [], logLowest = 0, logCapacity = cap\<rparr>"
  by (auto simp: ring_rel_def newEventRingBuffer_def)

lemma replicate_numeral_Cons: "replicate (numeral k) x = x # replicate (pred_numeral k) x"
  by (simp add: numeral_eq_Suc)

lemma list_update_numeral_Cons: "(x # xs)[numeral k := y] = x # xs[pred_numeral k := y]"
  by (simp add: numeral_eq_Suc)

lemmas ring_eval = replicate_numeral_Cons list_update_numeral_Cons newEventRingBuffer_def ring_Add_def
  ring_Resize_def go_copy_def slice_def updateLowestID_def id2pos_def getLastEventID_def
  getEntriesFromRanges_def Let_def sub64_def add64_def

text \<open>Distinct identifiers in the window have distinct positions.\<close>

lemma mod_window_inj:
  fixes i j off cap :: nat
  assumes "off \<le> i" "i < j" "j - i < cap"
  shows "(i - off) mod cap \<noteq> (j - off) mod cap"
proof
  assume "(i - off) mod cap = (j - off) mod cap"
  then have "cap dvd (j - off) - (i - off)"
    using mod_eq_dvd_iff_nat [of "i - off" "j - off" cap] assms(1,2) by simp
  moreover have "(j - off) - (i - off) = j - i" using assms by linarith
  ultimately show False using assms by (auto dest: dvd_imp_le)
qed

lemma ring_rel_add:
  assumes rel: "ring_rel e l" and room: "length (logEvents l) + 1 < 2 ^ 62"
  shows "ring_rel (ring_Add e x) (abs_op (AddEvent x) l)"
proof -
  note r = ring_relD [OF rel]
  define cap off low n where d: "cap = capacity e" "off = resizeOffset e" "low = lowestId e" "n = nextId e"
  have hd: "head e < cap" using r(1,11) by (simp add: d)
  have exact: "sub64 cap 1 = cap - 1" "add64 low 1 = low + 1" "add64 (head e) 1 = head e + 1"
    "add64 n 1 = n + 1"
    using r(1-3,9) hd by (simp_all add: d sub64_exact add64_def)
  have low': "max low (n + 1 - cap) = (if full e then low + 1 else low)"
    using r(9,10,12) by (auto simp: d)
  have full': "(\<not> full e \<and> head e = cap - 1 \<or> full e) \<longleftrightarrow>
      n + 1 - (if full e then low + 1 else low) = cap"
  proof (cases "full e")
    case False
    then have "head e = n - low" using r(8-13) by (simp add: d mod_less)
    then show ?thesis using False r(1,9,10) by (auto simp: d)
  qed (use r(9,12) in \<open>simp add: d\<close>)
  have head': "(head e + 1) mod cap = (n + 1 - off) mod cap"
    using r(8,9,11) by (simp add: d Suc_diff_le mod_Suc_eq)
  have cont: "((events e)[head e := Some x]) ! ((i - off) mod cap) = Some ((logEvents l @ [x]) ! i)"
    if i: "(if full e then low + 1 else low) \<le> i" "i < n + 1" for i
  proof (cases "i = n")
    case True
    then show ?thesis using r(5,6,11) hd by (simp add: d nth_append)
  next
    case False
    with i have "low \<le> i" "i < n" by (auto split: if_splits)
    moreover have "n - i < cap" using i r(9,10,12) False by (auto simp: d split: if_splits)
    ultimately have "(i - off) mod cap \<noteq> head e"
      using mod_window_inj [of off i n cap] r(8,11) by (auto simp: d)
    with \<open>low \<le> i\<close> \<open>i < n\<close> show ?thesis
      using r(6) r(14) [of i] by (simp add: d nth_append)
  qed
  have win: "n + 1 - (if full e then low + 1 else low) \<le> cap"
    using r(9,10,12) by (auto simp: d)
  have e': "ring_Add e x = e\<lparr>events := (events e)[head e := Some x],
      full := (\<not> full e \<and> head e = cap - 1 \<or> full e),
      lowestId := (if full e then low + 1 else low), head := (n + 1 - off) mod cap, nextId := n + 1\<rparr>"
    unfolding ring_Add_def Let_def head' [symmetric]
    using exact by (auto simp: d)
  have log: "logEvents (abs_op (AddEvent x) l) = logEvents l @ [x]"
    "logLowest (abs_op (AddEvent x) l) = (if full e then low + 1 else low)"
    "logCapacity (abs_op (AddEvent x) l) = cap"
    using low' r(4,6,7) by (simp_all add: d)
  show ?thesis
  proof (rule ring_relI)
    show "\<not> full (ring_Add e x) \<Longrightarrow> resizeOffset (ring_Add e x) = lowestId (ring_Add e x)"
      using r(13) by (simp add: e' d)
    show "full (ring_Add e x) =
        (nextId (ring_Add e x) - lowestId (ring_Add e x) = capacity (ring_Add e x))"
      using full' by (simp add: e' d)
    show "events (ring_Add e x) ! ((i - resizeOffset (ring_Add e x)) mod capacity (ring_Add e x)) =
        Some (logEvents (abs_op (AddEvent x) l) ! i)"
      if "lowestId (ring_Add e x) \<le> i" "i < nextId (ring_Add e x)" for i
      using cont [of i] that unfolding log(1) by (simp add: e' d)
  qed (use r(1-9) room win log in \<open>simp_all add: e' d del: abs_op.simps\<close>)
qed

text \<open>What \<open>Resize\<close> copies into the new slice, in one or two steps.\<close>

lemma resize_copy_nth:
  fixes evs :: "'a option list"
  assumes len: "length evs = cap" and start: "start < cap" and m: "m \<le> cap" "m \<le> newSize"
    and j: "j < m"
  defines "endIdx \<equiv> (start + m - 1) mod cap"
  shows "(if endIdx \<ge> start
          then go_copy (replicate newSize None) 0 (slice evs start (endIdx + 1))
          else go_copy (go_copy (replicate newSize None) 0 (drop start evs)) (cap - start)
                 (take (endIdx + 1) evs)) ! j = evs ! ((start + j) mod cap)"
proof (cases "start + m \<le> cap")
  case True
  then have "endIdx = start + m - 1" using j start by (simp add: endIdx_def)
  then show ?thesis
    using True j len m by (auto simp: go_copy_def slice_def nth_append min_def)
next
  case False
  then have e: "endIdx = start + m - 1 - cap"
    using j start m le_mod_geq [of cap "start + m - 1"] by (simp add: endIdx_def)
  have lt: "endIdx < start" using e False m by linarith
  have step: "go_copy (replicate newSize None) 0 (drop start evs) =
      drop start evs @ replicate (newSize - (cap - start)) None"
    using False m len by (simp add: go_copy_def)
  show ?thesis
  proof (cases "j < cap - start")
    case True
    then show ?thesis
      using lt step len j m by (simp add: go_copy_def nth_append)
  next
    case j2: False
    then have mod: "(start + j) mod cap = start + j - cap"
      using j m start le_mod_geq [of cap "start + j"] by simp
    have jj: "j - (cap - start) = start + j - cap" using j2 start by linarith
    have "start + j - cap < endIdx + 1" "start + j - cap < newSize - (cap - start)"
      using e j j2 m False start by linarith+
    then show ?thesis
      using lt step len j2 j m start mod jj
      by (simp add: go_copy_def nth_append min_def)
  qed
qed

lemma ring_rel_resize:
  assumes rel: "ring_rel e l" and sz: "0 < newSize" "newSize < 2 ^ 62"
  shows "ring_rel (ring_Resize e newSize) (abs_op (ResizeTo newSize) l)"
proof (cases "newSize = capacity e")
  case True
  note r = ring_relD [OF rel]
  have "max (logLowest l) (length (logEvents l) - newSize) = logLowest l"
    using r(4,6,7,10) True by simp
  then have "abs_op (ResizeTo newSize) l = l" using r(4) True by simp
  then show ?thesis using rel True by (simp add: ring_Resize_def)
next
  case ne: False
  note r = ring_relD [OF rel]
  define cap off low n h where d: "cap = capacity e" "off = resizeOffset e" "low = lowestId e"
    "n = nextId e" "h = head e"
  define m where m: "m = min (n - low) newSize"
  have b: "low \<le> n" "off \<le> low" "n - low \<le> cap" "0 < cap" "cap < 2 ^ 62" "n < 2 ^ 62"
    "length (events e) = cap" "h = (n - off) mod cap" "h < cap" "m \<le> n - low" "m \<le> newSize"
    using r(1-3,5,8-11) by (simp_all add: d m)
  define start where st: "start = (h + cap - m) mod cap"
  have start: "start = (n - m - off) mod cap" "start < cap"
  proof -
    have "(h + cap - m) mod cap = (h + (cap - m)) mod cap" using b by simp
    also have "\<dots> = (n - off + (cap - m)) mod cap" unfolding b(8) by (simp add: mod_add_left_eq)
    also have "n - off + (cap - m) = n - m - off + cap" using b by linarith
    finally show "start = (n - m - off) mod cap" by (simp add: st)
  qed (use b in \<open>simp add: st\<close>)
  have low': "lowestId (updateLowestID e cap newSize) = n - m"
    using b(1-6) by (auto simp: updateLowestID_def m d sub64_exact)
  have keep: "nextId (updateLowestID e cap newSize) = n" by (simp add: updateLowestID_def d)
  define evs where ev: "evs = events (ring_Resize e newSize)"
  define endIdx where en: "endIdx = sub64 (add64 start m) 1 mod cap"
  have ex: "sub64 n low = n - low" "sub64 (add64 h cap) m = h + cap - m"
    using b by (simp_all add: sub64_exact add64_exact)
  have evs: "evs = (if endIdx \<ge> start
          then go_copy (replicate newSize None) 0 (slice (events e) start (endIdx + 1))
          else go_copy (go_copy (replicate newSize None) 0 (drop start (events e))) (cap - start)
                 (take (endIdx + 1) (events e)))"
    using ne ex by (simp add: ev ring_Resize_def Let_def d [symmetric] m [symmetric] st [symmetric] en)
  have en': "endIdx = (start + m - 1) mod cap" if "0 < m"
    using b start(2) that by (simp add: en sub64_exact add64_exact)
  have len: "length evs = newSize"
  proof (cases "start \<le> endIdx")
    case False
    have "0 < m"
    proof (rule ccontr)
      assume "\<not> 0 < m"
      then have "n = low" using b sz by (simp add: m)
      then have "off = low" using r(1,12,13) by (simp add: d)
      then show False using False \<open>n = low\<close> start(1) by simp
    qed
    have "cap - start \<le> newSize"
    proof (rule ccontr)
      assume "\<not> cap - start \<le> newSize"
      then have "start + m - 1 < cap" using b by linarith
      then show False using False en' [OF \<open>0 < m\<close>] \<open>0 < m\<close> by simp
    qed
    then show ?thesis using False by (simp add: evs)
  qed (simp add: evs)
  have e': "ring_Resize e newSize = (updateLowestID e cap newSize)
     \<lparr>capacity := newSize, events := evs, head := m mod newSize, resizeOffset := n - m,
      full := (m = newSize)\<rparr>"
    using ne b low' ex by (simp add: ev ring_Resize_def Let_def d [symmetric] m [symmetric])
  have cont: "evs ! ((i - (n - m)) mod newSize) = Some (logEvents l ! i)"
    if i: "n - m \<le> i" "i < n" for i
  proof -
    define j where j: "j = i - (n - m)"
    have jm: "j < m" and pos: "0 < m" using i j by linarith+
    have "evs ! j = events e ! ((start + j) mod cap)"
      unfolding evs en' [OF pos] by (rule resize_copy_nth) (use b start(2) jm in simp_all)
    also have "(start + j) mod cap = (i - off) mod cap"
    proof -
      have "(start + j) mod cap = (n - m - off + j) mod cap" by (simp add: start(1) mod_add_left_eq)
      also have "n - m - off + j = i - off" using b i j by linarith
      finally show ?thesis .
    qed
    finally show ?thesis
      using r(14) [of i] i b jm j by (simp add: d)
  qed
  have nm: "n - (n - m) = m" "max low (n - newSize) = n - m" using b by (auto simp: m)
  then have log: "logEvents (abs_op (ResizeTo newSize) l) = logEvents l"
    "logLowest (abs_op (ResizeTo newSize) l) = n - m" "logCapacity (abs_op (ResizeTo newSize) l) = newSize"
    using r(6,7) by (simp_all add: d)
  note e2 = e' low' keep log
  show ?thesis
  proof (rule ring_relI)
    show "events (ring_Resize e newSize) !
        ((i - resizeOffset (ring_Resize e newSize)) mod capacity (ring_Resize e newSize)) =
        Some (logEvents (abs_op (ResizeTo newSize) l) ! i)"
      if "lowestId (ring_Resize e newSize) \<le> i" "i < nextId (ring_Resize e newSize)" for i
      using cont [of i] that unfolding log(1) by (simp add: e' low' keep)
  qed (use r(3,6) b sz len e2 nm in \<open>simp_all add: d(4) del: abs_op.simps\<close>)
qed

text \<open>Reading ranges of the slice.\<close>

lemma entries_one_range:
  "p \<le> q \<Longrightarrow> q \<le> length (events e) \<Longrightarrow> length (events e) < 2 ^ 62 \<Longrightarrow>
   getEntriesFromRanges e \<lparr>rangeStart = p, rangeEnd = q\<rparr> None = slice (events e) p q"
  by (simp add: getEntriesFromRanges_def sub64_exact go_copy_fill slice_def drop_take)

lemma entries_empty_second:
  "p \<le> q \<Longrightarrow> q \<le> length (events e) \<Longrightarrow> length (events e) < 2 ^ 62 \<Longrightarrow>
   getEntriesFromRanges e \<lparr>rangeStart = p, rangeEnd = q\<rparr> (Some \<lparr>rangeStart = 0, rangeEnd = 0\<rparr>) =
     slice (events e) p q"
  by (simp add: getEntriesFromRanges_def sub64_exact add64_exact go_copy_fill go_copy_tail
      slice_def drop_take)

lemma entries_two_ranges:
  assumes "p \<le> length (events e)" "k \<le> p" "length (events e) < 2 ^ 62"
  shows "getEntriesFromRanges e \<lparr>rangeStart = p, rangeEnd = length (events e)\<rparr>
           (Some \<lparr>rangeStart = 0, rangeEnd = k\<rparr>) = drop p (events e) @ take k (events e)"
  using assms by (simp add: getEntriesFromRanges_def sub64_exact add64_exact go_copy_def Let_def)

text \<open>The window that starts at an available identifier, in terms of its position.\<close>

lemma ring_rel_window:
  assumes rel: "ring_rel e l" and i: "lowestId e \<le> i" "i < nextId e"
  defines "p \<equiv> (i - resizeOffset e) mod capacity e"
  shows "if full e \<and> head e \<le> p then nextId e - i = capacity e - p + head e
         else p < head e \<and> nextId e - i = head e - p"
proof -
  note r = ring_relD [OF rel]
  define cap off n where d: "cap = capacity e" "off = resizeOffset e" "n = nextId e"
  have b: "off \<le> i" "i < n" "n - i \<le> cap" "0 < cap" "head e = (n - off) mod cap"
    using r(1,8,10,11) i by (simp_all add: d)
  have sum: "head e = (p + (n - i)) mod cap"
  proof -
    have "n - off = (i - off) + (n - i)" using b by linarith
    then show ?thesis using b(5) by (simp add: p_def d mod_add_left_eq)
  qed
  have p: "p < cap" using b by (simp add: p_def d)
  show ?thesis
  proof (cases "p + (n - i) < cap")
    case True
    then have "head e = p + (n - i)" using sum by simp
    then show ?thesis using b unfolding d(1,3) [symmetric] by auto
  next
    case False
    then have h: "head e = p + (n - i) - cap"
      using sum b p le_mod_geq [of cap "p + (n - i)"] by simp
    have "full e"
    proof (rule ccontr)
      assume nf: "\<not> full e"
      then have "p = i - off" using r(10,12,13) i by (simp add: p_def d mod_less)
      then show False using False b nf r(10,12,13) by (simp add: d)
    qed
    then show ?thesis using h False b p unfolding d(1,3) [symmetric] by auto
  qed
qed

lemma getEventsFromID_refines:
  assumes rel: "ring_rel e l" and ok: "\<not> range_underflows e i count"
  shows "getEventsFromID e i count =
    (map Some (abs_get l i count), logLowest l, length (logEvents l) - 1)"
proof -
  note r = ring_relD [OF rel]
  have last: "getLastEventID e = length (logEvents l) - 1"
    using r(3,6) by (cases "logEvents l") (simp_all add: getLastEventID_def sub64_exact)
  show ?thesis
  proof (cases "lowestId e \<le> i \<and> i < nextId e")
    case False
    then show ?thesis using last r(6,7) by (auto simp: getEventsFromID_def id2pos_def abs_get_def)
  next
    case found: True
    define cap h p c where d: "cap = capacity e" "h = head e"
      "p = (i - resizeOffset e) mod capacity e" "c = min count (capacity e)"
    have pos: "id2pos e i = (p, True)"
      using found r(3,8) by (simp add: id2pos_def d sub64_exact)
    have b: "p < cap" "h < cap" "c \<le> cap" "cap < 2 ^ 62" "length (events e) = cap"
      using r(1,2,5,11) by (simp_all add: d)
    have ex: "add64 p c = p + c" using b by (simp add: add64_exact)
    have get: "getEventsFromID e i count =
        (getEntriesFromRanges e
           (if full e \<and> h \<le> p then \<lparr>rangeStart = p, rangeEnd = min (p + c) cap\<rparr>
            else \<lparr>rangeStart = p, rangeEnd = min (p + c) h\<rparr>)
           (if full e \<and> h \<le> p \<and> sub64 (p + c) cap > 0
            then Some \<lparr>rangeStart = 0, rangeEnd = min (sub64 (p + c) cap) h\<rparr> else None),
         lowestId e, getLastEventID e)"
      using pos ex by (simp add: getEventsFromID_def d Let_def)
    have win: "if full e \<and> h \<le> p then nextId e - i = cap - p + h
               else p < h \<and> nextId e - i = h - p"
      using ring_rel_window [OF rel] found by (simp add: d)
    have entry: "events e ! ((p + k) mod cap) = Some (logEvents l ! (i + k))" if "k < nextId e - i" for k
    proof -
      have "(p + k) mod cap = (i + k - resizeOffset e) mod cap"
        using found r(8) by (simp add: d mod_add_left_eq)
      then show ?thesis using r(14) [of "i + k"] found that by (simp add: d)
    qed
    have len: "length (abs_get l i count) = min c (nextId e - i)"
      using found r(4,6,7) by (simp add: abs_get_def d min.commute)
    have agree: "xs = map Some (abs_get l i count)"
      if "length xs = min c (nextId e - i)"
        "\<And>k. k < min c (nextId e - i) \<Longrightarrow> xs ! k = events e ! ((p + k) mod cap)" for xs
      using that len entry found r(4,6,7)
      by (intro nth_equalityI) (auto simp: abs_get_def d)
    show ?thesis
    proof (cases "full e \<and> h \<le> p")
      case wrap: True
      have n: "nextId e - i = cap - p + h" using win wrap by simp
      show ?thesis
      proof (cases "p + c \<le> cap")
        case True
        have "h = 0" if "p + c < cap"
          using ok wrap that pos by (auto simp: range_underflows_def d)
        then have "getEventsFromID e i count =
            (slice (events e) p (p + c), lowestId e, getLastEventID e)"
          using wrap True b entries_one_range [of p "p + c" e] entries_empty_second [of p "p + c" e]
          unfolding get by (cases "p + c = cap") (auto simp: sub64_exact min_def)
        moreover have "slice (events e) p (p + c) = map Some (abs_get l i count)"
          by (rule agree) (use True b n in \<open>auto simp: slice_def\<close>)
        ultimately show ?thesis using last r(7) by simp
      next
        case False
        define k where k: "k = min (p + c - cap) h"
        have "getEventsFromID e i count =
            (drop p (events e) @ take k (events e), lowestId e, getLastEventID e)"
          using wrap False b entries_two_ranges [of p e k]
          unfolding get by (simp add: sub64_exact k min_def)
        moreover have "drop p (events e) @ take k (events e) = map Some (abs_get l i count)"
        proof (rule agree)
          show "length (drop p (events e) @ take k (events e)) = min c (nextId e - i)"
            using b n False by (auto simp: k)
          show "(drop p (events e) @ take k (events e)) ! j = events e ! ((p + j) mod cap)"
            if "j < min c (nextId e - i)" for j
          proof (cases "p + j < cap")
            case False
            then have "p + j - cap < cap" "cap \<le> p + j" using that b by linarith+
            then have "(p + j) mod cap = p + j - cap" using le_mod_geq [of cap "p + j"] by simp
            moreover have "j - (cap - p) = p + j - cap" using b False by linarith
            moreover have "\<not> j < cap - p" "p + j - cap < k" using b False that n by (auto simp: k)
            ultimately show ?thesis using b by (simp add: nth_append)
          qed (use b in \<open>auto simp: nth_append\<close>)
        qed
        ultimately show ?thesis using last r(7) by simp
      qed
    next
      case False
      have n: "p < h" "nextId e - i = h - p" using win False by simp_all
      define q where q: "q = min (p + c) h"
      have "getEventsFromID e i count = (slice (events e) p q, lowestId e, getLastEventID e)"
        using False b n entries_one_range [of p q e] unfolding get by (auto simp: q)
      moreover have "slice (events e) p q = map Some (abs_get l i count)"
        by (rule agree) (use b n in \<open>auto simp: slice_def q\<close>)
      ultimately show ?thesis using last r(7) by simp
    qed
  qed
qed

lemma ring_rel_run:
  assumes "ring_rel e l" "list_all op_ok ops" "length (logEvents l) + length ops < 2 ^ 62"
  shows "ring_rel (fold do_op ops e) (fold abs_op ops l)"
  using assms
proof (induction ops arbitrary: e l)
  case (Cons x ops)
  have "ring_rel (do_op x e) (abs_op x l)"
    using Cons.prems by (cases x) (auto simp: op_ok_def simp del: abs_op.simps intro: ring_rel_add ring_rel_resize)
  then show ?case using Cons.IH Cons.prems by (cases x) (auto simp: op_ok_def)
qed simp

section \<open>Properties\<close>



text \<open>
  The unsigned subtraction \<open>pos + count - e.capacity\<close> underflows when the requested range ends
  before the end of the slice: then the events from the start of the slice up to the head are
  returned as well, although they were not asked for.
\<close>

lemma underflow_returns_extra_events:
  "getEventsFromID (fold do_op (map AddEvent [0, 1, 2, 3, 4, 5]) (newEventRingBuffer 4)) 2 1 =
     ([Some (2::nat), Some 4, Some 5], 2, 5)"
  by (simp add: getEventsFromID_def ring_eval)

text \<open>After the buffer wrapped, asking for more recent events than it holds returns nothing.\<close>

lemma recent_events_larger_than_buffer:
  "GetRecentEvents (fold do_op (map AddEvent [0, 1, 2, 3, 4, 5::nat]) (newEventRingBuffer 4)) 10 = []"
  by (simp add: GetRecentEvents_def getEventsFromID_def ring_eval)

end
