(* ===== verification/QueueTracker.thy ===== *)
theory QueueTracker
  imports Resources "HOL-Library.Sublist"
begin

text \<open>
  The usage of one user or one group per queue (\<open>pkg/scheduler/ugm/queue_tracker.go\<close>). A queue
  tracker is a tree that follows the queue hierarchy; the children are found by the name of the
  queue. Operations walk down a hierarchy, the list of queue names from the root to a leaf, whose
  first name is the one of the tracker itself. The set of running applications is the list of the
  keys of the map, which only ever holds the value true. The wild card limits that the code reads
  from the global manager are an argument.
\<close>

section \<open>Data\<close>

datatype trackingType = TrackNone | TrackUser | TrackGroup

record limitConfig =
  lcMaxResources :: "resource option"
  lcMaxApplications :: nat

datatype QueueTracker =
  QueueTracker (queueName: string) (queuePath: string) (resourceUsage: "resource option")
    (runningApplications: "string list") (qtMaxResources: "resource option") (qtMaxRunningApps: nat)
    (childQueueTrackers: "(string \<times> QueueTracker) list") (useWildCard: bool)

definition newQueueTracker ::
    "limitConfig gomap \<Rightarrow> string \<Rightarrow> string \<Rightarrow> trackingType \<Rightarrow> QueueTracker" where
  "newQueueTracker wildCards path name trackType =
     (let fullPath = (if path \<noteq> [] then path @ ''.'' @ name else name)
      in case (if trackType = TrackUser then map_of wildCards fullPath else None) of
           Some config \<Rightarrow>
             QueueTracker name fullPath None [] (Clone (lcMaxResources config))
               (lcMaxApplications config) [] True
         | None \<Rightarrow> QueueTracker name fullPath None [] None 0 [] False)"

definition newRootQueueTracker :: "limitConfig gomap \<Rightarrow> trackingType \<Rightarrow> QueueTracker" where
  "newRootQueueTracker wildCards trackType = newQueueTracker wildCards [] ''root'' trackType"

text \<open>Access to a child, with creation where the code creates it.\<close>

definition childOrNew ::
    "limitConfig gomap \<Rightarrow> trackingType \<Rightarrow> QueueTracker \<Rightarrow> string \<Rightarrow> QueueTracker" where
  "childOrNew wildCards trackType qt childName =
     (case map_of (childQueueTrackers qt) childName of
        Some child \<Rightarrow> child
      | None \<Rightarrow> newQueueTracker wildCards (queuePath qt) childName trackType)"

fun setChild :: "QueueTracker \<Rightarrow> string \<Rightarrow> QueueTracker \<Rightarrow> QueueTracker" where
  "setChild (QueueTracker n p u r m a cs w) childName child =
     QueueTracker n p u r m a (AList.update childName child cs) w"

fun deleteChild :: "QueueTracker \<Rightarrow> string \<Rightarrow> QueueTracker" where
  "deleteChild (QueueTracker n p u r m a cs w) childName =
     QueueTracker n p u r m a (AList.delete childName cs) w"

section \<open>Operations\<close>

fun addUsage :: "string \<Rightarrow> resource option \<Rightarrow> QueueTracker \<Rightarrow> QueueTracker" where
  "addUsage applicationID usage (QueueTracker n p u r m a cs w) =
     QueueTracker n p (Prune (AddTo (if u = None then Some NewResource else u) usage))
       (List.insert applicationID r) m a cs w"

fun increaseTrackedResource ::
    "limitConfig gomap \<Rightarrow> trackingType \<Rightarrow> string \<Rightarrow> resource option \<Rightarrow> string list \<Rightarrow> QueueTracker \<Rightarrow>
     QueueTracker" where
  "increaseTrackedResource wildCards trackType applicationID usage (q # childName # hierarchy) qt =
     addUsage applicationID usage
       (setChild qt childName
          (increaseTrackedResource wildCards trackType applicationID usage (childName # hierarchy)
             (childOrNew wildCards trackType qt childName)))"
| "increaseTrackedResource wildCards trackType applicationID usage hierarchy qt =
     addUsage applicationID usage qt"

fun removable :: "QueueTracker \<Rightarrow> bool" where
  "removable (QueueTracker n p u r m a cs w) \<longleftrightarrow>
     cs = [] \<and> r = [] \<and> IsZero u \<and> a = 0 \<and> IsZero m"

fun subUsage :: "string \<Rightarrow> resource option \<Rightarrow> bool \<Rightarrow> QueueTracker \<Rightarrow> QueueTracker" where
  "subUsage applicationID usage removeApp (QueueTracker n p u r m a cs w) =
     QueueTracker n p (Prune (SubFrom u usage)) (if removeApp then removeAll applicationID r else r)
       m a cs w"

fun decreaseTrackedResource ::
    "string \<Rightarrow> resource option \<Rightarrow> bool \<Rightarrow> string list \<Rightarrow> QueueTracker \<Rightarrow> QueueTracker \<times> bool" where
  "decreaseTrackedResource applicationID usage removeApp (q # childName # hierarchy) qt =
     (case map_of (childQueueTrackers qt) childName of
        None \<Rightarrow> (qt, False)
      | Some child \<Rightarrow>
          (case decreaseTrackedResource applicationID usage removeApp (childName # hierarchy) child of
             (child, removeQT) \<Rightarrow>
               let qt = (if removeQT then deleteChild qt childName else setChild qt childName child);
                   qt = subUsage applicationID usage removeApp qt
               in (qt, removable qt)))"
| "decreaseTrackedResource applicationID usage removeApp hierarchy qt =
     (let qt = subUsage applicationID usage removeApp qt in (qt, removable qt))"

fun setOwnLimit ::
    "resource option \<Rightarrow> nat \<Rightarrow> bool \<Rightarrow> bool \<Rightarrow> QueueTracker \<Rightarrow> QueueTracker" where
  "setOwnLimit maxResource maxApps useWild doWildCardCheck (QueueTracker n p u r m a cs w) =
     (if doWildCardCheck \<and> \<not> w then QueueTracker n p u r m a cs w
      else QueueTracker n p u r maxResource maxApps cs useWild)"

fun setLimit ::
    "limitConfig gomap \<Rightarrow> trackingType \<Rightarrow> resource option \<Rightarrow> nat \<Rightarrow> bool \<Rightarrow> bool \<Rightarrow> string list \<Rightarrow>
     QueueTracker \<Rightarrow> QueueTracker" where
  "setLimit wildCards trackType maxResource maxApps useWild doWildCardCheck
       (q # childName # hierarchy) qt =
     setChild qt childName
       (setLimit wildCards trackType maxResource maxApps useWild doWildCardCheck
          (childName # hierarchy) (childOrNew wildCards trackType qt childName))"
| "setLimit wildCards trackType maxResource maxApps useWild doWildCardCheck [q] qt =
     setOwnLimit maxResource maxApps useWild doWildCardCheck qt"
| "setLimit wildCards trackType maxResource maxApps useWild doWildCardCheck [] qt = qt"

definition ownHeadroom :: "QueueTracker \<Rightarrow> resource option \<Rightarrow> resource option" where
  "ownHeadroom qt childHeadroom =
     (let room = (if IsZero (qtMaxResources qt) then None
                  else SubOnlyExisting (qtMaxResources qt) (resourceUsage qt))
      in if room = None then childHeadroom else ComponentWiseMin room childHeadroom)"

text \<open>Not read only: missing children are created.\<close>

fun headroom ::
    "limitConfig gomap \<Rightarrow> trackingType \<Rightarrow> string list \<Rightarrow> QueueTracker \<Rightarrow>
     QueueTracker \<times> resource option" where
  "headroom wildCards trackType (q # childName # hierarchy) qt =
     (case headroom wildCards trackType (childName # hierarchy)
             (childOrNew wildCards trackType qt childName) of
        (child, childHeadroom) \<Rightarrow>
          let qt = setChild qt childName child in (qt, ownHeadroom qt childHeadroom))"
| "headroom wildCards trackType hierarchy qt = (qt, ownHeadroom qt None)"

text \<open>The conversion of a uint64 to an int.\<close>

definition int_of_uint64 :: "nat \<Rightarrow> int" where
  "int_of_uint64 a = (if int a < 2 ^ 63 then int a else int a - 2 ^ 64)"

fun ownCanRun :: "string \<Rightarrow> QueueTracker \<Rightarrow> bool" where
  "ownCanRun applicationID (QueueTracker n p u r m a cs w) \<longleftrightarrow>
     applicationID \<in> set r \<or> \<not> (a \<noteq> 0 \<and> int (length r) + 1 > int_of_uint64 a)"

fun qt_canRunApp ::
    "limitConfig gomap \<Rightarrow> trackingType \<Rightarrow> string \<Rightarrow> string list \<Rightarrow> QueueTracker \<Rightarrow>
     QueueTracker \<times> bool" where
  "qt_canRunApp wildCards trackType applicationID (q # childName # hierarchy) qt =
     (case qt_canRunApp wildCards trackType applicationID (childName # hierarchy)
             (childOrNew wildCards trackType qt childName) of
        (child, childCanRunApp) \<Rightarrow>
          (setChild qt childName child, childCanRunApp \<and> ownCanRun applicationID qt))"
| "qt_canRunApp wildCards trackType applicationID hierarchy qt = (qt, ownCanRun applicationID qt)"

fun isQueuePathTrackedCompletely :: "string list \<Rightarrow> QueueTracker \<Rightarrow> bool" where
  "isQueuePathTrackedCompletely (q # childName # hierarchy) qt =
     (case map_of (childQueueTrackers qt) childName of
        Some child \<Rightarrow> isQueuePathTrackedCompletely (childName # hierarchy) child
      | None \<Rightarrow> False)"
| "isQueuePathTrackedCompletely [q] qt = (q = ''root'' \<or> q = queueName qt)"
| "isQueuePathTrackedCompletely [] qt = False"

fun isUnlinkRequired :: "string list \<Rightarrow> QueueTracker \<Rightarrow> bool" where
  "isUnlinkRequired (q # childName # hierarchy) qt =
     (case map_of (childQueueTrackers qt) childName of
        Some child \<Rightarrow> isUnlinkRequired (childName # hierarchy) child
      | None \<Rightarrow> False)"
| "isUnlinkRequired [q] qt = ((q = ''root'' \<or> q = queueName qt) \<and> runningApplications qt = [])"
| "isUnlinkRequired [] qt = False"

text \<open>Unlinking at the end of the hierarchy: all queues below that hold no application are dropped.\<close>

primrec unlinkAll :: "QueueTracker \<Rightarrow> QueueTracker \<times> bool" where
  "unlinkAll (QueueTracker n p u r m a cs w) =
     (let kept = filter (\<lambda>(_, _, gone). \<not> gone) (map (map_prod id unlinkAll) cs);
          cs = map (\<lambda>(childName, child, _). (childName, child)) kept
      in (QueueTracker n p u r m a cs w, r = [] \<and> cs = []))"

fun unlink :: "string list \<Rightarrow> QueueTracker \<Rightarrow> QueueTracker \<times> bool" where
  "unlink (q # childName # hierarchy) qt =
     (case map_of (childQueueTrackers qt) childName of
        None \<Rightarrow> (qt, runningApplications qt = [] \<and> childQueueTrackers qt = [])
      | Some child \<Rightarrow>
          (case unlink (childName # hierarchy) child of
             (child, True) \<Rightarrow> (deleteChild qt childName, False)
           | (child, False) \<Rightarrow>
               let qt = setChild qt childName child
               in (qt, runningApplications qt = [] \<and> childQueueTrackers qt = [])))"
| "unlink hierarchy qt = unlinkAll qt"

fun inUse :: "QueueTracker \<Rightarrow> bool" where
  "inUse (QueueTracker n p u r m a cs w) \<longleftrightarrow> r \<noteq> [] \<and> \<not> IsZero u"

fun clearUsage :: "QueueTracker \<Rightarrow> QueueTracker" where
  "clearUsage (QueueTracker n p u r m a cs w) =
     (if inUse (QueueTracker n p u r m a cs w) then QueueTracker n p None [] m a cs w
      else QueueTracker n p u r m a cs w)"

primrec clearDownwards :: "QueueTracker \<Rightarrow> QueueTracker" where
  "clearDownwards (QueueTracker n p u r m a cs w) =
     (let cleared = map (map_prod id clearDownwards) cs;
          cs = map2 (\<lambda>(childName, child) (_, child'). (childName, if inUse child then child' else child))
                 cs cleared
      in clearUsage (QueueTracker n p u r m a cs w))"

fun decreaseTrackedResourceUsageDownwards ::
    "string list \<Rightarrow> QueueTracker \<Rightarrow> QueueTracker \<times> string list" where
  "decreaseTrackedResourceUsageDownwards (q # childName # hierarchy) qt =
     (case map_of (childQueueTrackers qt) childName of
        None \<Rightarrow> (clearUsage qt, [])
      | Some child \<Rightarrow>
          (case decreaseTrackedResourceUsageDownwards (childName # hierarchy) child of
             (child, removed) \<Rightarrow> (clearUsage (setChild qt childName child), removed)))"
| "decreaseTrackedResourceUsageDownwards hierarchy qt = (clearDownwards qt, runningApplications qt)"

fun canBeRemovedInternal :: "QueueTracker \<Rightarrow> bool" where
  "canBeRemovedInternal (QueueTracker n p u r m a cs w) \<longleftrightarrow>
     r = [] \<and> IsZero u \<and> cs = [] \<and> a = 0 \<and> IsZero m"

primrec canBeRemoved :: "QueueTracker \<Rightarrow> bool" where
  "canBeRemoved (QueueTracker n p u r m a cs w) \<longleftrightarrow>
     list_all (\<lambda>(_, child). canBeRemovedInternal child) cs \<and>
     list_all snd (map (map_prod id canBeRemoved) cs) \<and>
     canBeRemovedInternal (QueueTracker n p u r m a cs w)"

section \<open>Specification vocabulary\<close>

text \<open>The tracker that a hierarchy leads to, its usage and its applications.\<close>

fun tracker_at :: "string list \<Rightarrow> QueueTracker \<Rightarrow> QueueTracker option" where
  "tracker_at (q # childName # hierarchy) qt =
     (case map_of (childQueueTrackers qt) childName of
        Some child \<Rightarrow> tracker_at (childName # hierarchy) child
      | None \<Rightarrow> None)"
| "tracker_at hierarchy qt = Some qt"

definition usage_at :: "string list \<Rightarrow> QueueTracker \<Rightarrow> string \<Rightarrow> int" where
  "usage_at p qt k = (case tracker_at p qt of Some t \<Rightarrow> amount (resourceUsage t) k | None \<Rightarrow> 0)"

definition apps_at :: "string list \<Rightarrow> QueueTracker \<Rightarrow> string set" where
  "apps_at p qt = (case tracker_at p qt of Some t \<Rightarrow> set (runningApplications t) | None \<Rightarrow> {})"

text \<open>Well-formed trackers: the resources and maps are well formed and no usage is negative.\<close>

inductive wf_qt :: "QueueTracker \<Rightarrow> bool" where
  wf_qt: "wf_res u \<Longrightarrow> \<forall>k. 0 \<le> amount u k \<Longrightarrow> wf_res m \<Longrightarrow> distinct r \<Longrightarrow> wf_map cs \<Longrightarrow>
     \<forall>(childName, child) \<in> set cs. wf_qt child \<Longrightarrow> wf_qt (QueueTracker n p u r m a cs w)"

inductive_simps wf_qt_simps: "wf_qt (QueueTracker n p u r m a cs w)"

text \<open>The tracker with all the queues of a hierarchy present.\<close>

fun ensured ::
    "limitConfig gomap \<Rightarrow> trackingType \<Rightarrow> string list \<Rightarrow> QueueTracker \<Rightarrow> QueueTracker" where
  "ensured wildCards trackType (q # childName # hierarchy) qt =
     setChild qt childName
       (ensured wildCards trackType (childName # hierarchy) (childOrNew wildCards trackType qt childName))"
| "ensured wildCards trackType hierarchy qt = qt"

text \<open>Every tracker on the hierarchy, and whether it is within its limits.\<close>

definition on_hierarchy :: "string list \<Rightarrow> QueueTracker \<Rightarrow> QueueTracker \<Rightarrow> bool" where
  "on_hierarchy h qt t \<longleftrightarrow> (\<exists>p. p \<noteq> [] \<and> prefix p h \<and> tracker_at p qt = Some t)"

text \<open>The abstract view of a tracker: the list of all the usage that is currently booked, with the
  hierarchy and the application it was booked for.\<close>

type_synonym ledger = "(string list \<times> string \<times> resource option) list"

definition booked :: "ledger \<Rightarrow> string list \<Rightarrow> string \<Rightarrow> int" where
  "booked ledger p k = (\<Sum>(h, app, usage) \<leftarrow> ledger. if prefix p h then amount usage k else 0)"

definition wf_wild :: "limitConfig gomap \<Rightarrow> bool" where
  "wf_wild wildCards \<longleftrightarrow> (\<forall>path config. map_of wildCards path = Some config \<longrightarrow> wf_res (lcMaxResources config))"

text \<open>A usage that can be tracked: well formed and without negative amounts.\<close>

definition usage_res :: "resource option \<Rightarrow> bool" where
  "usage_res r \<longleftrightarrow> wf_res r \<and> (\<forall>k. 0 \<le> amount r k)"

text \<open>How a tracker is used: usage is booked and released, limits are checked and set.\<close>

inductive track_step ::
    "limitConfig gomap \<Rightarrow> trackingType \<Rightarrow> QueueTracker \<times> ledger \<Rightarrow> QueueTracker \<times> ledger \<Rightarrow> bool"
  for wildCards trackType where
  increase: "usage_res usage \<Longrightarrow> \<exists>k. 0 < amount usage k \<Longrightarrow> h \<noteq> [] \<Longrightarrow> hd h = ''root'' \<Longrightarrow>
     \<forall>k. usage_at [''root''] qt k + amount usage k \<le> max_int64 \<Longrightarrow>
     track_step wildCards trackType (qt, ledger)
       (increaseTrackedResource wildCards trackType app usage h qt, (h, app, usage) # ledger)"
| decrease: "(h, app, usage) \<in> set ledger \<Longrightarrow>
     track_step wildCards trackType (qt, ledger)
       (fst (decreaseTrackedResource app usage removeApp h qt), remove1 (h, app, usage) ledger)"
| headroom: "h \<noteq> [] \<Longrightarrow> hd h = ''root'' \<Longrightarrow>
     track_step wildCards trackType (qt, ledger) (fst (headroom wildCards trackType h qt), ledger)"
| can_run: "h \<noteq> [] \<Longrightarrow> hd h = ''root'' \<Longrightarrow>
     track_step wildCards trackType (qt, ledger)
       (fst (qt_canRunApp wildCards trackType app h qt), ledger)"
| set_limit: "h \<noteq> [] \<Longrightarrow> hd h = ''root'' \<Longrightarrow> wf_res maxResource \<Longrightarrow>
     track_step wildCards trackType (qt, ledger)
       (setLimit wildCards trackType maxResource maxApps useWild doCheck h qt, ledger)"

text \<open>A resource, and a tracker for the root queue and two of its children.\<close>

definition cpu :: "64 word \<Rightarrow> resource option" where
  "cpu n = Some [(''cpu'', Quantity n)]"

definition exampleTracker :: QueueTracker where
  "exampleTracker =
     QueueTracker ''root'' ''root'' (cpu 5) [''app-1'', ''app-2''] None 0
       [(''a'', QueueTracker ''a'' ''root.a'' (cpu 2) [''app-1''] None 0 [] False),
        (''b'', QueueTracker ''b'' ''root.b'' (cpu 3) [''app-2''] None 0 [] False)] False"

section \<open>Trackers along a hierarchy\<close>

lemma child_simps [simp]:
  "childQueueTrackers (setChild qt c ch) = AList.update c ch (childQueueTrackers qt)"
  "resourceUsage (setChild qt c ch) = resourceUsage qt"
  "runningApplications (setChild qt c ch) = runningApplications qt"
  "qtMaxResources (setChild qt c ch) = qtMaxResources qt"
  "qtMaxRunningApps (setChild qt c ch) = qtMaxRunningApps qt"
  "queuePath (setChild qt c ch) = queuePath qt"
  "childQueueTrackers (deleteChild qt c) = AList.delete c (childQueueTrackers qt)"
  "resourceUsage (deleteChild qt c) = resourceUsage qt"
  "runningApplications (deleteChild qt c) = runningApplications qt"
  "childQueueTrackers (addUsage app usage qt) = childQueueTrackers qt"
  "runningApplications (addUsage app usage qt) = List.insert app (runningApplications qt)"
  "qtMaxResources (addUsage app usage qt) = qtMaxResources qt"
  "qtMaxRunningApps (addUsage app usage qt) = qtMaxRunningApps qt"
  "childQueueTrackers (subUsage app usage rm qt) = childQueueTrackers qt"
  "runningApplications (subUsage app usage rm qt) =
     (if rm then removeAll app (runningApplications qt) else runningApplications qt)"
  by (cases qt; simp)+

lemma tracker_at_setChild:
  "tracker_at (q # c # p) (setChild qt c' ch) =
     (if c = c' then tracker_at (c # p) ch else tracker_at (q # c # p) qt)"
  by (simp add: update_conv')

lemma tracker_at_usage [simp]:
  "tracker_at (q # c # p) (addUsage app usage qt) = tracker_at (q # c # p) qt"
  "tracker_at (q # c # p) (subUsage app usage rm qt) = tracker_at (q # c # p) qt"
  by simp_all

lemma at_setChild:
  "usage_at (q # c # p) (setChild qt c' ch) k =
     (if c = c' then usage_at (c # p) ch k else usage_at (q # c # p) qt k)"
  "apps_at (q # c # p) (setChild qt c' ch) =
     (if c = c' then apps_at (c # p) ch else apps_at (q # c # p) qt)"
  by (simp_all add: usage_at_def apps_at_def tracker_at_setChild del: tracker_at.simps(1))

lemma at_usage [simp]:
  "usage_at (q # c # p) (addUsage app usage qt) k = usage_at (q # c # p) qt k"
  "apps_at (q # c # p) (addUsage app usage qt) = apps_at (q # c # p) qt"
  "usage_at (q # c # p) (subUsage app usage rm qt) k = usage_at (q # c # p) qt k"
  "apps_at (q # c # p) (subUsage app usage rm qt) = apps_at (q # c # p) qt"
  by (simp_all add: usage_at_def apps_at_def)

lemma at_end [simp]:
  "usage_at [q] qt k = amount (resourceUsage qt) k" "apps_at [q] qt = set (runningApplications qt)"
  by (simp_all add: usage_at_def apps_at_def)

lemma update_twice: "AList.update k v (AList.update k v' m) = AList.update k v m"
  by (induction m) auto

lemma setChild_twice [simp]: "setChild (setChild qt c a) c b = setChild qt c b"
  by (cases qt) (simp add: update_twice)

lemma childOrNew_setChild [simp]: "childOrNew wc tt (setChild qt c ch) c = ch"
  by (simp add: childOrNew_def update_conv')

lemma newQueueTracker_simps [simp]:
  "childQueueTrackers (newQueueTracker wc path name tt) = []"
  "resourceUsage (newQueueTracker wc path name tt) = None"
  "runningApplications (newQueueTracker wc path name tt) = []"
  by (simp_all add: newQueueTracker_def Let_def split: option.splits)

lemma tracker_at_new:
  "tracker_at (q # p) (newQueueTracker wc path name tt) =
     (if p = [] then Some (newQueueTracker wc path name tt) else None)"
  by (cases p) simp_all

lemma usage_at_childOrNew:
  "usage_at (c # p) (childOrNew wc tt qt c) k = usage_at (q # c # p) qt k"
  "apps_at (c # p) (childOrNew wc tt qt c) = apps_at (q # c # p) qt"
  by (auto simp: usage_at_def apps_at_def childOrNew_def tracker_at_new split: option.splits)

lemma headroom_ensured: "fst (headroom wc tt h qt) = ensured wc tt h qt"
  by (induction wc tt h qt rule: headroom.induct) (auto simp: Let_def split: prod.splits)

lemma canRunApp_ensured: "fst (qt_canRunApp wc tt app h qt) = ensured wc tt h qt"
  by (induction wc tt app h qt rule: qt_canRunApp.induct) (auto split: prod.splits)

lemma ensured_idem [simp]: "ensured wc tt h (ensured wc tt h qt) = ensured wc tt h qt"
  by (induction wc tt h qt rule: ensured.induct) simp_all

lemma increase_ensured:
  "increaseTrackedResource wc tt app usage h (ensured wc tt h qt) =
   increaseTrackedResource wc tt app usage h qt"
  by (induction wc tt h qt rule: ensured.induct) simp_all

lemma usage_at_ensured:
  "h \<noteq> [] \<Longrightarrow> p \<noteq> [] \<Longrightarrow> hd p = hd h \<Longrightarrow> usage_at p (ensured wc tt h qt) k = usage_at p qt k"
proof (induction wc tt h qt arbitrary: p rule: ensured.induct)
  case (1 wc tt q c h qt)
  obtain p' where p: "p = q # p'" using "1.prems" by (cases p) auto
  show ?case
  proof (cases p')
    case (Cons d p'')
    then show ?thesis
      using "1.IH" [of "c # p''"] usage_at_childOrNew(1) [of c p'' wc tt qt k q]
      by (simp add: p at_setChild)
  qed (simp add: p)
qed auto

section \<open>Increasing and decreasing usage\<close>

lemma wf_qtD:
  assumes "wf_qt qt"
  shows "wf_res (resourceUsage qt)" "0 \<le> amount (resourceUsage qt) k" "wf_res (qtMaxResources qt)"
    "distinct (runningApplications qt)" "wf_map (childQueueTrackers qt)"
    "map_of (childQueueTrackers qt) c = Some ch \<Longrightarrow> wf_qt ch"
  using assms by (cases qt; auto simp: wf_qt_simps dest!: map_of_SomeD)+

lemma wf_new: "wf_wild wc \<Longrightarrow> wf_qt (newQueueTracker wc path name tt)"
  by (auto simp: newQueueTracker_def Let_def wf_qt_simps wf_wild_def wf_intros
      split: option.splits if_splits)

lemma wf_childOrNew: "wf_qt qt \<Longrightarrow> wf_wild wc \<Longrightarrow> wf_qt (childOrNew wc tt qt c)"
  by (auto simp: childOrNew_def wf_new wf_qtD split: option.splits)

lemma wf_setChild: "wf_qt qt \<Longrightarrow> wf_qt ch \<Longrightarrow> wf_qt (setChild qt c ch)"
proof (cases qt)
  case (QueueTracker n p u r m a cs w)
  assume wf: "wf_qt qt" "wf_qt ch"
  have "child \<in> snd ` set (AList.update c ch cs) \<Longrightarrow> child = ch \<or> child \<in> snd ` set cs" for child
    by (induction cs) (auto split: if_splits)
  then show ?thesis using wf QueueTracker by (fastforce simp: wf_qt_simps wf_intros)
qed

lemma wf_deleteChild: "wf_qt qt \<Longrightarrow> wf_qt (deleteChild qt c)"
  by (cases qt) (auto simp: wf_qt_simps wf_intros AList.delete_eq)

lemma amount_addUsage:
  "wf_qt qt \<Longrightarrow> wf_res usage \<Longrightarrow>
   amount (resourceUsage (addUsage app usage qt)) k = sat64 (amount (resourceUsage qt) k + amount usage k)"
proof (cases qt)
  case (QueueTracker n p u r m a cs w)
  assume wf: "wf_qt qt" "wf_res usage"
  define v where v: "v = (if u = None then Some NewResource else u)"
  have "wf_res v" "v \<noteq> None" "amount v k = amount u k"
    using wf(1) by (auto simp: QueueTracker v wf_qt_simps NewResource_def amount_def)
  then show ?thesis using wf(2) by (simp add: QueueTracker v [symmetric] amount_simps wf_intros)
qed

lemma wf_addUsage: "wf_qt qt \<Longrightarrow> usage_res usage \<Longrightarrow> wf_qt (addUsage app usage qt)"
proof -
  assume wf: "wf_qt qt" "usage_res usage"
  have "0 \<le> amount usage k" for k using wf(2) by (simp add: usage_res_def)
  then have "0 \<le> amount (resourceUsage (addUsage app usage qt)) k" for k
    using wf amount_addUsage [of qt usage app k] wf_qtD(2) [OF wf(1), of k]
    by (simp add: usage_res_def sat64_def add_nonneg_nonneg le_max_iff_disj)
  then show ?thesis using wf by (cases qt) (auto simp: wf_qt_simps wf_intros NewResource_def)
qed

lemma wf_increase:
  "wf_qt qt \<Longrightarrow> wf_wild wc \<Longrightarrow> usage_res usage \<Longrightarrow> wf_qt (increaseTrackedResource wc tt app usage h qt)"
  by (induction wc tt app usage h qt rule: increaseTrackedResource.induct)
    (simp_all add: wf_addUsage wf_setChild wf_childOrNew)

lemma wf_ensured: "wf_qt qt \<Longrightarrow> wf_wild wc \<Longrightarrow> wf_qt (ensured wc tt h qt)"
  by (induction wc tt h qt rule: ensured.induct) (simp_all add: wf_setChild wf_childOrNew)

text \<open>The increase is booked in every queue of the hierarchy and nowhere else.\<close>

lemma increase_at:
  assumes "wf_qt qt" "wf_wild wc" "usage_res usage" "h \<noteq> []" "p \<noteq> []" "hd p = hd h"
  shows "usage_at p (increaseTrackedResource wc tt app usage h qt) k =
      (if prefix p h then sat64 (usage_at p qt k + amount usage k) else usage_at p qt k) \<and>
    apps_at p (increaseTrackedResource wc tt app usage h qt) =
      (if prefix p h then insert app (apps_at p qt) else apps_at p qt)"
  using assms
proof (induction wc tt app usage h qt arbitrary: p rule: increaseTrackedResource.induct [case_names rec none leaf])
  case (rec wc tt app usage q c h qt)
  note prems = rec.prems
  define ch where ch: "ch = childOrNew wc tt qt c"
  define ch' where ch': "ch' = increaseTrackedResource wc tt app usage (c # h) ch"
  have wf: "wf_qt ch" "wf_qt ch'" "wf_res usage"
    using prems by (auto simp: ch ch' wf_childOrNew wf_increase usage_res_def)
  obtain p' where p: "p = q # p'" using prems by (cases p) auto
  show ?case
  proof (cases p')
    case Nil
    then show ?thesis
      using amount_addUsage [OF wf_setChild [OF prems(1) wf(2)] wf(3), of app c k]
      by (simp add: p ch [symmetric] ch' [symmetric])
  next
    case (Cons d p'')
    then show ?thesis
      using rec.IH [of "c # p''"] prems wf usage_at_childOrNew [of c p'' wc tt qt] 
      by (auto simp: p at_setChild ch)
  qed
next
  case (none wc tt app usage qt)
  then show ?case by simp
next
  case (leaf wc tt app usage q qt)
  note prems = leaf.prems
  obtain p' where p: "p = q # p'" using prems by (cases p) auto
  show ?case
    using prems amount_addUsage [of qt usage app k] by (cases p') (auto simp: p usage_res_def)
qed

lemma amount_subUsage:
  assumes "wf_qt qt" "usage_res usage" "amount usage k \<le> amount (resourceUsage qt) k"
  shows "amount (resourceUsage (subUsage app usage rm qt)) k = amount (resourceUsage qt) k - amount usage k"
proof (cases qt)
  case (QueueTracker n p u r m a cs w)
  have "0 \<le> amount usage k" "wf_res usage" "amount u k \<le> max_int64" "wf_res u"
    using assms amount_bounds [of u k] by (auto simp: usage_res_def QueueTracker wf_qt_simps)
  then show ?thesis
    using assms(3)
    by (cases u) (auto simp: QueueTracker SubFrom_def [of None] amount_simps wf_intros sat64_def)
qed

lemma wf_subUsage:
  assumes "wf_qt qt" "usage_res usage" "\<And>k. amount usage k \<le> amount (resourceUsage qt) k"
  shows "wf_qt (subUsage app usage rm qt)"
proof -
  have "0 \<le> amount (resourceUsage (subUsage app usage rm qt)) k" for k
    using amount_subUsage [OF assms(1,2), of k] assms(3) by simp
  then show ?thesis using assms(1) by (cases qt) (auto simp: wf_qt_simps wf_intros distinct_removeAll)
qed

lemma removable_at:
  "removable qt \<Longrightarrow> wf_qt qt \<Longrightarrow> usage_at (q # p) qt k = 0 \<and> apps_at (q # p) qt = {}"
  by (cases qt; cases p) (auto simp: wf_qt_simps IsZero_iff usage_at_def apps_at_def)

lemma at_deleteChild:
  "usage_at (q # c # p) (deleteChild qt c') k = (if c = c' then 0 else usage_at (q # c # p) qt k)"
  "apps_at (q # c # p) (deleteChild qt c') = (if c = c' then {} else apps_at (q # c # p) qt)"
  by (simp_all add: usage_at_def apps_at_def delete_conv')

text \<open>The decrease is booked in every queue of a tracked hierarchy and nowhere else, and only
  trackers without usage, applications and limits are dropped.\<close>

lemma decrease_at:
  assumes "wf_qt qt" "usage_res usage" "h \<noteq> []" "tracker_at h qt \<noteq> None"
    and "\<And>p k. p \<noteq> [] \<Longrightarrow> prefix p h \<Longrightarrow> amount usage k \<le> usage_at p qt k"
  shows "wf_qt (fst (decreaseTrackedResource app usage rm h qt)) \<and>
    (\<forall>p k. p \<noteq> [] \<longrightarrow> hd p = hd h \<longrightarrow>
      usage_at p (fst (decreaseTrackedResource app usage rm h qt)) k =
        (if prefix p h then usage_at p qt k - amount usage k else usage_at p qt k) \<and>
      apps_at p (fst (decreaseTrackedResource app usage rm h qt)) =
        (if prefix p h \<and> rm then apps_at p qt - {app} else apps_at p qt)) \<and>
    (snd (decreaseTrackedResource app usage rm h qt) \<longrightarrow>
       removable (fst (decreaseTrackedResource app usage rm h qt)))"
  using assms
proof (induction app usage rm h qt rule: decreaseTrackedResource.induct [case_names rec none leaf])
  case (rec app usage rm q c h qt)
  note prems = rec.prems
  obtain ch where ch: "map_of (childQueueTrackers qt) c = Some ch"
    using prems(4) by (auto split: option.splits)
  obtain ch' gone where d: "decreaseTrackedResource app usage rm (c # h) ch = (ch', gone)" by fastforce
  have down: "usage_at (q # c # p) qt k = usage_at (c # p) ch k"
    "apps_at (q # c # p) qt = apps_at (c # p) ch" for p k
    using ch by (simp_all add: usage_at_def apps_at_def)
  have wf: "wf_qt ch" using wf_qtD(6) [OF prems(1)] ch by blast
  have "amount usage k \<le> usage_at p ch k" if "p \<noteq> []" "prefix p (c # h)" for p k
    using prems(5) [of "q # p"] that down(1) by (cases p) auto
  then have IH: "wf_qt ch'" "gone \<Longrightarrow> removable ch'"
    "\<And>p k. usage_at (c # p) ch' k =
      (if prefix (c # p) (c # h) then usage_at (c # p) ch k - amount usage k else usage_at (c # p) ch k)"
    "\<And>p. apps_at (c # p) ch' =
      (if prefix (c # p) (c # h) \<and> rm then apps_at (c # p) ch - {app} else apps_at (c # p) ch)"
    using rec.IH [OF ch wf prems(2)] prems(4) ch d by auto
  define qt1 where qt1: "qt1 = (if gone then deleteChild qt c else setChild qt c ch')"
  have wf1: "wf_qt qt1" using prems(1) IH(1) by (simp add: qt1 wf_deleteChild wf_setChild)
  have u1: "resourceUsage qt1 = resourceUsage qt" "runningApplications qt1 = runningApplications qt"
    by (simp_all add: qt1)
  have at1: "usage_at (q # c' # p) qt1 k =
        (if c' = c then usage_at (c # p) ch' k else usage_at (q # c' # p) qt k)"
    "apps_at (q # c' # p) qt1 = (if c' = c then apps_at (c # p) ch' else apps_at (q # c' # p) qt)" for c' p k
    using removable_at [OF IH(2) IH(1), of c p] by (auto simp: qt1 at_deleteChild at_setChild)
  have res: "decreaseTrackedResource app usage rm (q # c # h) qt =
      (subUsage app usage rm qt1, removable (subUsage app usage rm qt1))"
    using ch d by (simp add: qt1 Let_def)
  have le: "amount usage k \<le> amount (resourceUsage qt1) k" for k
    using prems(5) [of "[q]" k] by (simp add: u1)
  have "usage_at p (subUsage app usage rm qt1) k =
        (if prefix p (q # c # h) then usage_at p qt k - amount usage k else usage_at p qt k) \<and>
      apps_at p (subUsage app usage rm qt1) =
        (if prefix p (q # c # h) \<and> rm then apps_at p qt - {app} else apps_at p qt)"
    if p: "p \<noteq> []" "hd p = q" for p k
  proof -
    obtain p' where p': "p = q # p'" using p by (cases p) auto
    show ?thesis
    proof (cases p')
      case Nil
      then show ?thesis using amount_subUsage [OF wf1 prems(2) le] by (auto simp: p' u1)
    next
      case (Cons c' p'')
      then show ?thesis using IH(3) [of p'' k] IH(4) [of p''] down by (auto simp: p' at1)
    qed
  qed
  then show ?case using wf_subUsage [OF wf1 prems(2) le] unfolding res by simp
next
  case (none app usage rm qt)
  then show ?case by simp
next
  case (leaf app usage rm q qt)
  note prems = leaf.prems
  have le: "amount usage k \<le> amount (resourceUsage qt) k" for k using prems(5) [of "[q]" k] by simp
  show ?case
    using wf_subUsage [OF prems(1,2) le] amount_subUsage [OF prems(1,2) le]
  proof -
    have "usage_at p (subUsage app usage rm qt) k =
          (if prefix p [q] then usage_at p qt k - amount usage k else usage_at p qt k) \<and>
        apps_at p (subUsage app usage rm qt) =
          (if prefix p [q] \<and> rm then apps_at p qt - {app} else apps_at p qt)"
      if p: "p \<noteq> []" "hd p = q" for p k
    proof -
      obtain p' where p': "p = q # p'" using p by (cases p) auto
      show ?thesis using amount_subUsage [OF prems(1,2) le] by (cases p') (auto simp: p')
    qed
    then show ?thesis using wf_subUsage [OF prems(1,2) le] by (simp add: Let_def)
  qed
qed

section \<open>Limits\<close>

lemma tracker_at_prefix_ensured:
  "p \<noteq> [] \<Longrightarrow> prefix p h \<Longrightarrow> \<exists>t. tracker_at p (ensured wc tt h qt) = Some t"
proof (induction wc tt h qt arbitrary: p rule: ensured.induct)
  case (1 wc tt q c h qt)
  obtain p' where p: "p = q # p'" "prefix p' (c # h)" using "1.prems" by (auto simp: neq_Nil_conv)
  show ?case
  proof (cases p')
    case (Cons d p'')
    then have "d = c" using p(2) by simp
    then show ?thesis
      using "1.IH" [of p'] p Cons by (simp add: tracker_at_setChild del: tracker_at.simps(1))
  qed (simp add: p)
qed (auto simp: neq_Nil_conv prefix_Cons)

lemma on_hierarchy_Cons:
  "on_hierarchy (q # c # h) qt t \<longleftrightarrow>
     t = qt \<or> (\<exists>ch. map_of (childQueueTrackers qt) c = Some ch \<and> on_hierarchy (c # h) ch t)"
proof
  assume "on_hierarchy (q # c # h) qt t"
  then obtain p where p: "prefix p (c # h)" "tracker_at (q # p) qt = Some t"
    by (auto simp: on_hierarchy_def neq_Nil_conv)
  then show "t = qt \<or> (\<exists>ch. map_of (childQueueTrackers qt) c = Some ch \<and> on_hierarchy (c # h) ch t)"
    by (cases p) (auto simp: on_hierarchy_def split: option.splits)
next
  assume "t = qt \<or> (\<exists>ch. map_of (childQueueTrackers qt) c = Some ch \<and> on_hierarchy (c # h) ch t)"
  then show "on_hierarchy (q # c # h) qt t"
  proof
    assume "t = qt"
    then have "tracker_at [q] qt = Some t" by simp
    then show ?thesis unfolding on_hierarchy_def by (intro exI [of _ "[q]"]) simp
  next
    assume "\<exists>ch. map_of (childQueueTrackers qt) c = Some ch \<and> on_hierarchy (c # h) ch t"
    then obtain ch p where p: "map_of (childQueueTrackers qt) c = Some ch" "prefix (c # p) (c # h)"
      "tracker_at (c # p) ch = Some t" by (auto simp: on_hierarchy_def neq_Nil_conv)
    then have "tracker_at (q # c # p) qt = Some t" by simp
    then show ?thesis using p(2) unfolding on_hierarchy_def by (intro exI [of _ "q # c # p"]) simp
  qed
qed

lemma all_on_hierarchy_Cons:
  "(\<forall>t. on_hierarchy (q # c # h) qt t \<longrightarrow> P t) \<longleftrightarrow>
     P qt \<and> (\<forall>ch. map_of (childQueueTrackers qt) c = Some ch \<longrightarrow> (\<forall>t. on_hierarchy (c # h) ch t \<longrightarrow> P t))"
  unfolding on_hierarchy_Cons by blast

lemma on_hierarchy_single: "on_hierarchy [q] qt t \<longleftrightarrow> t = qt"
proof -
  have "p \<noteq> [] \<and> prefix p [q] \<longleftrightarrow> p = [q]" for p by (cases p) auto
  then have "on_hierarchy [q] qt t \<longleftrightarrow> (\<exists>p. p = [q] \<and> tracker_at p qt = Some t)"
    unfolding on_hierarchy_def by (simp add: conj_assoc [symmetric])
  then show ?thesis by auto
qed

lemma wf_on_hierarchy: "wf_qt qt \<Longrightarrow> on_hierarchy h qt t \<Longrightarrow> wf_qt t"
  unfolding on_hierarchy_def
proof (elim exE conjE)
  fix p show "wf_qt qt \<Longrightarrow> tracker_at p qt = Some t \<Longrightarrow> wf_qt t"
    by (induction p qt rule: tracker_at.induct) (auto split: option.splits dest: wf_qtD(6))
qed

text \<open>Whether a request stays within the limit of one tracker.\<close>

definition fits_tracker :: "resource option \<Rightarrow> QueueTracker \<Rightarrow> bool" where
  "fits_tracker request t \<longleftrightarrow>
     IsZero (qtMaxResources t) \<or>
     FitInMaxUndef (SubOnlyExisting (qtMaxResources t) (resourceUsage t)) request"

lemma wf_ownHeadroom: "wf_res childHeadroom \<Longrightarrow> wf_res (ownHeadroom qt childHeadroom)"
  by (simp add: ownHeadroom_def Let_def wf_intros)

lemma FitInMaxUndef_None: "wf_res s \<Longrightarrow> FitInMaxUndef None s"
  by (simp add: FitInMaxUndef_iff res_has_def)

lemma fits_ownHeadroom:
  assumes "wf_res childHeadroom" "wf_res request"
  shows "FitInMaxUndef (ownHeadroom qt childHeadroom) request \<longleftrightarrow>
    fits_tracker request qt \<and> FitInMaxUndef childHeadroom request"
  using assms
  by (auto simp: ownHeadroom_def fits_tracker_def Let_def FitInMaxUndef_ComponentWiseMin wf_intros
      FitInMaxUndef_None)

lemma fits_headroom:
  assumes "wf_res request" "h \<noteq> []"
  shows "wf_res (snd (headroom wc tt h qt)) \<and>
    (FitInMaxUndef (snd (headroom wc tt h qt)) request \<longleftrightarrow>
      (\<forall>t. on_hierarchy h (ensured wc tt h qt) t \<longrightarrow> fits_tracker request t))"
  using assms
proof (induction wc tt h qt rule: headroom.induct)
  case (1 wc tt q c h qt)
  define ch where ch: "ch = childOrNew wc tt qt c"
  obtain ch' room where hr: "headroom wc tt (c # h) ch = (ch', room)" by fastforce
  have e: "ensured wc tt (c # h) ch = ch'" using hr headroom_ensured [of wc tt "c # h" ch] by simp
  have same: "fits_tracker request (setChild qt c ch') \<longleftrightarrow> fits_tracker request qt"
    by (simp add: fits_tracker_def)
  show ?case
    using "1.IH" "1.prems" hr e
    by (simp add: ch [symmetric] Let_def wf_ownHeadroom fits_ownHeadroom all_on_hierarchy_Cons
        update_conv' same)
qed (auto simp: wf_ownHeadroom fits_ownHeadroom on_hierarchy_single FitInMaxUndef_None)

lemma ownCanRun_iff:
  "ownCanRun app qt \<longleftrightarrow> app \<in> set (runningApplications qt) \<or>
     qtMaxRunningApps qt = 0 \<or> int (length (runningApplications qt)) + 1 \<le> int_of_uint64 (qtMaxRunningApps qt)"
  by (cases qt) auto

lemma canRun_all:
  "h \<noteq> [] \<Longrightarrow> snd (qt_canRunApp wc tt app h qt) \<longleftrightarrow>
     (\<forall>t. on_hierarchy h (ensured wc tt h qt) t \<longrightarrow> ownCanRun app t)"
proof (induction wc tt app h qt rule: qt_canRunApp.induct)
  case (1 wc tt app q c h qt)
  define ch where ch: "ch = childOrNew wc tt qt c"
  obtain ch' ok where hr: "qt_canRunApp wc tt app (c # h) ch = (ch', ok)" by fastforce
  have e: "ensured wc tt (c # h) ch = ch'" using hr canRunApp_ensured [of wc tt app "c # h" ch] by simp
  have same: "ownCanRun app (setChild qt c ch') \<longleftrightarrow> ownCanRun app qt"
    by (simp add: ownCanRun_iff)
  show ?case
    using "1.IH" hr e by (auto simp: ch [symmetric] all_on_hierarchy_Cons update_conv' same)
qed (auto simp: on_hierarchy_single)

lemma ensured_on_hierarchy_head: "h \<noteq> [] \<Longrightarrow> on_hierarchy h qt qt"
  by (cases h) (auto simp: on_hierarchy_def intro: exI [of _ "[hd h]"])

text \<open>What an increase does to each tracker of the hierarchy.\<close>

lemma increase_on_hierarchy:
  assumes "wf_qt qt" "wf_wild wc" "usage_res usage" "h \<noteq> []"
    and "on_hierarchy h (increaseTrackedResource wc tt app usage h qt) t"
  shows "\<exists>t0. on_hierarchy h (ensured wc tt h qt) t0 \<and> qtMaxResources t = qtMaxResources t0 \<and>
    qtMaxRunningApps t = qtMaxRunningApps t0 \<and>
    runningApplications t = List.insert app (runningApplications t0) \<and>
    (\<forall>k. amount (resourceUsage t) k = sat64 (amount (resourceUsage t0) k + amount usage k))"
  using assms
proof (induction wc tt app usage h qt rule: increaseTrackedResource.induct [case_names rec none leaf])
  case (rec wc tt app usage q c h qt)
  note prems = rec.prems
  define ch where ch: "ch = childOrNew wc tt qt c"
  define ch1 where ch1: "ch1 = increaseTrackedResource wc tt app usage (c # h) ch"
  define ch2 where ch2: "ch2 = ensured wc tt (c # h) ch"
  have wf: "wf_qt ch" "wf_qt ch1" "wf_qt ch2"
    using prems by (simp_all add: ch ch1 ch2 wf_childOrNew wf_increase wf_ensured)
  have top: "amount (resourceUsage (addUsage app usage (setChild qt c ch1))) k =
      sat64 (amount (resourceUsage (setChild qt c ch2)) k + amount usage k)" for k
    using amount_addUsage [OF wf_setChild [OF prems(1) wf(2)]] prems(3) by (simp add: usage_res_def)
  have e: "ensured wc tt (q # c # h) qt = setChild qt c ch2" by (simp add: ch ch2)
  have i: "increaseTrackedResource wc tt app usage (q # c # h) qt = addUsage app usage (setChild qt c ch1)"
    by (simp add: ch ch1)
  have "t = addUsage app usage (setChild qt c ch1) \<or> on_hierarchy (c # h) ch1 t"
    using prems(5) unfolding i on_hierarchy_Cons by (auto simp: update_conv')
  then show ?case
  proof
    assume "t = addUsage app usage (setChild qt c ch1)"
    then show ?thesis
      unfolding e using top ensured_on_hierarchy_head [of "q # c # h" "setChild qt c ch2"]
      by (intro exI [of _ "setChild qt c ch2"]) simp
  next
    assume "on_hierarchy (c # h) ch1 t"
    with rec.IH [folded ch, OF wf(1) prems(2,3)] obtain t0 where
      "on_hierarchy (c # h) ch2 t0" and t0: "qtMaxResources t = qtMaxResources t0"
      "qtMaxRunningApps t = qtMaxRunningApps t0"
      "runningApplications t = List.insert app (runningApplications t0)"
      "\<forall>k. amount (resourceUsage t) k = sat64 (amount (resourceUsage t0) k + amount usage k)"
      by (auto simp: ch1 ch2)
    then have "on_hierarchy (q # c # h) (setChild qt c ch2) t0"
      unfolding on_hierarchy_Cons by (auto simp: update_conv')
    then show ?thesis unfolding e using t0 by blast
  qed
next
  case (leaf wc tt app usage q qt)
  then show ?case
    using amount_addUsage [of qt usage app] by (auto simp: on_hierarchy_single usage_res_def)
qed simp

text \<open>Usage is not touched by limits.\<close>

lemma setOwnLimit_simps [simp]:
  "resourceUsage (setOwnLimit m a w d qt) = resourceUsage qt"
  "runningApplications (setOwnLimit m a w d qt) = runningApplications qt"
  "childQueueTrackers (setOwnLimit m a w d qt) = childQueueTrackers qt"
  by (cases qt; simp)+

lemma usage_at_setLimit:
  "p \<noteq> [] \<Longrightarrow> hd p = hd h \<Longrightarrow> h \<noteq> [] \<Longrightarrow> usage_at p (setLimit wc tt m a w d h qt) k = usage_at p qt k"
proof (induction wc tt m a w d h qt arbitrary: p rule: setLimit.induct)
  case (1 wc tt m a w d q c h qt)
  obtain p' where p: "p = q # p'" using "1.prems" by (cases p) auto
  show ?case
  proof (cases p')
    case (Cons e p'')
    then show ?thesis
      using "1.IH" [of "c # p''"] usage_at_childOrNew(1) [of c p'' wc tt qt k q]
      by (simp add: p at_setChild)
  qed (simp add: p)
next
  case (2 wc tt m a w d q qt)
  then obtain p' where "p = q # p'" by (cases p) auto
  then show ?case by (cases p') (simp_all add: usage_at_def)
qed simp

lemma wf_setLimit: "wf_qt qt \<Longrightarrow> wf_wild wc \<Longrightarrow> wf_res m \<Longrightarrow> wf_qt (setLimit wc tt m a w d h qt)"
proof (induction wc tt m a w d h qt rule: setLimit.induct)
  case (2 wc tt m a w d q qt)
  then show ?case by (cases qt) (auto simp: wf_qt_simps)
qed (simp_all add: wf_setChild wf_childOrNew)

section \<open>Trackers and the ledger\<close>

definition ledger_ok :: "ledger \<Rightarrow> bool" where
  "ledger_ok ledger \<longleftrightarrow> (\<forall>(h, app, usage) \<in> set ledger.
     usage_res usage \<and> (\<exists>k. 0 < amount usage k) \<and> h \<noteq> [] \<and> hd h = ''root'')"

definition tracks :: "QueueTracker \<Rightarrow> ledger \<Rightarrow> bool" where
  "tracks qt ledger \<longleftrightarrow> wf_qt qt \<and> ledger_ok ledger \<and>
     (\<forall>p k. p \<noteq> [] \<longrightarrow> hd p = ''root'' \<longrightarrow> usage_at p qt k = booked ledger p k)"

lemma tracksD:
  "tracks qt ledger \<Longrightarrow> p \<noteq> [] \<Longrightarrow> hd p = ''root'' \<Longrightarrow> usage_at p qt k = booked ledger p k"
  by (simp add: tracks_def)

lemma booked_simps:
  "booked [] p k = 0"
  "booked ((h, app, usage) # ledger) p k = (if prefix p h then amount usage k else 0) + booked ledger p k"
  by (simp_all add: booked_def)

lemma booked_remove1:
  "(h, app, usage) \<in> set ledger \<Longrightarrow>
   booked (remove1 (h, app, usage) ledger) p k =
     booked ledger p k - (if prefix p h then amount usage k else 0)"
  by (induction ledger) (auto simp: booked_simps)

lemma booked_nonneg: "ledger_ok ledger \<Longrightarrow> 0 \<le> booked ledger p k"
  by (induction ledger) (auto simp: booked_simps ledger_ok_def usage_res_def)

lemma ledger_ok_remove1: "ledger_ok ledger \<Longrightarrow> ledger_ok (remove1 x ledger)"
  using set_remove1_subset [of x ledger] unfolding ledger_ok_def by blast

lemma booked_entry:
  "ledger_ok ledger \<Longrightarrow> (h, app, usage) \<in> set ledger \<Longrightarrow> prefix p h \<Longrightarrow> amount usage k \<le> booked ledger p k"
proof -
  assume ok: "ledger_ok ledger" and entry: "(h, app, usage) \<in> set ledger" and p: "prefix p h"
  have "ledger_ok (remove1 (h, app, usage) ledger)" using ok by (rule ledger_ok_remove1)
  then show ?thesis using booked_nonneg [of "remove1 (h, app, usage) ledger" p k] booked_remove1 [OF entry] p by simp
qed

lemma booked_root:
  "ledger_ok ledger \<Longrightarrow> p \<noteq> [] \<Longrightarrow> hd p = ''root'' \<Longrightarrow> booked ledger p k \<le> booked ledger [''root''] k"
proof (induction ledger)
  case (Cons e ledger)
  obtain h app usage where e: "e = (h, app, usage)" by (cases e)
  have "prefix p h \<Longrightarrow> prefix [''root''] h" using Cons.prems(2,3) by (cases p; cases h) auto
  moreover have "0 \<le> amount usage k" "ledger_ok ledger"
    using Cons.prems(1) by (auto simp: e ledger_ok_def usage_res_def)
  ultimately show ?case using Cons by (auto simp: e booked_simps)
qed (simp add: booked_simps)

lemma tracks_step:
  assumes "track_step wc tt (qt, ledger) (qt', ledger')" "tracks qt ledger" "wf_wild wc"
  shows "tracks qt' ledger'"
  using assms(1)
proof cases
  case (increase usage h app)
  have "usage_at p qt' k = booked ledger' p k" if p: "p \<noteq> []" "hd p = ''root''" for p k
  proof -
    have "usage_at p qt k = booked ledger p k" using assms(2) p by (simp add: tracks_def)
    moreover have "0 \<le> usage_at p qt k"
      using assms(2) booked_nonneg calculation by (simp add: tracks_def)
    moreover have "0 \<le> amount usage k" using increase(3) by (simp add: usage_res_def)
    moreover have "usage_at p qt k + amount usage k \<le> max_int64"
    proof -
      have "usage_at [''root''] qt k = booked ledger [''root''] k"
        by (rule tracksD [OF assms(2)]) simp_all
      moreover have "booked ledger p k \<le> booked ledger [''root''] k"
        using assms(2) p by (intro booked_root) (simp_all add: tracks_def)
      ultimately show ?thesis
        using increase(7) [rule_format, of k] \<open>usage_at p qt k = booked ledger p k\<close> by linarith
    qed
    ultimately have "sat64 (usage_at p qt k + amount usage k) = usage_at p qt k + amount usage k"
      by (simp add: sat64_def)
    then show ?thesis
      using increase_at [of qt wc usage h p tt app k] assms(2,3) increase p
        \<open>usage_at p qt k = booked ledger p k\<close>
      by (simp add: tracks_def booked_simps)
  qed
  moreover have "wf_qt qt'" using assms(2,3) increase by (simp add: tracks_def wf_increase)
  ultimately show ?thesis using assms(2) increase by (auto simp: tracks_def ledger_ok_def)
next
  case (decrease h app usage rm)
  have ok: "usage_res usage" "h \<noteq> []" "hd h = ''root''" "\<exists>k. 0 < amount usage k"
    using assms(2) decrease(3) by (auto simp: tracks_def ledger_ok_def)
  have le: "amount usage k \<le> usage_at p qt k" if "p \<noteq> []" "prefix p h" for p k
  proof -
    have "hd p = ''root''" using that ok(2,3) by (cases p; cases h) auto
    then show ?thesis
      using booked_entry [OF _ decrease(3) that(2)] assms(2) that(1) by (simp add: tracks_def)
  qed
  have "tracker_at h qt \<noteq> None"
  proof
    assume "tracker_at h qt = None"
    then have "usage_at h qt k = 0" for k by (simp add: usage_at_def)
    then show False using le [of h] ok(2,4) by (metis linorder_not_less order_refl prefix_order.order_refl)
  qed
  moreover have "wf_qt qt" using assms(2) by (simp add: tracks_def)
  ultimately have d: "wf_qt qt' \<and> (\<forall>p k. p \<noteq> [] \<longrightarrow> hd p = hd h \<longrightarrow> usage_at p qt' k =
      (if prefix p h then usage_at p qt k - amount usage k else usage_at p qt k))"
    using decrease_at [of qt usage h app rm, OF _ ok(1,2) _ le] unfolding decrease(1) by presburger
  then have new: "wf_qt qt'" "p \<noteq> [] \<Longrightarrow> hd p = hd h \<Longrightarrow> usage_at p qt' k =
      (if prefix p h then usage_at p qt k - amount usage k else usage_at p qt k)" for p k
    by simp_all
  moreover have "ledger_ok ledger'"
    using assms(2) unfolding decrease(2) tracks_def by (simp add: ledger_ok_remove1)
  moreover have "usage_at p qt' k = booked ledger' p k" if "p \<noteq> []" "hd p = ''root''" for p k
    using new(2) [of p k] that ok(3) assms(2) booked_remove1 [OF decrease(3), of p k]
    by (simp add: decrease(2) tracks_def)
  ultimately show ?thesis by (simp add: tracks_def)
next
  case (headroom h)
  then show ?thesis
    using assms(2,3) by (simp add: headroom_ensured tracks_def usage_at_ensured wf_ensured)
next
  case (can_run h app)
  then show ?thesis
    using assms(2,3) by (simp add: canRunApp_ensured tracks_def usage_at_ensured wf_ensured)
next
  case (set_limit h maxResource maxApps useWild doCheck)
  then show ?thesis
    using assms(2,3) by (simp add: tracks_def usage_at_setLimit wf_setLimit)
qed

lemma usage_at_root: "usage_at p (newRootQueueTracker wc tt) k = 0"
  by (cases p rule: remdups_adj.cases) (simp_all add: usage_at_def newRootQueueTracker_def amount_def)

lemma tracks_new: "wf_wild wc \<Longrightarrow> tracks (newRootQueueTracker wc tt) []"
  using wf_new [of wc "[]" "''root''" tt]
  by (simp add: tracks_def ledger_ok_def booked_simps usage_at_root) (simp add: newRootQueueTracker_def)

lemma tracks_run:
  assumes "(track_step wc tt)\<^sup>*\<^sup>* x y" "wf_wild wc" "tracks (fst x) (snd x)"
  shows "tracks (fst y) (snd y)"
  using assms(1)
proof (induction rule: rtranclp_induct)
  case (step y z)
  then show ?case using tracks_step [of wc tt "fst y" "snd y" "fst z" "snd z"] assms(2) by simp
qed (rule assms(3))

lemma amount_cpu: "amount (cpu n) k = (if k = ''cpu'' then sint n else 0)"
  by (simp add: cpu_def amount_def)

lemma wf_cpu: "wf_res (cpu n)"
  by (simp add: cpu_def)

text \<open>A booking that passed both checks keeps every tracker of the hierarchy within its limits.\<close>

lemma increase_within_limits:
  assumes "wf_qt qt" "wf_wild wc" "usage_res usage" "h \<noteq> []"
    and "FitInMaxUndef (snd (headroom wc tt h qt)) usage" "snd (qt_canRunApp wc tt app h qt)"
    and "\<forall>t. on_hierarchy h (ensured wc tt h qt) t \<longrightarrow>
      qtMaxRunningApps t \<noteq> 0 \<longrightarrow> length (runningApplications t) \<le> qtMaxRunningApps t"
    and "on_hierarchy h (increaseTrackedResource wc tt app usage h qt) t"
  shows "(\<forall>k. 0 < amount usage k \<and> res_has (qtMaxResources t) k \<and> \<not> IsZero (qtMaxResources t) \<longrightarrow>
      amount (resourceUsage t) k \<le> amount (qtMaxResources t) k) \<and>
    (qtMaxRunningApps t \<noteq> 0 \<longrightarrow> length (runningApplications t) \<le> qtMaxRunningApps t)"
proof -
  obtain t0 where t0: "on_hierarchy h (ensured wc tt h qt) t0" "qtMaxResources t = qtMaxResources t0"
    "qtMaxRunningApps t = qtMaxRunningApps t0"
    "runningApplications t = List.insert app (runningApplications t0)"
    "\<And>k. amount (resourceUsage t) k = sat64 (amount (resourceUsage t0) k + amount usage k)"
    using increase_on_hierarchy [OF assms(1-4,8)] by blast
  have wf: "wf_qt t0" using wf_on_hierarchy [OF wf_ensured [OF assms(1,2)] t0(1)] .
  have wfu: "wf_res usage" using assms(3) by (simp add: usage_res_def)
  have fits: "fits_tracker usage t0" "ownCanRun app t0"
    using fits_headroom [OF wfu assms(4)] canRun_all [OF assms(4)] assms(5,6) t0(1) by blast+
  have "amount (resourceUsage t) k \<le> amount (qtMaxResources t) k"
    if k: "0 < amount usage k" "res_has (qtMaxResources t) k" "\<not> IsZero (qtMaxResources t)" for k
  proof -
    have has: "res_has usage k" using k(1) amount_undefined by fastforce
    have "amount (resourceUsage t0) k \<noteq> min_int64" using wf_qtD(2) [OF wf, of k] by simp
    then have "amount usage k \<le> max 0 (sat64 (amount (qtMaxResources t0) k - amount (resourceUsage t0) k))"
      using fits(1) k has t0(2) wfu wf_qtD(3) [OF wf]
      by (auto simp: fits_tracker_def FitInMaxUndef_iff amount_simps lookup_simps res_has_OnlyExisting)
    then have "amount usage k \<le> amount (qtMaxResources t0) k - amount (resourceUsage t0) k"
      using k(1) wf_qtD(2) [OF wf, of k] amount_bounds [of "qtMaxResources t0" k] by (auto simp: sat64_def)
    then show ?thesis
      using t0(2) t0(5) [of k] amount_bounds [of "qtMaxResources t0" k] wf_qtD(2) [OF wf, of k] k(1)
      by (simp add: sat64_def)
  qed
  moreover have "length (runningApplications t) \<le> qtMaxRunningApps t" if "qtMaxRunningApps t \<noteq> 0"
  proof -
    have "length (runningApplications t0) \<le> qtMaxRunningApps t0" using assms(7) t0(1,3) that by simp
    moreover have "length (runningApplications t0) + 1 \<le> qtMaxRunningApps t0"
      if "app \<notin> set (runningApplications t0)"
      using fits(2) that \<open>qtMaxRunningApps t \<noteq> 0\<close> t0(3) unfolding ownCanRun_iff
      by (auto simp: int_of_uint64_def split: if_splits)
    ultimately show ?thesis
      using t0(3,4) by (cases "app \<in> set (runningApplications t0)") (simp_all add: List.insert_def)
  qed
  ultimately show ?thesis by blast
qed

section \<open>Properties\<close>



text \<open>The search through the children decides nothing: a tracker with a child is never removed.\<close>

lemma canBeRemoved_ignores_children: "canBeRemoved qt = canBeRemovedInternal qt"
  by (cases qt) auto

text \<open>
  A release in a hierarchy that is not tracked completely: the tracker above the missing child
  keeps its usage, the trackers further up are decreased all the same.
\<close>

lemma release_of_untracked_queue_unbalances:
  "usage_at [''root''] (fst (decreaseTrackedResource ''app-1'' (cpu 2) False
       [''root'', ''a'', ''x''] exampleTracker)) ''cpu'' = 3 \<and>
   usage_at [''root'', ''a''] (fst (decreaseTrackedResource ''app-1'' (cpu 2) False
       [''root'', ''a'', ''x''] exampleTracker)) ''cpu'' = 2"
  by code_simp

text \<open>
  Clearing the usage of a group in one queue clears the whole usage of its parents as well, although
  the group still uses resources in another queue.
\<close>

lemma clearing_one_queue_clears_parents:
  "usage_at [''root''] (fst (decreaseTrackedResourceUsageDownwards [''root'', ''a''] exampleTracker)) ''cpu'' = 0 \<and>
   usage_at [''root'', ''b'']
     (fst (decreaseTrackedResourceUsageDownwards [''root'', ''a''] exampleTracker)) ''cpu'' = 3"
  by code_simp

end
