(* ===== verification/UserGroupManager.thy ===== *)
theory UserGroupManager
  imports QueueTracker Configs
begin

text \<open>
  Users and groups (\<open>pkg/scheduler/ugm\<close>: \<open>user_tracker.go\<close>, \<open>group_tracker.go\<close>, \<open>manager.go\<close>,
  \<open>utilities.go\<close>). The manager finds the trackers of users and groups by name. A user tracker links
  an application to a group tracker; of that pointer only the name of the group is ever used, the
  tracker is looked up again in the manager, so the model keeps the name, with \<open>None\<close> for a nil
  pointer. Every exported operation of the manager is one function on its state; events and logging
  are left out.
\<close>

section \<open>Data\<close>

record UserTracker =
  userName :: string
  appGroupTrackers :: "(string \<times> string option) list"
  userQueueTracker :: QueueTracker

record GroupTracker =
  groupName :: string
  groupApplications :: "string gomap"
  groupQueueTracker :: QueueTracker

record Manager =
  userTrackers :: "UserTracker gomap"
  groupTrackers :: "GroupTracker gomap"
  userWildCardLimitsConfig :: "limitConfig gomap"
  groupWildCardLimitsConfig :: "limitConfig gomap"
  configuredGroups :: "string list gomap"
  userLimits :: "limitConfig gomap gomap"
  groupLimits :: "limitConfig gomap gomap"

definition newManager :: Manager where
  "newManager =
     \<lparr>userTrackers = [], groupTrackers = [], userWildCardLimitsConfig = [],
      groupWildCardLimitsConfig = [], configuredGroups = [], userLimits = [], groupLimits = []\<rparr>"

definition newUserTracker :: "Manager \<Rightarrow> string \<Rightarrow> UserTracker" where
  "newUserTracker m name =
     \<lparr>userName = name, appGroupTrackers = [],
      userQueueTracker = newRootQueueTracker (userWildCardLimitsConfig m) TrackUser\<rparr>"

definition newGroupTracker :: "Manager \<Rightarrow> string \<Rightarrow> GroupTracker" where
  "newGroupTracker m name =
     \<lparr>groupName = name, groupApplications = [],
      groupQueueTracker = newRootQueueTracker (userWildCardLimitsConfig m) TrackGroup\<rparr>"

text \<open>The part of a path before its last dot.\<close>

definition getParentPath :: "string \<Rightarrow> string" where
  "getParentPath path =
     (if CHR ''.'' \<in> set path then rev (tl (dropWhile (\<lambda>c. c \<noteq> CHR ''.'') (rev path))) else [])"

abbreviation hierarchy_of :: "string \<Rightarrow> string list" where
  "hierarchy_of path \<equiv> Split path CHR ''.''"

section \<open>Lookup of trackers\<close>

abbreviation put_user :: "Manager \<Rightarrow> string \<Rightarrow> UserTracker \<Rightarrow> Manager" where
  "put_user m user ut \<equiv> m\<lparr>userTrackers := AList.update user ut (userTrackers m)\<rparr>"

abbreviation put_group :: "Manager \<Rightarrow> string \<Rightarrow> GroupTracker \<Rightarrow> Manager" where
  "put_group m grp gt \<equiv> m\<lparr>groupTrackers := AList.update grp gt (groupTrackers m)\<rparr>"

text \<open>Returns the tracker of a user, after creating it when it is missing.\<close>

definition getUserTracker :: "Manager \<Rightarrow> string \<Rightarrow> Manager \<times> UserTracker" where
  "getUserTracker m user =
     (case map_of (userTrackers m) user of
        Some ut \<Rightarrow> (m, ut)
      | None \<Rightarrow> let ut = newUserTracker m user in (put_user m user ut, ut))"

definition hasGroupForApp :: "UserTracker \<Rightarrow> string \<Rightarrow> bool" where
  "hasGroupForApp ut applicationID = map_has (appGroupTrackers ut) applicationID"

definition setGroupForApp :: "UserTracker \<Rightarrow> string \<Rightarrow> string option \<Rightarrow> UserTracker" where
  "setGroupForApp ut applicationID grp =
     ut\<lparr>appGroupTrackers := AList.update applicationID grp (appGroupTrackers ut)\<rparr>"

definition getGroupForApp :: "UserTracker \<Rightarrow> string \<Rightarrow> string" where
  "getGroupForApp ut applicationID =
     (case map_of (appGroupTrackers ut) applicationID of Some (Some grp) \<Rightarrow> grp | _ \<Rightarrow> [])"

text \<open>A manager with a wild card limit for users and a limit for one group.\<close>

definition exampleManager :: Manager where
  "exampleManager = newManager
     \<lparr>userWildCardLimitsConfig := [(''root'', \<lparr>lcMaxResources = cpu 10, lcMaxApplications = 2\<rparr>)],
      configuredGroups := [(''root'', [''dev''])],
      groupTrackers := [(''dev'', \<lparr>groupName = ''dev'', groupApplications = [],
        groupQueueTracker = QueueTracker ''root'' ''root'' None [] (cpu 8) 1 [] False\<rparr>)]\<rparr>"

definition alice :: UserGroup where
  "alice = \<lparr>User = ''alice'', Groups = [''staff'', ''dev'']\<rparr>"

section \<open>The group of an application\<close>

lemma getParentPath_shorter: "getParentPath path \<noteq> [] \<Longrightarrow> length (getParentPath path) < length path"
proof -
  assume "getParentPath path \<noteq> []"
  then have d: "CHR ''.'' \<in> set (rev path)" by (auto simp: getParentPath_def split: if_splits)
  then have "dropWhile (\<lambda>c. c \<noteq> CHR ''.'') (rev path) \<noteq> []" by (auto simp: dropWhile_eq_Nil_conv)
  then have "length (tl (dropWhile (\<lambda>c. c \<noteq> CHR ''.'') (rev path))) <
      length (dropWhile (\<lambda>c. c \<noteq> CHR ''.'') (rev path))" by simp
  also have "\<dots> \<le> length path" using length_dropWhile_le [of _ "rev path"] by simp
  finally show ?thesis using d by (simp add: getParentPath_def)
qed

text \<open>The first group of the configuration of one queue that the user is a member of.\<close>

definition matchGroup :: "Manager \<Rightarrow> string list \<Rightarrow> string \<Rightarrow> string option" where
  "matchGroup m userGroups path =
     (case map_of (configuredGroups m) path of
        Some configGroups \<Rightarrow> List.find (\<lambda>g. g \<in> set userGroups) configGroups
      | None \<Rightarrow> None)"

function ensureGroupInternal :: "Manager \<Rightarrow> string list \<Rightarrow> string \<Rightarrow> string" where
  "ensureGroupInternal m userGroups path =
     (case matchGroup m userGroups path of
        Some g \<Rightarrow> g
      | None \<Rightarrow>
          if map_has (groupWildCardLimitsConfig m) path then ''*''
          else let parentPath = getParentPath path
               in if parentPath = [] then [] else ensureGroupInternal m userGroups parentPath)"
  by pat_completeness auto

termination ensureGroupInternal
  by (relation "measure (\<lambda>(_, _, path). length path)") (auto dest: getParentPath_shorter)

declare ensureGroupInternal.simps [simp del]

definition ensureGroup :: "Manager \<Rightarrow> UserGroup \<Rightarrow> string \<Rightarrow> string" where
  "ensureGroup m user path =
     (if Groups user = [] then [] else ensureGroupInternal m (Groups user) path)"

text \<open>The user tracker must exist; \<open>None\<close> is a nil dereference.\<close>

definition ensureGroupTrackerForApp :: "Manager \<Rightarrow> string \<Rightarrow> string \<Rightarrow> UserGroup \<Rightarrow> Manager option" where
  "ensureGroupTrackerForApp m path applicationID user =
     (case map_of (userTrackers m) (User user) of
        None \<Rightarrow> None
      | Some ut \<Rightarrow>
          if hasGroupForApp ut applicationID then Some m
          else
            let appGroup = ensureGroup m user path;
                m = (if appGroup \<noteq> [] \<and> map_of (groupTrackers m) appGroup = None
                     then put_group m appGroup (newGroupTracker m appGroup) else m)
            in Some (put_user m (User user) (setGroupForApp ut applicationID
                  (if appGroup \<noteq> [] then Some appGroup else None))))"

section \<open>Tracking usage\<close>

definition user_increaseTrackedResource ::
    "Manager \<Rightarrow> UserTracker \<Rightarrow> string \<Rightarrow> string \<Rightarrow> resource option \<Rightarrow> UserTracker" where
  "user_increaseTrackedResource m ut path applicationID usage =
     ut\<lparr>userQueueTracker :=
          increaseTrackedResource (userWildCardLimitsConfig m) TrackUser applicationID usage
            (hierarchy_of path) (userQueueTracker ut)\<rparr>"

definition group_increaseTrackedResource ::
    "Manager \<Rightarrow> GroupTracker \<Rightarrow> string \<Rightarrow> string \<Rightarrow> resource option \<Rightarrow> string \<Rightarrow> GroupTracker" where
  "group_increaseTrackedResource m gt path applicationID usage user =
     gt\<lparr>groupApplications := AList.update applicationID user (groupApplications gt),
        groupQueueTracker :=
          increaseTrackedResource (userWildCardLimitsConfig m) TrackGroup applicationID usage
            (hierarchy_of path) (groupQueueTracker gt)\<rparr>"

text \<open>The current object of a user in the manager, after a call that may have changed it.\<close>

abbreviation the_user :: "Manager \<Rightarrow> string \<Rightarrow> UserTracker" where
  "the_user m user \<equiv> the (map_of (userTrackers m) user)"

definition IncreaseTrackedResource ::
    "Manager \<Rightarrow> string \<Rightarrow> string \<Rightarrow> resource option \<Rightarrow> UserGroup \<Rightarrow> Manager option" where
  "IncreaseTrackedResource m path applicationID usage user =
     (if path = [] \<or> applicationID = [] \<or> usage = None \<or> User user = [] then Some m
      else case getUserTracker m (User user) of
        (m, ut) \<Rightarrow>
          (case (if hasGroupForApp ut applicationID then Some m
                 else ensureGroupTrackerForApp m path applicationID user) of
             None \<Rightarrow> None
           | Some m \<Rightarrow>
               let ut = user_increaseTrackedResource m (the_user m (User user)) path applicationID usage;
                   m = put_user m (User user) ut;
                   appGroup = getGroupForApp ut applicationID
               in if appGroup = [] then Some m
                  else case map_of (groupTrackers m) appGroup of
                         None \<Rightarrow> Some m
                       | Some gt \<Rightarrow>
                           Some (put_group m appGroup
                             (group_increaseTrackedResource m gt path applicationID usage (userName ut)))))"

definition user_decreaseTrackedResource ::
    "UserTracker \<Rightarrow> string \<Rightarrow> string \<Rightarrow> resource option \<Rightarrow> bool \<Rightarrow> UserTracker \<times> bool" where
  "user_decreaseTrackedResource ut path applicationID usage removeApp =
     (let ut = (if removeApp
                then ut\<lparr>appGroupTrackers := AList.delete applicationID (appGroupTrackers ut)\<rparr> else ut)
      in case decreaseTrackedResource applicationID usage removeApp (hierarchy_of path)
                (userQueueTracker ut) of
           (qt, removeQT) \<Rightarrow> (ut\<lparr>userQueueTracker := qt\<rparr>, removeQT))"

definition group_decreaseTrackedResource ::
    "GroupTracker \<Rightarrow> string \<Rightarrow> string \<Rightarrow> resource option \<Rightarrow> bool \<Rightarrow> GroupTracker \<times> bool" where
  "group_decreaseTrackedResource gt path applicationID usage removeApp =
     (let gt = (if removeApp
                then gt\<lparr>groupApplications := AList.delete applicationID (groupApplications gt)\<rparr> else gt)
      in case decreaseTrackedResource applicationID usage removeApp (hierarchy_of path)
                (groupQueueTracker gt) of
           (qt, removeQT) \<Rightarrow> (gt\<lparr>groupQueueTracker := qt\<rparr>, removeQT))"

definition DecreaseTrackedResource ::
    "Manager \<Rightarrow> string \<Rightarrow> string \<Rightarrow> resource option \<Rightarrow> UserGroup \<Rightarrow> bool \<Rightarrow> Manager" where
  "DecreaseTrackedResource m path applicationID usage user removeApp =
     (if path = [] \<or> applicationID = [] \<or> usage = None \<or> User user = [] then m
      else case map_of (userTrackers m) (User user) of
        None \<Rightarrow> m
      | Some ut \<Rightarrow>
          let appGroup = getGroupForApp ut applicationID;
              m = (case user_decreaseTrackedResource ut path applicationID usage removeApp of
                     (ut, True) \<Rightarrow> m\<lparr>userTrackers := AList.delete (User user) (userTrackers m)\<rparr>
                   | (ut, False) \<Rightarrow> put_user m (User user) ut)
          in if appGroup = [] then m
             else case map_of (groupTrackers m) appGroup of
                    None \<Rightarrow> m
                  | Some gt \<Rightarrow>
                      (case group_decreaseTrackedResource gt path applicationID usage removeApp of
                         (gt, True) \<Rightarrow> m\<lparr>groupTrackers := AList.delete appGroup (groupTrackers m)\<rparr>
                       | (gt, False) \<Rightarrow> put_group m appGroup gt))"

section \<open>Checks\<close>

definition Headroom ::
    "Manager \<Rightarrow> string \<Rightarrow> string \<Rightarrow> UserGroup \<Rightarrow> (Manager \<times> resource option) option" where
  "Headroom m path applicationID user =
     (case getUserTracker m (User user) of
        (m, ut) \<Rightarrow>
          (case headroom (userWildCardLimitsConfig m) TrackUser (hierarchy_of path) (userQueueTracker ut) of
             (qt, userHeadroom) \<Rightarrow>
               let ut = ut\<lparr>userQueueTracker := qt\<rparr>;
                   m = put_user m (User user) ut
               in case (if hasGroupForApp ut applicationID then Some m
                        else ensureGroupTrackerForApp m path applicationID user) of
                    None \<Rightarrow> None
                  | Some m \<Rightarrow>
                      let appGroup = getGroupForApp (the_user m (User user)) applicationID
                      in if appGroup = [] then Some (m, userHeadroom)
                         else case map_of (groupTrackers m) appGroup of
                                None \<Rightarrow> Some (m, userHeadroom)
                              | Some gt \<Rightarrow>
                                  (case headroom (userWildCardLimitsConfig m) TrackGroup
                                          (hierarchy_of path) (groupQueueTracker gt) of
                                     (qt, groupHeadroom) \<Rightarrow>
                                       Some (put_group m appGroup (gt\<lparr>groupQueueTracker := qt\<rparr>),
                                             ComponentWiseMin userHeadroom groupHeadroom))))"

definition CanRunApp ::
    "Manager \<Rightarrow> string \<Rightarrow> string \<Rightarrow> UserGroup \<Rightarrow> (Manager \<times> bool) option" where
  "CanRunApp m path applicationID user =
     (case getUserTracker m (User user) of
        (m, ut) \<Rightarrow>
          (case qt_canRunApp (userWildCardLimitsConfig m) TrackUser applicationID (hierarchy_of path)
                  (userQueueTracker ut) of
             (qt, userCanRunApp) \<Rightarrow>
               let ut = ut\<lparr>userQueueTracker := qt\<rparr>;
                   m = put_user m (User user) ut
               in case (if hasGroupForApp ut applicationID then Some m
                        else ensureGroupTrackerForApp m path applicationID user) of
                    None \<Rightarrow> None
                  | Some m \<Rightarrow>
                      let appGroup = getGroupForApp (the_user m (User user)) applicationID
                      in if appGroup = [] then Some (m, userCanRunApp)
                         else case map_of (groupTrackers m) appGroup of
                                None \<Rightarrow> Some (m, userCanRunApp)
                              | Some gt \<Rightarrow>
                                  (case qt_canRunApp (userWildCardLimitsConfig m) TrackGroup applicationID
                                          (hierarchy_of path) (groupQueueTracker gt) of
                                     (qt, groupCanRunApp) \<Rightarrow>
                                       Some (put_group m appGroup (gt\<lparr>groupQueueTracker := qt\<rparr>),
                                             userCanRunApp \<and> groupCanRunApp))))"

section \<open>Configuration of limits\<close>

definition user_setLimits ::
    "Manager \<Rightarrow> UserTracker \<Rightarrow> string \<Rightarrow> resource option \<Rightarrow> nat \<Rightarrow> bool \<Rightarrow> bool \<Rightarrow> UserTracker" where
  "user_setLimits m ut path res maxApps useWild doWildCardCheck =
     ut\<lparr>userQueueTracker :=
          setLimit (userWildCardLimitsConfig m) TrackUser res maxApps useWild doWildCardCheck
            (hierarchy_of path) (userQueueTracker ut)\<rparr>"

definition user_clearLimits :: "Manager \<Rightarrow> UserTracker \<Rightarrow> string \<Rightarrow> bool \<Rightarrow> UserTracker" where
  "user_clearLimits m ut path doWildCardCheck = user_setLimits m ut path None 0 False doWildCardCheck"

definition group_setLimits ::
    "Manager \<Rightarrow> GroupTracker \<Rightarrow> string \<Rightarrow> resource option \<Rightarrow> nat \<Rightarrow> GroupTracker" where
  "group_setLimits m gt path res maxApps =
     gt\<lparr>groupQueueTracker :=
          setLimit (userWildCardLimitsConfig m) TrackGroup res maxApps False False
            (hierarchy_of path) (groupQueueTracker gt)\<rparr>"

definition group_clearLimits :: "Manager \<Rightarrow> GroupTracker \<Rightarrow> string \<Rightarrow> GroupTracker" where
  "group_clearLimits m gt path = group_setLimits m gt path None 0"

definition setUserLimits :: "Manager \<Rightarrow> string \<Rightarrow> limitConfig \<Rightarrow> string \<Rightarrow> Manager" where
  "setUserLimits m user config path =
     (let ut = (case map_of (userTrackers m) user of
                  Some ut \<Rightarrow> ut | None \<Rightarrow> newUserTracker m user)
      in m\<lparr>userTrackers := AList.update user
             (user_setLimits m ut path (lcMaxResources config) (lcMaxApplications config) False False)
             (userTrackers m)\<rparr>)"

definition setGroupLimits :: "Manager \<Rightarrow> string \<Rightarrow> limitConfig \<Rightarrow> string \<Rightarrow> Manager" where
  "setGroupLimits m grp config path =
     (let gt = (case map_of (groupTrackers m) grp of
                  Some gt \<Rightarrow> gt | None \<Rightarrow> newGroupTracker m grp)
      in m\<lparr>groupTrackers := AList.update grp
             (group_setLimits m gt path (lcMaxResources config) (lcMaxApplications config))
             (groupTrackers m)\<rparr>)"

text \<open>The maps that a new configuration fills.\<close>

record limitMaps =
  newUserLimits :: "limitConfig gomap gomap"
  newGroupLimits :: "limitConfig gomap gomap"
  newUserWildCards :: "limitConfig gomap"
  newGroupWildCards :: "limitConfig gomap"
  newConfiguredGroups :: "string list gomap"

definition noLimits :: limitMaps where
  "noLimits =
     \<lparr>newUserLimits = [], newGroupLimits = [], newUserWildCards = [], newGroupWildCards = [],
      newConfiguredGroups = []\<rparr>"

definition putLimit ::
    "string \<Rightarrow> string \<Rightarrow> limitConfig \<Rightarrow> limitConfig gomap gomap \<Rightarrow> limitConfig gomap gomap" where
  "putLimit path name config limits =
     AList.update path (AList.update name config (map_get [] limits path)) limits"

definition processUser ::
    "string \<Rightarrow> limitConfig \<Rightarrow> string \<Rightarrow> Manager \<times> limitMaps \<Rightarrow> Manager \<times> limitMaps" where
  "processUser path config user =
     (\<lambda>(m, new).
        if user = [] then (m, new)
        else if user = ''*''
        then (m, new\<lparr>newUserWildCards := AList.update path config (newUserWildCards new)\<rparr>)
        else (setUserLimits m user config path,
              new\<lparr>newUserLimits := putLimit path user config (newUserLimits new)\<rparr>))"

definition processGroup ::
    "string \<Rightarrow> limitConfig \<Rightarrow> string \<Rightarrow> Manager \<times> limitMaps \<Rightarrow> Manager \<times> limitMaps" where
  "processGroup path config grp =
     (\<lambda>(m, new).
        if grp = [] then (m, new)
        else
          let m = setGroupLimits m grp config path;
              new = new\<lparr>newGroupLimits := putLimit path grp config (newGroupLimits new)\<rparr>
          in if grp = ''*''
             then (m, new\<lparr>newGroupWildCards := AList.update path config (newGroupWildCards new)\<rparr>)
             else (m, new\<lparr>newConfiguredGroups :=
                     AList.update path (map_get [] (newConfiguredGroups new) path @ [grp])
                       (newConfiguredGroups new)\<rparr>))"

fun processLimits ::
    "string \<Rightarrow> string \<Rightarrow> limit list \<Rightarrow> Manager \<times> limitMaps \<Rightarrow> (Manager \<times> limitMaps) \<times> parse_error option" where
  "processLimits cpuName path [] st = (st, None)"
| "processLimits cpuName path (lim # limits) st =
     (case NewResourceFromConf cpuName (limitMaxResources lim) of
        Inl err \<Rightarrow> (st, Some err)
      | Inr maxResource \<Rightarrow>
          let config = \<lparr>lcMaxResources = Some maxResource,
                        lcMaxApplications = limitMaxApplications lim\<rparr>;
              st = fold (processUser path config) (limitUsers lim) st;
              st = fold (processGroup path config) (limitGroups lim) st
          in processLimits cpuName path limits st)"

fun internalProcessConfig ::
    "string \<Rightarrow> queueConfig \<Rightarrow> string \<Rightarrow> Manager \<times> limitMaps \<Rightarrow>
     (Manager \<times> limitMaps) \<times> parse_error option"
  and processQueues ::
    "string \<Rightarrow> queueConfig list \<Rightarrow> string \<Rightarrow> Manager \<times> limitMaps \<Rightarrow>
     (Manager \<times> limitMaps) \<times> parse_error option" where
  "internalProcessConfig cpuName (QueueConfig name par res maxApps props adm sub tmpl queues limits)
       path st =
     (case processLimits cpuName path limits st of
        (st, Some err) \<Rightarrow> (st, Some err)
      | (st, None) \<Rightarrow> processQueues cpuName queues path st)"
| "processQueues cpuName [] path st = (st, None)"
| "processQueues cpuName (child # queues) path st =
     (case internalProcessConfig cpuName child (path @ ''.'' @ confName child) st of
        (st, Some err) \<Rightarrow> (st, Some err)
      | (st, None) \<Rightarrow> processQueues cpuName queues path st)"

section \<open>Removing earlier limits\<close>

definition resetUserEarlierUsage :: "Manager \<Rightarrow> string \<Rightarrow> UserTracker \<Rightarrow> string \<Rightarrow> Manager" where
  "resetUserEarlierUsage m user ut path =
     (let h = hierarchy_of path
      in if isQueuePathTrackedCompletely h (userQueueTracker ut)
         then
           let ut = user_clearLimits m ut path False;
               ut = (if isUnlinkRequired h (userQueueTracker ut)
                     then ut\<lparr>userQueueTracker := fst (unlink h (userQueueTracker ut))\<rparr> else ut)
           in if canBeRemoved (userQueueTracker ut)
              then m\<lparr>userTrackers := AList.delete user (userTrackers m)\<rparr>
              else put_user m user ut
         else m)"

definition clearEarlierSetUserLimits :: "Manager \<Rightarrow> limitConfig gomap gomap \<Rightarrow> Manager" where
  "clearEarlierSetUserLimits m new =
     fold (\<lambda>(path, limits).
             fold (\<lambda>(u, _) m.
                     if map_has (map_get [] new path) u then m
                     else case map_of (userTrackers m) u of
                            Some ut \<Rightarrow> resetUserEarlierUsage m u ut path
                          | None \<Rightarrow> m) limits)
       (userLimits m) m"

text \<open>\<open>None\<close> is the nil dereference of a missing user tracker.\<close>

fun unlinkApps :: "string gomap \<Rightarrow> Manager \<Rightarrow> Manager option" where
  "unlinkApps [] m = Some m"
| "unlinkApps ((app, u) # apps) m =
     (case map_of (userTrackers m) u of
        None \<Rightarrow> None
      | Some ut \<Rightarrow>
          unlinkApps apps
            (m\<lparr>userTrackers := AList.update u
                 (ut\<lparr>appGroupTrackers := AList.delete app (appGroupTrackers ut)\<rparr>) (userTrackers m)\<rparr>))"

definition decreaseAllTrackedResourceUsage ::
    "GroupTracker \<Rightarrow> string list \<Rightarrow> GroupTracker \<times> string gomap" where
  "decreaseAllTrackedResourceUsage gt h =
     (case decreaseTrackedResourceUsageDownwards h (groupQueueTracker gt) of
        (qt, apps) \<Rightarrow>
          (gt\<lparr>groupQueueTracker := qt\<rparr>,
           List.map_filter
             (\<lambda>app. map_option (\<lambda>u. (app, u)) (map_of (groupApplications gt) app)) apps))"

definition resetGroupEarlierUsage ::
    "Manager \<Rightarrow> string \<Rightarrow> GroupTracker \<Rightarrow> string \<Rightarrow> Manager option" where
  "resetGroupEarlierUsage m grp gt path =
     (let h = hierarchy_of path
      in if isQueuePathTrackedCompletely h (groupQueueTracker gt)
         then
           (case decreaseAllTrackedResourceUsage gt h of
              (gt, appUsers) \<Rightarrow>
                (case unlinkApps appUsers m of
                   None \<Rightarrow> None
                 | Some m \<Rightarrow>
                     let gt = group_clearLimits m gt path;
                         gt = (if isUnlinkRequired h (groupQueueTracker gt)
                               then gt\<lparr>groupQueueTracker := fst (unlink h (groupQueueTracker gt))\<rparr>
                               else gt)
                     in Some (if canBeRemoved (groupQueueTracker gt)
                              then m\<lparr>groupTrackers := AList.delete grp (groupTrackers m)\<rparr>
                              else put_group m grp gt)))
         else Some m)"

definition clearEarlierSetGroupLimits :: "Manager \<Rightarrow> limitConfig gomap gomap \<Rightarrow> Manager option" where
  "clearEarlierSetGroupLimits m new =
     fold (\<lambda>(path, limits).
             fold (\<lambda>(g, _) m.
                     case m of
                       None \<Rightarrow> None
                     | Some m \<Rightarrow>
                         if map_has (map_get [] new path) g then Some m
                         else case map_of (groupTrackers m) g of
                                Some gt \<Rightarrow> resetGroupEarlierUsage m g gt path
                              | None \<Rightarrow> Some m) limits)
       (groupLimits m) (Some m)"

definition clearEarlierSetLimits ::
    "Manager \<Rightarrow> limitConfig gomap gomap \<Rightarrow> limitConfig gomap gomap \<Rightarrow> Manager option" where
  "clearEarlierSetLimits m newUsers newGroups =
     (case clearEarlierSetGroupLimits m newGroups of
        None \<Rightarrow> None
      | Some m \<Rightarrow> Some (clearEarlierSetUserLimits m newUsers))"

definition namedLimit :: "limitConfig gomap gomap \<Rightarrow> string \<Rightarrow> string \<Rightarrow> bool" where
  "namedLimit limits path user = map_has (map_get [] limits path) user"

text \<open>A change of all the user trackers that have no named limit for the path, in the old or in the
  new configuration.\<close>

definition clearEarlierSetUserWildCardLimits ::
    "Manager \<Rightarrow> limitConfig gomap \<Rightarrow> limitConfig gomap gomap \<Rightarrow> Manager" where
  "clearEarlierSetUserWildCardLimits m newWild new =
     fold (\<lambda>(path, current) m.
             let currentQPExists = map_has (userLimits m) path; newQPExists = map_has new path;
                 change = (\<lambda>f. m\<lparr>userTrackers := map (\<lambda>(u, ut).
                   (u, if \<not> namedLimit new path (userName ut) \<or>
                          \<not> namedLimit (userLimits m) path (userName ut)
                       then f ut else ut)) (userTrackers m)\<rparr>)
             in case map_of newWild path of
                  None \<Rightarrow>
                    if \<not> currentQPExists \<or> \<not> newQPExists
                    then change (\<lambda>ut. user_clearLimits m ut path True) else m
                | Some config \<Rightarrow>
                    if \<not> currentQPExists \<or> \<not> newQPExists
                    then
                      if lcMaxApplications current \<noteq> lcMaxApplications config \<or>
                         \<not> Equals (lcMaxResources current) (lcMaxResources config)
                      then change (\<lambda>ut. user_setLimits m ut path (lcMaxResources config)
                                    (lcMaxApplications config) True True)
                      else m
                    else m)
       (userWildCardLimitsConfig m) m"

definition applyWildCardUserLimits ::
    "Manager \<Rightarrow> limitConfig gomap \<Rightarrow> limitConfig gomap gomap \<Rightarrow> Manager" where
  "applyWildCardUserLimits m newWild new =
     fold (\<lambda>(path, config) m.
             m\<lparr>userTrackers := map (\<lambda>(u, ut).
                 (u, if namedLimit new path (userName ut) then ut
                     else user_setLimits m ut path (lcMaxResources config)
                            (lcMaxApplications config) True False)) (userTrackers m)\<rparr>)
       newWild m"

definition replaceLimitConfigs :: "Manager \<Rightarrow> limitMaps \<Rightarrow> Manager" where
  "replaceLimitConfigs m new =
     m\<lparr>userLimits := newUserLimits new, groupLimits := newGroupLimits new,
       userWildCardLimitsConfig := newUserWildCards new,
       groupWildCardLimitsConfig := newGroupWildCards new,
       configuredGroups := newConfiguredGroups new\<rparr>"

datatype ugm_error = LimitError parse_error | NilUserTracker

definition UpdateConfig ::
    "string \<Rightarrow> Manager \<Rightarrow> queueConfig \<Rightarrow> string \<Rightarrow> Manager \<times> ugm_error option" where
  "UpdateConfig cpuName m config path =
     (case internalProcessConfig cpuName config path (m, noLimits) of
        ((m, new), Some err) \<Rightarrow> (m, Some (LimitError err))
      | ((m, new), None) \<Rightarrow>
          (case clearEarlierSetLimits m (newUserLimits new) (newGroupLimits new) of
             None \<Rightarrow> (m, Some NilUserTracker)
           | Some m \<Rightarrow>
               let m = clearEarlierSetUserWildCardLimits m (newUserWildCards new) (newUserLimits new);
                   m = applyWildCardUserLimits m (newUserWildCards new) (newUserLimits new)
               in (replaceLimitConfigs m new, None)))"

section \<open>Specification vocabulary\<close>

text \<open>The group that one queue of the path offers: a configured group of the user or the wild card.\<close>

definition offers :: "Manager \<Rightarrow> string list \<Rightarrow> string \<Rightarrow> string option" where
  "offers m userGroups path =
     (case matchGroup m userGroups path of
        Some g \<Rightarrow> Some g
      | None \<Rightarrow> if map_has (groupWildCardLimitsConfig m) path then Some ''*'' else None)"

text \<open>The path of a queue and the paths of all its parents, up to the root.\<close>

definition levels :: "string list \<Rightarrow> string list" where
  "levels ws = map (\<lambda>n. Join (take n ws) CHR ''.'') (rev [1..<Suc (length ws)])"

text \<open>The queue trackers of a user and of a group; a missing one looks like a new one.\<close>

definition user_qt :: "Manager \<Rightarrow> string \<Rightarrow> QueueTracker" where
  "user_qt m u = (case map_of (userTrackers m) u of
     Some ut \<Rightarrow> userQueueTracker ut
   | None \<Rightarrow> newRootQueueTracker (userWildCardLimitsConfig m) TrackUser)"

definition group_qt :: "Manager \<Rightarrow> string \<Rightarrow> QueueTracker" where
  "group_qt m g = (case map_of (groupTrackers m) g of
     Some gt \<Rightarrow> groupQueueTracker gt
   | None \<Rightarrow> newRootQueueTracker (userWildCardLimitsConfig m) TrackGroup)"

text \<open>The group of an application of a user, if it is tracked.\<close>

definition app_group :: "Manager \<Rightarrow> string \<Rightarrow> string \<Rightarrow> string option" where
  "app_group m u app =
     (let g = getGroupForApp (the_user m u) app
      in if g \<noteq> [] \<and> map_of (groupTrackers m) g \<noteq> None then Some g else None)"

text \<open>The trackers of a hierarchy are within their limits: the number of applications, and the usage of
  the resource types that a request asks for.\<close>

definition apps_within :: "string list \<Rightarrow> QueueTracker \<Rightarrow> bool" where
  "apps_within h qt \<longleftrightarrow>
     (\<forall>t. on_hierarchy h qt t \<longrightarrow> qtMaxRunningApps t \<noteq> 0 \<longrightarrow>
        length (runningApplications t) \<le> qtMaxRunningApps t)"

definition usage_within :: "resource option \<Rightarrow> string list \<Rightarrow> QueueTracker \<Rightarrow> bool" where
  "usage_within usage h qt \<longleftrightarrow>
     (\<forall>t. on_hierarchy h qt t \<longrightarrow>
        (\<forall>k. 0 < amount usage k \<and> res_has (qtMaxResources t) k \<and> \<not> IsZero (qtMaxResources t) \<longrightarrow>
           amount (resourceUsage t) k \<le> amount (qtMaxResources t) k))"

text \<open>Configurations with limits of the root queue for users.\<close>

definition limitConf :: "(string \<times> nat) list \<Rightarrow> queueConfig" where
  "limitConf limits =
     QueueConfig ''root'' True \<lparr>confGuaranteed = [], confMax = []\<rparr> 0 [] [] []
       \<lparr>ctMaxApplications = 0, ctProperties = [],
        ctResources = \<lparr>confGuaranteed = [], confMax = []\<rparr>\<rparr> []
       (map (\<lambda>(user, maxApps). \<lparr>limitText = [], limitUsers = [user], limitGroups = [],
          limitMaxResources = [], limitMaxApplications = maxApps\<rparr>) limits)"

section \<open>The group of an application\<close>

lemma Join_snoc: "ws \<noteq> [] \<Longrightarrow> Join (ws @ [w]) sep = Join ws sep @ sep # w"
  by (induction ws sep rule: Join.induct) auto

lemma getParentPath_Join:
  assumes "ws \<noteq> []" "\<forall>w \<in> set ws. CHR ''.'' \<notin> set w"
  shows "getParentPath (Join ws CHR ''.'') = Join (butlast ws) CHR ''.''"
proof (cases ws rule: rev_cases)
  case (snoc us w)
  have w: "CHR ''.'' \<notin> set (rev w)" using assms(2) snoc by simp
  show ?thesis
  proof (cases "us = []")
    case True
    then show ?thesis using w by (simp add: snoc getParentPath_def)
  next
    case False
    have "dropWhile (\<lambda>c. c \<noteq> CHR ''.'') (rev w @ CHR ''.'' # rev (Join us CHR ''.'')) =
        CHR ''.'' # rev (Join us CHR ''.'')"
      using w by (subst dropWhile_append3) auto
    then show ?thesis by (simp add: snoc Join_snoc [OF False] getParentPath_def)
  qed
qed (use assms in simp)

lemma Join_nonempty: "ws \<noteq> [] \<Longrightarrow> \<forall>w \<in> set ws. w \<noteq> [] \<Longrightarrow> Join ws sep \<noteq> []"
  by (induction ws sep rule: Join.induct) auto

lemma levels_snoc: "levels (us @ [w]) = Join (us @ [w]) CHR ''.'' # levels us"
  by (auto simp: levels_def)

lemma ensureGroup_levels:
  assumes "ws \<noteq> []" "\<forall>w \<in> set ws. w \<noteq> [] \<and> CHR ''.'' \<notin> set w"
  shows "ensureGroupInternal m gs (Join ws CHR ''.'') =
    (case List.find (\<lambda>path. offers m gs path \<noteq> None) (levels ws) of
       Some path \<Rightarrow> the (offers m gs path) | None \<Rightarrow> [])"
  using assms
proof (induction ws rule: rev_induct)
  case (snoc w us)
  have "\<forall>x \<in> set (us @ [w]). CHR ''.'' \<notin> set x" using snoc.prems(2) by blast
  then have par: "getParentPath (Join (us @ [w]) CHR ''.'') = Join us CHR ''.''"
    using getParentPath_Join [of "us @ [w]"] by simp
  show ?case
  proof (cases "offers m gs (Join (us @ [w]) CHR ''.'')")
    case (Some g)
    then show ?thesis
      by (subst ensureGroupInternal.simps)
        (auto simp: offers_def levels_snoc split: option.splits if_splits)
  next
    case None
    then have "ensureGroupInternal m gs (Join (us @ [w]) CHR ''.'') =
        (if Join us CHR ''.'' = [] then [] else ensureGroupInternal m gs (Join us CHR ''.''))"
      by (subst ensureGroupInternal.simps) (auto simp: offers_def par Let_def split: option.splits if_splits)
    moreover have "us \<noteq> [] \<Longrightarrow> Join us CHR ''.'' \<noteq> []" using snoc.prems(2) by (intro Join_nonempty) auto
    ultimately show ?thesis
      using snoc.IH snoc.prems(2) None by (cases "us = []") (simp_all add: levels_snoc, simp add: levels_def)
  qed
qed simp

section \<open>The trackers of a user and of a group through the operations\<close>

lemma snd_headroom_ensured: "snd (headroom wc tt h (ensured wc tt h qt)) = snd (headroom wc tt h qt)"
proof (induction wc tt h qt rule: headroom.induct)
  case (1 wc tt q c h qt)
  then show ?case
    by (simp add: Let_def split: prod.splits)
      (metis childOrNew_setChild child_simps(2,4) fst_conv headroom_ensured ownHeadroom_def snd_conv)
qed simp_all

lemma snd_canRun_ensured:
  "h \<noteq> [] \<Longrightarrow> snd (qt_canRunApp wc tt app h (ensured wc tt h qt)) = snd (qt_canRunApp wc tt app h qt)"
  by (simp add: canRun_all)

lemma qt_put [simp]:
  "user_qt (put_user m u ut) v = (if v = u then userQueueTracker ut else user_qt m v)"
  "group_qt (put_user m u ut) g = group_qt m g"
  "user_qt (put_group m g gt) v = user_qt m v"
  "group_qt (put_group m g gt) g' = (if g' = g then groupQueueTracker gt else group_qt m g')"
  by (simp_all add: user_qt_def group_qt_def update_conv' split: option.split)

lemma getUserTracker_spec:
  assumes "getUserTracker m u = (m', ut)"
  shows "map_of (userTrackers m') u = Some ut" "userQueueTracker ut = user_qt m u"
    "user_qt m' v = user_qt m v" "groupTrackers m' = groupTrackers m"
    "userWildCardLimitsConfig m' = userWildCardLimitsConfig m" "group_qt m' g = group_qt m g"
  using assms
  by (auto simp: getUserTracker_def user_qt_def group_qt_def newUserTracker_def Let_def update_conv'
      split: option.splits if_splits)

lemma ensureGroupTracker_spec:
  assumes "map_of (userTrackers m) (User user) = Some ut"
  obtains m' where "ensureGroupTrackerForApp m path app user = Some m'"
    "\<And>v. user_qt m' v = user_qt m v" "\<And>g. group_qt m' g = group_qt m g"
    "userWildCardLimitsConfig m' = userWildCardLimitsConfig m"
    "map_of (userTrackers m') (User user) \<noteq> None" "hasGroupForApp (the_user m' (User user)) app"
proof -
  show ?thesis
  proof (cases "hasGroupForApp ut app")
    case True
    then show ?thesis using assms by (intro that [of m]) (auto simp: ensureGroupTrackerForApp_def)
  next
    case False
    define g where g: "g = ensureGroup m user path"
    define m1 where m1: "m1 = (if g \<noteq> [] \<and> map_of (groupTrackers m) g = None
      then put_group m g (newGroupTracker m g) else m)"
    have same: "user_qt m1 v = user_qt m v" "group_qt m1 g' = group_qt m g'"
      "userWildCardLimitsConfig m1 = userWildCardLimitsConfig m" for v g'
      by (auto simp: m1 group_qt_def newGroupTracker_def update_conv' split: option.split if_splits)
    have "userQueueTracker ut = user_qt m (User user)" using assms by (simp add: user_qt_def)
    moreover have "ensureGroupTrackerForApp m path app user =
        Some (put_user m1 (User user) (setGroupForApp ut app (if g \<noteq> [] then Some g else None)))"
      using assms False by (simp add: ensureGroupTrackerForApp_def g m1 Let_def)
    ultimately show ?thesis
      by (intro that [of "put_user m1 (User user) (setGroupForApp ut app (if g \<noteq> [] then Some g else None))"])
        (auto simp: same setGroupForApp_def hasGroupForApp_def map_has_map_of update_conv')
  qed
qed

text \<open>The headroom check and the application check have one shape: the check of the user tracker, the
  group of the application, and the check of the group tracker. Both create the missing trackers.\<close>

locale manager_check =
  fixes f :: "string \<Rightarrow> limitConfig gomap \<Rightarrow> trackingType \<Rightarrow> string list \<Rightarrow> QueueTracker \<Rightarrow> QueueTracker \<times> 'a"
    and combine :: "'a \<Rightarrow> 'a \<Rightarrow> 'a"
    and check :: "Manager \<Rightarrow> string \<Rightarrow> string \<Rightarrow> UserGroup \<Rightarrow> (Manager \<times> 'a) option"
  assumes f_ensured: "fst (f app wc tt h qt) = ensured wc tt h qt"
    and check_eq: "check m path app user =
      (case getUserTracker m (User user) of (m, ut) \<Rightarrow>
         (case f app (userWildCardLimitsConfig m) TrackUser (hierarchy_of path) (userQueueTracker ut) of
            (qt, r) \<Rightarrow>
              let ut = ut\<lparr>userQueueTracker := qt\<rparr>; m = put_user m (User user) ut
              in case (if hasGroupForApp ut app then Some m
                       else ensureGroupTrackerForApp m path app user) of
                   None \<Rightarrow> None
                 | Some m \<Rightarrow>
                     let appGroup = getGroupForApp (the_user m (User user)) app
                     in if appGroup = [] then Some (m, r)
                        else case map_of (groupTrackers m) appGroup of
                               None \<Rightarrow> Some (m, r)
                             | Some gt \<Rightarrow>
                                 (case f app (userWildCardLimitsConfig m) TrackGroup (hierarchy_of path)
                                         (groupQueueTracker gt) of
                                    (qt, r') \<Rightarrow>
                                      Some (put_group m appGroup (gt\<lparr>groupQueueTracker := qt\<rparr>),
                                            combine r r'))))"
begin

text \<open>The state after the check of the user and the choice of the group.\<close>

lemma linked_state:
  fixes m user path app
  defines "u \<equiv> User user" and "wc \<equiv> userWildCardLimitsConfig m" and "h \<equiv> hierarchy_of path"
  obtains m1 where "user_qt m1 u = ensured wc TrackUser h (user_qt m u)"
    "\<And>g. group_qt m1 g = group_qt m g" "userWildCardLimitsConfig m1 = wc"
    "map_of (userTrackers m1) u \<noteq> None" "hasGroupForApp (the_user m1 u) app"
    "\<And>ut. map_of (userTrackers m) u = Some ut \<Longrightarrow> hasGroupForApp ut app \<Longrightarrow>
       app_group m1 u app = app_group m u app"
    "check m path app user =
      (case app_group m1 u app of
         None \<Rightarrow> Some (m1, snd (f app wc TrackUser h (user_qt m u)))
       | Some g \<Rightarrow> Some (put_group m1 g ((the (map_of (groupTrackers m1) g))
                      \<lparr>groupQueueTracker := ensured wc TrackGroup h (group_qt m g)\<rparr>),
                    combine (snd (f app wc TrackUser h (user_qt m u)))
                      (snd (f app wc TrackGroup h (group_qt m g)))))"
proof -
  obtain m0 ut where g0: "getUserTracker m u = (m0, ut)" by fastforce
  note sp = getUserTracker_spec [OF g0]
  obtain qt r where fr: "f app wc TrackUser h (user_qt m u) = (qt, r)" by fastforce
  have qt: "qt = ensured wc TrackUser h (user_qt m u)"
    using f_ensured [of app wc TrackUser h "user_qt m u"] fr by simp
  define ut1 where ut1: "ut1 = ut\<lparr>userQueueTracker := qt\<rparr>"
  define m1 where m1: "m1 = put_user m0 u ut1"
  have u1: "map_of (userTrackers m1) u = Some ut1" by (simp add: m1 update_conv')
  have has: "hasGroupForApp ut1 app = hasGroupForApp ut app"
    by (simp add: ut1 hasGroupForApp_def)
  obtain m2 where m2: "(if hasGroupForApp ut1 app then Some m1
      else ensureGroupTrackerForApp m1 path app user) = Some m2"
    "\<And>v. user_qt m2 v = user_qt m1 v" "\<And>g. group_qt m2 g = group_qt m1 g"
    "userWildCardLimitsConfig m2 = userWildCardLimitsConfig m1"
    "map_of (userTrackers m2) u \<noteq> None" "hasGroupForApp (the_user m2 u) app"
    "hasGroupForApp ut app \<Longrightarrow> m2 = m1"
  proof (cases "hasGroupForApp ut1 app")
    case True
    then show ?thesis using u1 by (intro that [of m1]) auto
  next
    case False
    then show ?thesis
      using ensureGroupTracker_spec [OF u1 [unfolded u_def], of path app] has that
      by (metis u_def)
  qed
  have wc1: "userWildCardLimitsConfig m2 = wc" using m2(4) sp(5) by (simp add: m1 wc_def)
  have old: "app_group m2 u app = app_group m u app"
    if "map_of (userTrackers m) u = Some ut'" "hasGroupForApp ut' app" for ut'
  proof -
    have "ut = ut'" "m0 = m" using g0 that(1) by (auto simp: getUserTracker_def)
    then show ?thesis
      using that m2(7) by (simp add: app_group_def m1 ut1 update_conv' getGroupForApp_def Let_def)
  qed
  have chk: "check m path app user =
      (case app_group m2 u app of
         None \<Rightarrow> Some (m2, snd (f app wc TrackUser h (user_qt m u)))
       | Some g \<Rightarrow> Some (put_group m2 g ((the (map_of (groupTrackers m2) g))
                      \<lparr>groupQueueTracker := ensured wc TrackGroup h (group_qt m g)\<rparr>),
                    combine (snd (f app wc TrackUser h (user_qt m u)))
                      (snd (f app wc TrackGroup h (group_qt m g)))))"
  proof -
    have gq: "groupQueueTracker gt = group_qt m g" if "map_of (groupTrackers m2) g = Some gt" for g gt
      using that m2(3) [of g] sp(6) [of g] by (simp add: group_qt_def m1 split: option.splits)
    have "check m path app user =
      (let appGroup = getGroupForApp (the_user m2 u) app
       in if appGroup = [] then Some (m2, r)
          else case map_of (groupTrackers m2) appGroup of
                 None \<Rightarrow> Some (m2, r)
               | Some gt \<Rightarrow>
                   (case f app (userWildCardLimitsConfig m2) TrackGroup h (groupQueueTracker gt) of
                      (qt, r') \<Rightarrow>
                        Some (put_group m2 appGroup (gt\<lparr>groupQueueTracker := qt\<rparr>), combine r r')))"
      unfolding check_eq u_def [symmetric] h_def [symmetric] g0 prod.case sp(2,5) wc_def [symmetric]
        fr Let_def ut1 [symmetric] m1 [symmetric] m2(1) option.case ..
    then show ?thesis
      using gq
      by (auto simp: app_group_def Let_def fr wc1 case_prod_beta f_ensured split: option.splits)
  qed
  show ?thesis
    by (rule that [of m2]) (use m2 sp(6) old chk wc1 in \<open>auto simp: m1 ut1 qt\<close>)
qed

text \<open>What a check leaves: the trackers of the hierarchy exist, the application is linked to a group, and
  the result combines the check of the user with the check of that group.\<close>

lemma check_spec:
  assumes "check m path app user = Some (m', r)"
  defines "u \<equiv> User user" and "wc \<equiv> userWildCardLimitsConfig m" and "h \<equiv> hierarchy_of path"
  shows "user_qt m' u = ensured wc TrackUser h (user_qt m u)" "userWildCardLimitsConfig m' = wc"
    "map_of (userTrackers m') u \<noteq> None" "hasGroupForApp (the_user m' u) app"
    "\<And>g. app_group m' u app = Some g \<Longrightarrow> group_qt m' g = ensured wc TrackGroup h (group_qt m g)"
    "r = (case app_group m' u app of
        None \<Rightarrow> snd (f app wc TrackUser h (user_qt m u))
      | Some g \<Rightarrow> combine (snd (f app wc TrackUser h (user_qt m u))) (snd (f app wc TrackGroup h (group_qt m g))))"
    "\<And>ut. map_of (userTrackers m) u = Some ut \<Longrightarrow> hasGroupForApp ut app \<Longrightarrow>
       app_group m' u app = app_group m u app"
proof -
  obtain m1 where m1: "user_qt m1 u = ensured wc TrackUser h (user_qt m u)"
    "\<And>g. group_qt m1 g = group_qt m g" "userWildCardLimitsConfig m1 = wc"
    "map_of (userTrackers m1) u \<noteq> None" "hasGroupForApp (the_user m1 u) app"
    "\<And>ut. map_of (userTrackers m) u = Some ut \<Longrightarrow> hasGroupForApp ut app \<Longrightarrow>
       app_group m1 u app = app_group m u app"
    "check m path app user =
      (case app_group m1 u app of
         None \<Rightarrow> Some (m1, snd (f app wc TrackUser h (user_qt m u)))
       | Some g \<Rightarrow> Some (put_group m1 g ((the (map_of (groupTrackers m1) g))
                      \<lparr>groupQueueTracker := ensured wc TrackGroup h (group_qt m g)\<rparr>),
                    combine (snd (f app wc TrackUser h (user_qt m u)))
                      (snd (f app wc TrackGroup h (group_qt m g)))))"
    using linked_state [of user m path app] unfolding u_def wc_def h_def by blast
  have grp: "app_group m' u app = app_group m1 u app"
    using m1(7) assms(1)
    by (auto simp: app_group_def Let_def update_conv' split: option.splits if_splits)
  have trackers: "userTrackers m' = userTrackers m1" "userWildCardLimitsConfig m' = wc"
    "user_qt m' u = user_qt m1 u"
    using m1(3,7) assms(1) by (auto split: option.splits)
  show "user_qt m' u = ensured wc TrackUser h (user_qt m u)" "userWildCardLimitsConfig m' = wc"
    "map_of (userTrackers m') u \<noteq> None" "hasGroupForApp (the_user m' u) app"
    using m1 trackers by simp_all
  show "group_qt m' g = ensured wc TrackGroup h (group_qt m g)" if "app_group m' u app = Some g" for g
    using that grp m1(7) assms(1) by auto
  show "r = (case app_group m' u app of
        None \<Rightarrow> snd (f app wc TrackUser h (user_qt m u))
      | Some g \<Rightarrow> combine (snd (f app wc TrackUser h (user_qt m u))) (snd (f app wc TrackGroup h (group_qt m g))))"
    using grp m1(7) assms(1) by (auto split: option.splits)
  show "app_group m' u app = app_group m u app"
    if "map_of (userTrackers m) u = Some ut" "hasGroupForApp ut app" for ut
    using m1(6) [OF that] grp by simp
qed

end

interpretation headroom_check: manager_check "\<lambda>app. headroom" ComponentWiseMin Headroom
  by unfold_locales (simp_all add: headroom_ensured Headroom_def)

interpretation can_run_check: manager_check "\<lambda>app wc tt. qt_canRunApp wc tt app" "(\<and>)" CanRunApp
  by unfold_locales (simp_all add: canRunApp_ensured CanRunApp_def)

lemma increase_spec:
  assumes "map_of (userTrackers m) (User user) \<noteq> None" "hasGroupForApp (the_user m (User user)) app"
    and "path \<noteq> []" "app \<noteq> []" "usage \<noteq> None" "User user \<noteq> []"
    and "IncreaseTrackedResource m path app usage user = Some m'"
  defines "u \<equiv> User user" and "wc \<equiv> userWildCardLimitsConfig m" and "h \<equiv> hierarchy_of path"
  shows "user_qt m' u = increaseTrackedResource wc TrackUser app usage h (user_qt m u)"
    "app_group m' u app = app_group m u app"
    "\<And>g. app_group m u app = Some g \<Longrightarrow>
       group_qt m' g = increaseTrackedResource wc TrackGroup app usage h (group_qt m g)"
proof -
  obtain ut where ut: "map_of (userTrackers m) u = Some ut" using assms(1) by (auto simp: u_def)
  define ut1 where ut1: "ut1 = user_increaseTrackedResource m ut path app usage"
  define m1 where m1: "m1 = put_user m u ut1"
  have q: "userQueueTracker ut1 = increaseTrackedResource wc TrackUser app usage h (user_qt m u)"
    "getGroupForApp ut1 app = getGroupForApp ut app"
    using ut by (simp_all add: ut1 user_increaseTrackedResource_def user_qt_def wc_def h_def getGroupForApp_def)
  have u1: "user_qt m1 u = userQueueTracker ut1" by (simp add: m1)
  have inc: "Some m' = (case app_group m u app of None \<Rightarrow> Some m1
      | Some g \<Rightarrow> Some (put_group m1 g
          (group_increaseTrackedResource m1 (the (map_of (groupTrackers m) g)) path app usage (userName ut1))))"
  proof -
    have old: "getUserTracker m u = (m, ut)" "the_user m u = ut" "hasGroupForApp ut app = True"
      using ut assms(2) by (simp_all add: getUserTracker_def u_def)
    have ok: "(path = [] \<or> app = [] \<or> usage = None \<or> u = []) = False"
      using assms(3-6) by (simp add: u_def)
    have "Some m' = (let appGroup = getGroupForApp ut1 app
      in if appGroup = [] then Some m1
         else case map_of (groupTrackers m1) appGroup of
                None \<Rightarrow> Some m1
              | Some gt \<Rightarrow> Some (put_group m1 appGroup
                  (group_increaseTrackedResource m1 gt path app usage (userName ut1))))"
      unfolding assms(7) [symmetric] IncreaseTrackedResource_def u_def [symmetric] ok old if_False if_True
        prod.case option.case Let_def ut1 [symmetric] m1 [symmetric] ..
    then show ?thesis
      using q(2) ut by (auto simp: app_group_def Let_def m1 split: option.splits if_splits)
  qed
  show "user_qt m' u = increaseTrackedResource wc TrackUser app usage h (user_qt m u)"
    using inc q by (auto simp: u1 split: option.splits)
  show "app_group m' u app = app_group m u app"
    using inc q ut by (auto simp: m1 app_group_def Let_def update_conv' split: option.splits if_splits)
  show "group_qt m' g = increaseTrackedResource wc TrackGroup app usage h (group_qt m g)"
    if "app_group m u app = Some g" for g
    using inc that
    by (auto simp: m1 group_increaseTrackedResource_def group_qt_def update_conv' wc_def h_def app_group_def
        Let_def split: option.splits if_splits)
qed

lemma ensured_running:
  assumes "on_hierarchy h (ensured wc tt h qt) t"
  shows "runningApplications t = [] \<or>
    (\<exists>t0. on_hierarchy h qt t0 \<and> qtMaxRunningApps t0 = qtMaxRunningApps t \<and>
      runningApplications t0 = runningApplications t)"
  using assms
proof (induction wc tt h qt rule: ensured.induct)
  case (1 wc tt q c h qt)
  define ch where ch: "ch = childOrNew wc tt qt c"
  consider "t = ensured wc tt (q # c # h) qt" | "on_hierarchy (c # h) (ensured wc tt (c # h) ch) t"
    using "1.prems" by (auto simp: on_hierarchy_Cons update_conv' ch)
  then show ?case
  proof cases
    case 1
    then show ?thesis by (auto simp: on_hierarchy_Cons)
  next
    case 2
    show ?thesis
    proof (cases "map_of (childQueueTrackers qt) c")
      case None
      then have new: "runningApplications ch = []" "childQueueTrackers ch = []"
        by (simp_all add: ch childOrNew_def newQueueTracker_def Let_def split: option.split)
      then have "on_hierarchy (c # h) ch t0 \<Longrightarrow> t0 = ch" for t0
        by (cases h) (simp_all add: on_hierarchy_single on_hierarchy_Cons)
      then show ?thesis using "1.IH" [folded ch, OF 2] new by metis
    next
      case (Some x)
      then have "ch = x" by (simp add: ch childOrNew_def)
      then show ?thesis using "1.IH" [folded ch, OF 2] Some by (auto simp: on_hierarchy_Cons)
    qed
  qed
qed auto

lemma apps_within_ensured: "apps_within h qt \<Longrightarrow> apps_within h (ensured wc tt h qt)"
  using ensured_running by (fastforce simp: apps_within_def)

lemma increase_stays_within:
  assumes "wf_qt qt" "wf_wild wc" "usage_res usage" "h \<noteq> []" "apps_within h qt"
    and "FitInMaxUndef (snd (headroom wc tt h qt)) usage" "snd (qt_canRunApp wc tt app h qt)"
  shows "usage_within usage h (increaseTrackedResource wc tt app usage h qt) \<and>
    apps_within h (increaseTrackedResource wc tt app usage h qt)"
proof -
  have "apps_within h (ensured wc tt h qt)" using apps_within_ensured [OF assms(5)] .
  then show ?thesis
    using increase_within_limits [OF assms(1-4,6,7)] unfolding usage_within_def apps_within_def by blast
qed

text \<open>C8. The limits of users and groups hold at every level of the queue hierarchy. When the headroom of
  the manager has room for the usage and the manager lets the application run, then booking that usage leaves
  every queue tracker of the user on the path of the queue within its maximum resource, for the types that
  the usage asks for, and within its maximum number of applications; and the same holds for the trackers of
  the group that the manager chose for the application.\<close>

theorem manager_limits_enforced:
  assumes "wf_qt (user_qt m (User user))" "\<forall>g. wf_qt (group_qt m g)"
    and "wf_wild (userWildCardLimitsConfig m)" "usage_res usage" "usage \<noteq> None"
    and "path \<noteq> []" "app \<noteq> []" "User user \<noteq> []"
    and "apps_within (hierarchy_of path) (user_qt m (User user))"
    and "\<forall>g. apps_within (hierarchy_of path) (group_qt m g)"
    and "Headroom m path app user = Some (m1, room)" "FitInMaxUndef room usage"
    and "CanRunApp m1 path app user = Some (m2, True)"
    and "IncreaseTrackedResource m2 path app usage user = Some m3"
  shows "usage_within usage (hierarchy_of path) (user_qt m3 (User user)) \<and>
    apps_within (hierarchy_of path) (user_qt m3 (User user)) \<and>
    (\<forall>g. app_group m3 (User user) app = Some g \<longrightarrow>
      usage_within usage (hierarchy_of path) (group_qt m3 g) \<and>
      apps_within (hierarchy_of path) (group_qt m3 g))"
proof -
  define u wc h where defs: "u = User user" "wc = userWildCardLimitsConfig m" "h = hierarchy_of path"
  note hc = headroom_check.check_spec [OF assms(11), folded defs]
  note cc = can_run_check.check_spec [OF assms(13), folded defs, unfolded hc(2)]
  note inc = increase_spec [OF cc(3,4) [unfolded defs] assms(6,7,5,8,14), folded defs, unfolded cc(2)]
  have h: "h \<noteq> []" by (simp add: defs)
  have grp: "app_group m2 u app = app_group m1 u app" using hc(3,4) cc(7) by fastforce
  have wfu: "wf_res usage" using assms(4) by (simp add: usage_res_def)
  have fit: "FitInMaxUndef (snd (headroom wc TrackUser h (user_qt m u))) usage"
    "\<And>g. app_group m1 u app = Some g \<Longrightarrow>
       FitInMaxUndef (snd (headroom wc TrackGroup h (group_qt m g))) usage"
    using assms(12) hc(6) fits_headroom [OF wfu h]
    by (auto simp: FitInMaxUndef_ComponentWiseMin wfu split: option.splits)
  have run: "snd (qt_canRunApp wc TrackUser app h (user_qt m u))"
    "\<And>g. app_group m1 u app = Some g \<Longrightarrow> snd (qt_canRunApp wc TrackGroup app h (group_qt m g))"
    using cc(6) hc(1,5) grp h by (auto simp: snd_canRun_ensured split: option.splits)
  have "user_qt m3 u = increaseTrackedResource wc TrackUser app usage h (user_qt m u)"
    using inc(1) cc(1) hc(1) by (simp add: increase_ensured)
  moreover have "group_qt m3 g = increaseTrackedResource wc TrackGroup app usage h (group_qt m g)"
    if "app_group m1 u app = Some g" for g
    using inc(3) cc(5) hc(5) grp that by (simp add: increase_ensured)
  ultimately show ?thesis
    using increase_stays_within [OF _ assms(3,4) [folded defs] h] assms(1,2,9,10) fit run inc(2) grp
    unfolding defs [symmetric] by simp
qed


theorem manager_limits_enforced_witness:
  "\<exists>m1 room m2 m3. Headroom exampleManager ''root'' ''app-1'' alice = Some (m1, room) \<and>
     CanRunApp m1 ''root'' ''app-1'' alice = Some (m2, True) \<and>
     IncreaseTrackedResource m2 ''root'' ''app-1'' (cpu 4) alice = Some m3 \<and>
     app_group m3 ''alice'' ''app-1'' = Some ''dev'' \<and>
     usage_within (cpu 4) [''root''] (user_qt m3 ''alice'') \<and>
     usage_within (cpu 4) [''root''] (group_qt m3 ''dev'')"
proof -
  define m1 where m1: "m1 = fst (the (Headroom exampleManager ''root'' ''app-1'' alice))"
  define room where room: "room = snd (the (Headroom exampleManager ''root'' ''app-1'' alice))"
  define m2 where m2: "m2 = fst (the (CanRunApp m1 ''root'' ''app-1'' alice))"
  define m3 where m3: "m3 = the (IncreaseTrackedResource m2 ''root'' ''app-1'' (cpu 4) alice)"
  have "Headroom exampleManager ''root'' ''app-1'' alice \<noteq> None" by code_simp
  then have hr: "Headroom exampleManager ''root'' ''app-1'' alice = Some (m1, room)" by (simp add: m1 room)
  have "CanRunApp m1 ''root'' ''app-1'' alice \<noteq> None" "snd (the (CanRunApp m1 ''root'' ''app-1'' alice))"
    unfolding m1 by code_simp+
  then have cr: "CanRunApp m1 ''root'' ''app-1'' alice = Some (m2, True)" by (auto simp: m2)
  have "IncreaseTrackedResource m2 ''root'' ''app-1'' (cpu 4) alice \<noteq> None" unfolding m2 m1 by code_simp
  then have inc: "IncreaseTrackedResource m2 ''root'' ''app-1'' (cpu 4) alice = Some m3" by (auto simp: m3)
  have grp: "app_group m3 ''alice'' ''app-1'' = Some ''dev''" unfolding m3 m2 m1 by code_simp
  have fit: "FitInMaxUndef room (cpu 4)" unfolding room by code_simp
  have split: "hierarchy_of ''root'' = [''root'']" by simp
  have u: "user_qt exampleManager (User alice) = QueueTracker ''root'' ''root'' None [] (cpu 10) 2 [] True"
    by (simp add: user_qt_def exampleManager_def newManager_def newRootQueueTracker_def newQueueTracker_def
        Clone_id wf_cpu Let_def)
  have g: "group_qt exampleManager g =
    QueueTracker ''root'' ''root'' None [] (if g = ''dev'' then cpu 8 else None) (if g = ''dev'' then 1 else 0) [] False"
    for g by (simp add: group_qt_def exampleManager_def newManager_def newRootQueueTracker_def newQueueTracker_def
        Let_def)
  have wf: "wf_qt (user_qt exampleManager (User alice))" "\<forall>g. wf_qt (group_qt exampleManager g)"
    "wf_wild (userWildCardLimitsConfig exampleManager)" "usage_res (cpu 4)"
    unfolding u g
    by (simp_all add: wf_qt_simps wf_cpu usage_res_def amount_cpu wf_wild_def exampleManager_def)
  have apps: "apps_within (hierarchy_of ''root'') (user_qt exampleManager (User alice))"
    "\<forall>g. apps_within (hierarchy_of ''root'') (group_qt exampleManager g)"
    unfolding split by (simp_all add: apps_within_def on_hierarchy_single u g)
  have "usage_within (cpu 4) [''root''] (user_qt m3 ''alice'') \<and>
     usage_within (cpu 4) [''root''] (group_qt m3 ''dev'')"
    using manager_limits_enforced [OF wf _ _ _ _ apps hr fit cr inc] grp unfolding split
    by (simp add: cpu_def alice_def)
  then show ?thesis using hr cr inc grp by blast
qed


text \<open>The group of an application is the one of the nearest queue. The manager walks from the queue to
  the root and takes the first group that a queue on the way offers: a configured group the user is a
  member of, in the order of the configuration, or else the wild card when the queue has a wild card limit;
  without such a queue there is no group. The walk always ends.\<close>

theorem ensureGroup_nearest:
  assumes "Groups user \<noteq> []" "ws \<noteq> []" "\<forall>w \<in> set ws. w \<noteq> [] \<and> CHR ''.'' \<notin> set w"
  shows "ensureGroup m user (Join ws CHR ''.'') =
    (case List.find (\<lambda>path. offers m (Groups user) path \<noteq> None) (levels ws) of
       Some path \<Rightarrow> the (offers m (Groups user) path) | None \<Rightarrow> [])"
  using assms by (simp add: ensureGroup_def ensureGroup_levels)

theorem ensureGroup_nearest_witness:
  "ensureGroup exampleManager alice ''root.a.b'' = ''dev'' \<and>
   List.find (\<lambda>path. offers exampleManager (Groups alice) path \<noteq> None) (levels [''root'', ''a'', ''b'']) =
     Some ''root''"
proof -
  have "List.find (\<lambda>path. offers exampleManager (Groups alice) path \<noteq> None) (levels [''root'', ''a'', ''b'']) =
      Some ''root''" "offers exampleManager (Groups alice) ''root'' = Some ''dev''" by code_simp+
  then show ?thesis
    using ensureGroup_nearest [of alice "[''root'', ''a'', ''b'']" exampleManager] by (simp add: alice_def)
qed

text \<open>A wild card limit that is taken out of the configuration of a queue stays in force for the users it
  was applied to, when the queue has a limit for another user before and after the change.\<close>

lemma removed_wild_card_limit_stays:
  "let m = fst (UpdateConfig ''vcore'' newManager (limitConf [(''alice'', 5), (''*'', 2)]) ''root'');
       m = fst (getUserTracker m ''bob'');
       m = fst (UpdateConfig ''vcore'' m (limitConf [(''alice'', 5)]) ''root'');
       bob = user_qt m ''bob''; carol = user_qt m ''carol''
   in qtMaxRunningApps bob = 2 \<and> useWildCard bob \<and> qtMaxRunningApps carol = 0"
  by code_simp

end
