(* ===== verification/Applications.thy ===== *)
theory Applications
  imports QueueApps UserGroupManager Nodes
begin

text \<open>
  Applications (\<open>pkg/scheduler/objects/application.go\<close>, the callbacks of
  \<open>application_state.go\<close> and \<open>allocation_result.go\<close>). An application shares its asks and
  allocations with itself and with the nodes: the maps of the application hold addresses in a store of
  allocation objects, so that a change through one map is seen through the other. The operations also
  change the queue of the application, the manager of users and groups and the nodes, so they are
  functions on a world that holds all of them. The queue is its path, empty for a nil pointer; an
  application has a queue as long as it is not finished, and the calls of the code that dereference
  the queue without a check are modelled for that case only.

  Events, metrics, logging and the statistics of used resources are left out; the releases that are
  sent to the resource manager are kept as a list. The state machine library is a field of the
  application, its documented behaviour a hypothesis of the lemmas that need it. A node holds a copy of
  an allocation object; an operation that changes what a node reads of the object updates the copy.
\<close>

section \<open>Data\<close>

record PlaceholderData =
  TaskGroupName :: string
  phCount :: int
  MinResource :: "resource option"
  phReplaced :: int
  phTimedOut :: int

record app_reservation = reservation +
  resAlloc :: nat
  resCreateTime :: int

datatype TerminationType =
  UnknownTermination | StoppedByRM | Timeout | PreemptedByScheduler | PlaceholderReplaced |
  SchedulingFailedOnRM

record Application =
  saID :: string
  saTags :: "string gomap"
  saQueuePath :: string
  saQueue :: qpath
  saPending :: "resource option"
  saReservations :: "app_reservation gomap"
  saRequests :: "nat gomap"
  saSortedRequests :: "nat list"
  saUser :: UserGroup
  saAllocated :: "resource option"
  saSubmissionTime :: int
  saMaxAllocated :: "resource option"
  saAllocatedPlaceholder :: "resource option"
  saAllocations :: "nat gomap"
  saPlaceholderAsk :: "resource option"
  saMachine :: "(applicationState, applicationEvent) fsm_event"
  saState :: applicationState
  saStateTimer :: "(int \<times> applicationState \<times> applicationEvent) option"
  saExecTimeout :: int
  saPlaceholderTimer :: "int option"
  saGangSchedulingStyle :: string
  saStartTime :: gotime
  saFinishedTime :: gotime
  saRejectedMessage :: string
  saStateLog :: "(int \<times> applicationState) list"
  saPlaceholderData :: "PlaceholderData gomap option"
  saAskMaxPriority :: int
  saPendingPriorities :: "(int \<times> int) list"
  saHasPlaceholderAlloc :: bool
  saRunnableInQueue :: bool
  saRunnableByUserLimit :: bool

record world = Application +
  store :: "nat \<Rightarrow> alloc"
  heap :: qheap
  users :: Manager
  nodes :: "string \<Rightarrow> node"
  releasesSent :: "(string list \<times> TerminationType) list"
  clock :: int

datatype app_error =
    AskIsNil
  | InvalidAsk string
  | ZeroResources string
  | AskNotFound string
  | AllocationNotFound string
  | AlreadyAllocated string
  | NotAllocated string
  | WrongState string applicationState
  | ReservingAllocated
  | DuplicateReserve
  | NodeReserveError reserve_error
  | StateError fsm_error

text \<open>The result of a scheduling attempt.\<close>

datatype AllocationResultType = NoResult | Allocated | AllocatedReserved | Reserved | Unreserved | Replaced

record AllocationResult =
  ResultType :: AllocationResultType
  Request :: nat
  resultNodeID :: string
  ReservedNodeID :: string
  CancelledReservations :: int

definition newAllocationResultInternal ::
    "AllocationResultType \<Rightarrow> string \<Rightarrow> nat \<Rightarrow> AllocationResult" where
  "newAllocationResultInternal resultType nodeID request =
     \<lparr>ResultType = resultType, Request = request, resultNodeID = nodeID, ReservedNodeID = [],
      CancelledReservations = 0\<rparr>"

text \<open>A method that changes an allocation object changes it in the store.\<close>

definition mutate :: "nat \<Rightarrow> (alloc \<Rightarrow> alloc) \<Rightarrow> world \<Rightarrow> world" where
  "mutate r f w = w\<lparr>store := (store w)(r := f (store w r))\<rparr>"

abbreviation resource_of :: "world \<Rightarrow> nat \<Rightarrow> resource option" where
  "resource_of w r \<equiv> allocRes (store w r)"

section \<open>State changes\<close>

definition completingTimeout :: int where
  "completingTimeout = 30 * 10 ^ 9"

definition terminatedTimeout :: int where
  "terminatedTimeout = 3 * 24 * 3600 * 10 ^ 9"

definition defaultPlaceholderTimeout :: int where
  "defaultPlaceholderTimeout = 15 * 60 * 10 ^ 9"

definition setStateTimer :: "int \<Rightarrow> applicationState \<Rightarrow> applicationEvent \<Rightarrow> world \<Rightarrow> world" where
  "setStateTimer timeout currentState event w = w\<lparr>saStateTimer := Some (timeout, currentState, event)\<rparr>"

definition clearStateTimer :: "world \<Rightarrow> world" where
  "clearStateTimer w = w\<lparr>saStateTimer := None\<rparr>"

definition initPlaceholderTimer :: "world \<Rightarrow> world" where
  "initPlaceholderTimer w =
     (if saPlaceholderTimer w \<noteq> None \<or> saState w \<noteq> Accepted \<or> saExecTimeout w \<le> 0 then w
      else w\<lparr>saPlaceholderTimer := Some (saExecTimeout w)\<rparr>)"

definition clearPlaceholderTimer :: "world \<Rightarrow> world" where
  "clearPlaceholderTimer w = w\<lparr>saPlaceholderTimer := None\<rparr>"

definition cleanupAsks :: "world \<Rightarrow> world" where
  "cleanupAsks w =
     w\<lparr>saRequests := [], saSortedRequests := [], saPendingPriorities := [],
       saAskMaxPriority := MinPriority\<rparr>"

definition recordState :: "applicationState \<Rightarrow> world \<Rightarrow> world" where
  "recordState s w = w\<lparr>saStateLog := saStateLog w @ [(clock w, s)]\<rparr>"

text \<open>The callbacks of the state machine: those of the state that is left before the change, those of
  the state that is entered after it; the general ones come after the specific ones.\<close>

definition leaveState :: "applicationState \<Rightarrow> applicationState \<Rightarrow> world \<Rightarrow> world" where
  "leaveState src dst w =
     clearStateTimer
       (if src = Running \<and> dst \<noteq> Running then w\<lparr>heap := decRunningApps (heap w) (saQueue w)\<rparr> else w)"

definition enterState :: "applicationState \<Rightarrow> applicationState \<Rightarrow> string option \<Rightarrow> world \<Rightarrow> world" where
  "enterState src dst info w =
     recordState dst
       (case dst of
          Rejected \<Rightarrow>
            let w = setStateTimer terminatedTimeout dst ExpireApplication w;
                w = w\<lparr>saFinishedTime := Some (clock w)\<rparr>
            in (case info of Some msg \<Rightarrow> w\<lparr>saRejectedMessage := msg\<rparr> | None \<Rightarrow> w)
        | Running \<Rightarrow>
            if src \<noteq> Running
            then w\<lparr>saStartTime := Some (clock w), heap := incRunningApps (heap w) (saQueue w) (saID w)\<rparr>
            else w
        | Completing \<Rightarrow> setStateTimer completingTimeout dst CompleteApplication w
        | Completed \<Rightarrow>
            cleanupAsks (clearPlaceholderTimer (setStateTimer terminatedTimeout dst ExpireApplication w))
        | Failed \<Rightarrow> cleanupAsks (setStateTimer terminatedTimeout dst ExpireApplication w)
        | _ \<Rightarrow> w)"

definition HandleApplicationEventWithInfo ::
    "applicationEvent \<Rightarrow> string option \<Rightarrow> world \<Rightarrow> world \<times> app_error option" where
  "HandleApplicationEventWithInfo event info w =
     (case HandleApplicationEvent (saMachine w) (saState w) event of
        (s, err) \<Rightarrow>
          (if s = saState w then w
           else enterState (saState w) s info ((leaveState (saState w) s w)\<lparr>saState := s\<rparr>),
           map_option StateError err))"

text \<open>An event whose error is only logged.\<close>

definition handleEvent :: "applicationEvent \<Rightarrow> world \<Rightarrow> world" where
  "handleEvent event w = fst (HandleApplicationEventWithInfo event None w)"

definition app_RejectApplication :: "string \<Rightarrow> world \<Rightarrow> world \<times> app_error option" where
  "app_RejectApplication msg w = HandleApplicationEventWithInfo RejectApplication (Some msg) w"

definition app_FailApplication :: "string \<Rightarrow> world \<Rightarrow> world \<times> app_error option" where
  "app_FailApplication msg w = HandleApplicationEventWithInfo FailApplication (Some msg) w"

section \<open>Users and queues\<close>

text \<open>The manager never fails here: it creates the tracker of the user before it uses it.\<close>

definition incUserResourceUsage :: "resource option \<Rightarrow> world \<Rightarrow> world" where
  "incUserResourceUsage res w =
     (case IncreaseTrackedResource (users w) (saQueuePath w) (saID w) res (saUser w) of
        Some m \<Rightarrow> w\<lparr>users := m\<rparr>
      | None \<Rightarrow> w)"

definition decUserResourceUsage :: "resource option \<Rightarrow> bool \<Rightarrow> world \<Rightarrow> world" where
  "decUserResourceUsage res removeApp w =
     w\<lparr>users := DecreaseTrackedResource (users w) (saQueuePath w) (saID w) res (saUser w) removeApp\<rparr>"

definition queue_UnReserve :: "int \<Rightarrow> world \<Rightarrow> world" where
  "queue_UnReserve releases w =
     (if saQueue w = [] then w
      else w\<lparr>heap := (heap w)(saQueue w := UnReserve (heap w (saQueue w)) (saID w) releases)\<rparr>)"

section \<open>Priorities of the pending asks\<close>

definition setAskMaxPriority :: "int \<Rightarrow> world \<Rightarrow> world" where
  "setAskMaxPriority v w =
     (if v = saAskMaxPriority w then w
      else w\<lparr>saAskMaxPriority := v,
             heap := UpdateApplicationPriority (heap w) (saQueue w) (saID w) v\<rparr>)"

definition bandCount :: "(int \<times> int) list \<Rightarrow> int \<Rightarrow> int" where
  "bandCount bands p = (case map_of bands p of Some n \<Rightarrow> n | None \<Rightarrow> 0)"

definition addToPriorities :: "int \<Rightarrow> world \<Rightarrow> world" where
  "addToPriorities p w =
     (let bands = saPendingPriorities w;
          w = w\<lparr>saPendingPriorities := AList.update p (bandCount bands p + 1) bands\<rparr>
      in if p > saAskMaxPriority w then setAskMaxPriority p w else w)"

definition removeFromPriorities :: "int \<Rightarrow> world \<Rightarrow> world" where
  "removeFromPriorities p w =
     (let bands = saPendingPriorities w; n = bandCount bands p - 1
      in if n < 0 then w
         else if n > 0 then w\<lparr>saPendingPriorities := AList.update p n bands\<rparr>
         else let w = w\<lparr>saPendingPriorities := AList.delete p bands\<rparr>
              in if p \<noteq> saAskMaxPriority w then w
                 else setAskMaxPriority
                        (fold (\<lambda>(band, _) newMax. max newMax band) (saPendingPriorities w) MinPriority) w)"

section \<open>Asks\<close>

definition insert_request :: "nat \<Rightarrow> world \<Rightarrow> world" where
  "insert_request r w =
     w\<lparr>saSortedRequests :=
         insertAt (saSortedRequests w)
           (insertIndex (map (store w) (saSortedRequests w)) (store w r)) r\<rparr>"

definition remove_request :: "nat \<Rightarrow> world \<Rightarrow> world" where
  "remove_request r w =
     (let s = saSortedRequests w
      in case List.find (\<lambda>i. allocationKey (store w (s ! i)) = allocationKey (store w r)) [0..<length s] of
           Some i \<Rightarrow> w\<lparr>saSortedRequests := removeAt s i\<rparr>
         | None \<Rightarrow> w)"

definition addPlaceholderData :: "nat \<Rightarrow> world \<Rightarrow> world" where
  "addPlaceholderData r w =
     (let data = (case saPlaceholderData w of None \<Rightarrow> [] | Some d \<Rightarrow> d);
          tg = taskGroupName (store w r);
          ph = (case map_of data tg of
                  Some ph \<Rightarrow> ph
                | None \<Rightarrow> \<lparr>TaskGroupName = tg, phCount = 0, MinResource = Clone (resource_of w r),
                          phReplaced = 0, phTimedOut = 0\<rparr>)
      in w\<lparr>saPlaceholderData := Some (AList.update tg (ph\<lparr>phCount := phCount ph + 1\<rparr>) data)\<rparr>)"

definition addAllocationAskInternal :: "nat \<Rightarrow> world \<Rightarrow> world" where
  "addAllocationAskInternal r w =
     (let ask = store w r;
          w = w\<lparr>saRequests := AList.update (allocationKey ask) r (saRequests w)\<rparr>;
          w = (if \<not> allocated ask then addToPriorities (priority ask) w else w)
      in if placeholder ask then addPlaceholderData r w else w)"

definition AddAllocationAsk :: "nat option \<Rightarrow> world \<Rightarrow> world \<times> app_error option" where
  "AddAllocationAsk a w =
     (case a of
        None \<Rightarrow> (w, Some AskIsNil)
      | Some r \<Rightarrow>
          let ask = store w r
          in if allocated ask \<or> IsZero (allocRes ask) then (w, Some (InvalidAsk (allocationKey ask)))
             else
               let w = (if createTime ask < saSubmissionTime w
                        then w\<lparr>saSubmissionTime := createTime ask\<rparr> else w);
                   delta = Clone (allocRes ask);
                   (oldAskResource, w) =
                     (case map_of (saRequests w) (allocationKey ask) of
                        Some old \<Rightarrow>
                          if \<not> allocated (store w old)
                          then (Clone (resource_of w old), removeFromPriorities (priority (store w old)) w)
                          else (None, w)
                      | None \<Rightarrow> (None, w));
                   w = (if saState w = New \<or> saState w = Completing then handleEvent RunApplication w else w);
                   w = addAllocationAskInternal r w;
                   delta = SubFrom delta oldAskResource;
                   w = w\<lparr>saPending := Prune (Add (saPending w) delta)\<rparr>;
                   w = w\<lparr>heap := incPendingResource (heap w) (saQueue w) delta\<rparr>
               in (insert_request r w, None))"

definition RecoverAllocationAsk :: "nat option \<Rightarrow> world \<Rightarrow> world" where
  "RecoverAllocationAsk a w =
     (case a of
        None \<Rightarrow> w
      | Some r \<Rightarrow>
          let w = addAllocationAskInternal r w
          in if saState w = New then handleEvent RunApplication w else w)"

definition allocateAsk :: "nat \<Rightarrow> world \<Rightarrow> world \<times> (app_error + resource option)" where
  "allocateAsk r w =
     (if allocated (store w r) then (w, Inl (AlreadyAllocated (allocationKey (store w r))))
      else
        let w = mutate r (\<lambda>a. fst (allocate a)) w;
            w = removeFromPriorities (priority (store w r)) w;
            delta = resource_of w r;
            w = w\<lparr>saPending := Prune (Sub (saPending w) delta)\<rparr>;
            w = w\<lparr>heap := decPendingResource (heap w) (saQueue w) delta\<rparr>
        in (w, Inr delta))"

definition deallocateAsk :: "nat \<Rightarrow> world \<Rightarrow> world \<times> (app_error + resource option)" where
  "deallocateAsk r w =
     (if \<not> allocated (store w r) then (w, Inl (NotAllocated (allocationKey (store w r))))
      else
        let w = mutate r (\<lambda>a. fst (deallocate a)) w;
            w = (if map_of (saRequests w) (allocationKey (store w r)) = Some r
                 then addToPriorities (priority (store w r)) w else w);
            delta = resource_of w r;
            w = w\<lparr>saPending := Add (saPending w) delta\<rparr>;
            w = w\<lparr>heap := incPendingResource (heap w) (saQueue w) delta\<rparr>
        in (w, Inr delta))"

definition AllocateAsk :: "string \<Rightarrow> world \<Rightarrow> world \<times> (app_error + resource option)" where
  "AllocateAsk allocKey w =
     (case map_of (saRequests w) allocKey of
        Some r \<Rightarrow> allocateAsk r w
      | None \<Rightarrow> (w, Inl (AskNotFound allocKey)))"

definition DeallocateAsk :: "string \<Rightarrow> world \<Rightarrow> world \<times> (app_error + resource option)" where
  "DeallocateAsk allocKey w =
     (case map_of (saRequests w) allocKey of
        Some r \<Rightarrow> deallocateAsk r w
      | None \<Rightarrow> (w, Inl (AskNotFound allocKey)))"

section \<open>Reservations\<close>

definition unReserveInternal :: "app_reservation \<Rightarrow> world \<Rightarrow> world \<times> int" where
  "unReserveInternal reserve w =
     (case node_unReserve (nodes w (resNodeID reserve)) (Some (store w (resAlloc reserve))) of
        (sn, num) \<Rightarrow>
          let w = w\<lparr>nodes := (nodes w)(resNodeID reserve := sn)\<rparr>
          in if map_has (saReservations w) (resAllocKey reserve)
             then (w\<lparr>saReservations := AList.delete (resAllocKey reserve) (saReservations w)\<rparr>, 1)
             else (w, 0))"

definition app_UnReserve :: "string \<Rightarrow> nat \<Rightarrow> world \<Rightarrow> world \<times> int" where
  "app_UnReserve nodeID r w =
     (case map_of (saReservations w) (allocationKey (store w r)) of
        None \<Rightarrow> (w, 0)
      | Some reserve \<Rightarrow> unReserveInternal reserve w)"

definition canAllocationReserve :: "nat \<Rightarrow> world \<Rightarrow> app_error option" where
  "canAllocationReserve r w =
     (if allocated (store w r) then Some ReservingAllocated
      else if map_of (saReservations w) (allocationKey (store w r)) \<noteq> None then Some DuplicateReserve
      else None)"

definition reserveInternal :: "string \<Rightarrow> nat \<Rightarrow> world \<Rightarrow> world \<times> app_error option" where
  "reserveInternal nodeID r w =
     (let ask = store w r; allocKey = allocationKey ask
      in if map_of (saRequests w) allocKey = None then (w, Some (AskNotFound allocKey))
         else
           let nodeReservation =
                 \<lparr>resAppID = [], resNodeID = nodeID, resAllocKey = allocKey,
                  resRequiredNode = requiredNode ask, resAlloc = r, resCreateTime = clock w\<rparr>
           in case canAllocationReserve r w of
                Some err \<Rightarrow> (w, Some err)
              | None \<Rightarrow>
                  (case node_Reserve (nodes w nodeID) (Some (saID w)) (Some ask) of
                     (sn, Some err) \<Rightarrow> (w, Some (NodeReserveError err))
                   | (sn, None) \<Rightarrow>
                       (w\<lparr>nodes := (nodes w)(nodeID := sn),
                          saReservations := AList.update allocKey nodeReservation (saReservations w)\<rparr>,
                        None)))"

text \<open>Cancelling the reservations of an application one by one.\<close>

definition unReserveAll :: "app_reservation list \<Rightarrow> world \<Rightarrow> world \<times> int" where
  "unReserveAll rs w =
     fold (\<lambda>reserve (w, total). case unReserveInternal reserve w of (w, num) \<Rightarrow> (w, total + num)) rs (w, 0)"

section \<open>Removing asks\<close>

definition getPlaceholderAllocations :: "world \<Rightarrow> nat list" where
  "getPlaceholderAllocations w =
     filter (\<lambda>r. placeholder (store w r)) (map snd (saAllocations w))"

definition removeAllAsks :: "world \<Rightarrow> world \<times> resource option \<times> int" where
  "removeAllAsks w =
     (case unReserveAll (map snd (saReservations w)) w of
        (w, toRelease) \<Rightarrow>
          let w = queue_UnReserve toRelease w;
              delta = saPending w;
              w = w\<lparr>saPending := Some NewResource, saRequests := [], saSortedRequests := [],
                    saPendingPriorities := [], saAskMaxPriority := MinPriority\<rparr>;
              w = w\<lparr>heap := UpdateApplicationPriority (heap w) (saQueue w) (saID w) MinPriority\<rparr>
          in (w, delta, toRelease))"

definition removeOneAsk :: "string \<Rightarrow> world \<Rightarrow> world \<times> resource option \<times> int" where
  "removeOneAsk allocKey w =
     (case (case map_of (saReservations w) allocKey of
              Some reserve \<Rightarrow>
                (case unReserveInternal reserve w of (w, releases) \<Rightarrow> (queue_UnReserve releases w, releases))
            | None \<Rightarrow> (w, 0)) of
        (w, toRelease) \<Rightarrow>
          (case map_of (saRequests w) allocKey of
             None \<Rightarrow> (w, None, toRelease)
           | Some r \<Rightarrow>
               let ask = store w r;
                   (w, delta) =
                     (if \<not> allocated ask
                      then (removeFromPriorities (priority ask)
                              (w\<lparr>saPending := Prune (Sub (saPending w) (allocRes ask))\<rparr>),
                            allocRes ask)
                      else (w, None));
                   w = w\<lparr>saRequests := AList.delete allocKey (saRequests w)\<rparr>
               in (remove_request r w, delta, toRelease)))"

definition removeAsksInternal :: "string \<Rightarrow> world \<Rightarrow> world \<times> int" where
  "removeAsksInternal allocKey w =
     (if saRequests w = [] then (w, 0)
      else case (if allocKey = [] then removeAllAsks w else removeOneAsk allocKey w) of
             (w, delta, toRelease) \<Rightarrow>
               let w = w\<lparr>heap := decPendingResource (heap w) (saQueue w) delta\<rparr>;
                   hasPlaceHolderAllocations = getPlaceholderAllocations w \<noteq> []
               in (if IsZero (saPending w) \<and> IsZero (saAllocated w) \<and> saState w \<noteq> Failing \<and>
                      saState w \<noteq> Completing \<and> \<not> hasPlaceHolderAllocations
                   then handleEvent CompleteApplication w else w, toRelease))"

section \<open>Allocations\<close>

definition addAllocationInternal_app :: "AllocationResultType \<Rightarrow> nat \<Rightarrow> world \<Rightarrow> world" where
  "addAllocationInternal_app allocType r w =
     (let a = store w r; res = allocRes a;
          w = (if placeholder a
               then
                 let w = (if IsZero (saAllocatedPlaceholder w)
                          then initPlaceholderTimer (w\<lparr>saHasPlaceholderAlloc := True\<rparr>) else w);
                     w = incUserResourceUsage res w;
                     w = w\<lparr>saAllocatedPlaceholder := Add (saAllocatedPlaceholder w) res\<rparr>;
                     w = w\<lparr>saMaxAllocated :=
                             ComponentWiseMax (saAllocatedPlaceholder w) (saMaxAllocated w)\<rparr>
                 in if Equals (saAllocatedPlaceholder w) (saPlaceholderAsk w)
                    then handleEvent RunApplication w else w
               else
                 let w = (if allocType \<noteq> Replaced \<or> \<not> IsZero (saAllocated w) \<or> saState w = Completing
                          then handleEvent RunApplication w else w);
                     w = incUserResourceUsage res w;
                     w = w\<lparr>saAllocated := Add (saAllocated w) res\<rparr>
                 in w\<lparr>saMaxAllocated := ComponentWiseMax (saAllocated w) (saMaxAllocated w)\<rparr>);
          w = (if createTime a < saSubmissionTime w then w\<lparr>saSubmissionTime := createTime a\<rparr> else w)
      in w\<lparr>saAllocations := AList.update (allocationKey a) r (saAllocations w)\<rparr>)"

definition app_AddAllocation :: "nat \<Rightarrow> world \<Rightarrow> world" where
  "app_AddAllocation r w = addAllocationInternal_app Allocated r w"

definition hasZeroAllocations :: "world \<Rightarrow> bool" where
  "hasZeroAllocations w \<longleftrightarrow> IsZero (saPending w) \<and> IsZero (saAllocated w)"

text \<open>A placeholder that goes away counts as replaced or as timed out.\<close>

definition countPlaceholder :: "(PlaceholderData \<Rightarrow> PlaceholderData) \<Rightarrow> string \<Rightarrow> world \<Rightarrow> world" where
  "countPlaceholder f tg w =
     (case saPlaceholderData w of
        None \<Rightarrow> w
      | Some data \<Rightarrow>
          (case map_of data tg of
             None \<Rightarrow> w
           | Some ph \<Rightarrow> w\<lparr>saPlaceholderData := Some (AList.update tg (f ph) data)\<rparr>))"

definition removePlaceholder :: "nat \<Rightarrow> TerminationType \<Rightarrow> world \<Rightarrow> world \<times> applicationEvent option" where
  "removePlaceholder r releaseType w =
     (let a = store w r;
          w = countPlaceholder
                (if releaseType = PlaceholderReplaced then (\<lambda>ph. ph\<lparr>phReplaced := phReplaced ph + 1\<rparr>)
                 else (\<lambda>ph. ph\<lparr>phTimedOut := phTimedOut ph + 1\<rparr>)) (taskGroupName a) w;
          w = w\<lparr>saAllocatedPlaceholder := Prune (Sub (saAllocatedPlaceholder w) (allocRes a))\<rparr>;
          (w, event, removeApp) =
            (if IsZero (saAllocatedPlaceholder w)
             then
               let w = (clearPlaceholderTimer w)\<lparr>saHasPlaceholderAlloc := False\<rparr>
               in if saState w = Completing \<and> saStateTimer w = None \<or> saState w = Failing \<or>
                     saState w = Resuming \<or> hasZeroAllocations w
                  then (w, Some (if saState w = Resuming then RunApplication
                                 else if saState w = Failing then FailApplication
                                 else CompleteApplication), saState w \<noteq> Resuming)
                  else (w, None, False)
             else (w, None, False))
      in (decUserResourceUsage (allocRes a) removeApp w, event))"

definition removeReal :: "nat \<Rightarrow> world \<Rightarrow> world \<times> applicationEvent option" where
  "removeReal r w =
     (let a = store w r;
          w = w\<lparr>saAllocated := Prune (Sub (saAllocated w) (allocRes a))\<rparr>;
          removeApp = hasZeroAllocations w
      in (decUserResourceUsage (allocRes a) removeApp w,
          if removeApp then Some CompleteApplication else None))"

definition removeAllocationInternal :: "string \<Rightarrow> TerminationType \<Rightarrow> world \<Rightarrow> world \<times> nat option" where
  "removeAllocationInternal key releaseType w =
     (case map_of (saAllocations w) key of
        None \<Rightarrow> (w, None)
      | Some r \<Rightarrow>
          (case (if placeholder (store w r) then removePlaceholder r releaseType w else removeReal r w) of
             (w, event) \<Rightarrow>
               let w = (case event of Some e \<Rightarrow> handleEvent e w | None \<Rightarrow> w)
               in (w\<lparr>saAllocations := AList.delete key (saAllocations w)\<rparr>, Some r)))"

definition app_ReplaceAllocation :: "string \<Rightarrow> world \<Rightarrow> world \<times> nat option" where
  "app_ReplaceAllocation key w =
     (case removeAllocationInternal key PlaceholderReplaced w of
        (w, None) \<Rightarrow> (w, None)
      | (w, Some ph) \<Rightarrow>
          (case release (store w ph) of
             None \<Rightarrow> (w, Some ph)
           | Some r \<Rightarrow>
               let w = mutate r (\<lambda>a. a\<lparr>placeholderUsed := True,
                                       placeholderCreateTime := Some (createTime (store w ph)),
                                       bindTime := Some (clock w)\<rparr>) w;
                   w = addAllocationInternal_app Replaced r w
               in (mutate r ClearRelease w, Some ph)))"

definition RemoveAllAllocations :: "world \<Rightarrow> world \<times> nat list" where
  "RemoveAllAllocations w =
     (let released = map snd (saAllocations w);
          w = fold (\<lambda>r w. if placeholder (store w r)
                          then countPlaceholder (\<lambda>ph. ph\<lparr>phTimedOut := phTimedOut ph + 1\<rparr>)
                                 (taskGroupName (store w r)) w
                          else w) released w;
          w = (if map_of (userTrackers (users w)) (User (saUser w)) \<noteq> None \<and> IsZero (saPending w)
               then decUserResourceUsage (Add (saAllocated w) (saAllocatedPlaceholder w)) True w else w);
          w = w\<lparr>saAllocated := Some NewResource, saAllocatedPlaceholder := Some NewResource,
                saAllocations := []\<rparr>;
          w = (if IsZero (saPending w)
               then handleEvent (if saState w = Failing then FailApplication else CompleteApplication) w
               else w)
      in (clearStateTimer (clearPlaceholderTimer w), released))"

definition RollbackAllocation :: "string \<Rightarrow> world \<Rightarrow> world \<times> (app_error + resource option)" where
  "RollbackAllocation allocKey w =
     (if saState w \<noteq> Accepted \<and> saState w \<noteq> Running then (w, Inl (WrongState allocKey (saState w)))
      else if map_of (saRequests w) allocKey = None then (w, Inl (AskNotFound allocKey))
      else case map_of (saAllocations w) allocKey of
             None \<Rightarrow> (w, Inl (AllocationNotFound allocKey))
           | Some r \<Rightarrow>
               (case deallocateAsk r w of
                  (w, Inl err) \<Rightarrow> (w, Inl err)
                | (w, Inr _) \<Rightarrow>
                    let w = mutate r (\<lambda>a. a\<lparr>allocNodeID := []\<rparr>) w;
                        res = resource_of w r;
                        w = w\<lparr>saAllocated := Prune (Sub (saAllocated w) res)\<rparr>;
                        w = decUserResourceUsage res False w
                    in (w\<lparr>saAllocations := AList.delete allocKey (saAllocations w)\<rparr>, Inr res)))"

text \<open>The copy of the object on the node that it is bound to sees the new resource as well.\<close>

definition SetAllocatedResource :: "nat \<Rightarrow> resource option \<Rightarrow> world \<Rightarrow> world" where
  "SetAllocatedResource r res w =
     (let a = store w r; nodeID = allocNodeID a; sn = nodes w nodeID;
          w = mutate r (\<lambda>a. a\<lparr>allocRes := res\<rparr>) w
      in case map_of (Nodes.allocations sn) (allocationKey a) of
           None \<Rightarrow> w
         | Some c \<Rightarrow>
             w\<lparr>nodes := (nodes w)(nodeID := sn\<lparr>Nodes.allocations :=
                 AList.update (allocationKey a) (c\<lparr>allocRes := res\<rparr>) (Nodes.allocations sn)\<rparr>)\<rparr>)"

definition UpdateAllocationResources :: "alloc option \<Rightarrow> bool \<Rightarrow> world \<Rightarrow> world \<times> app_error option" where
  "UpdateAllocationResources al isQuotaPreemptionEnabled w =
     (case al of
        None \<Rightarrow> (w, Some AskIsNil)
      | Some a \<Rightarrow>
          if IsZero (allocRes a) then (w, Some (ZeroResources (allocationKey a)))
          else case map_of (saRequests w) (allocationKey a) of
                 None \<Rightarrow> (w, Some (AskNotFound (allocationKey a)))
               | Some r \<Rightarrow>
                   let newResource = Clone (allocRes a);
                       delta = Sub newResource (Clone (resource_of w r))
                   in if IsZero delta then (w, None)
                      else
                        let delta = Prune delta;
                            w = (if allocated (store w r)
                                 then
                                   let w = w\<lparr>saAllocated := Prune (Add (saAllocated w) delta)\<rparr>;
                                       w = w\<lparr>heap := IncAllocatedResource (heap w) (saQueue w) delta
                                                      isQuotaPreemptionEnabled (clock w)\<rparr>
                                   in incUserResourceUsage delta w
                                 else
                                   let w = w\<lparr>saPending := Prune (Add (saPending w) delta)\<rparr>
                                   in w\<lparr>heap := incPendingResource (heap w) (saQueue w) delta\<rparr>)
                        in (SetAllocatedResource r newResource w, None))"

section \<open>Timeouts\<close>

definition notifyRMAllocationReleased :: "nat list \<Rightarrow> TerminationType \<Rightarrow> world \<Rightarrow> world" where
  "notifyRMAllocationReleased rs terminationType w =
     (if rs = [] then w
      else w\<lparr>releasesSent :=
               releasesSent w @ [(map (\<lambda>r. allocationKey (store w r)) rs, terminationType)]\<rparr>)"

text \<open>Mark allocations as released; one that is preempted is skipped. The first argument says whether
  those that are already marked are skipped as well.\<close>

fun markReleased :: "bool \<Rightarrow> nat list \<Rightarrow> world \<Rightarrow> world \<times> nat list" where
  "markReleased skip [] w = (w, [])"
| "markReleased skip (r # rs) w =
     (if skip \<and> released (store w r) then markReleased skip rs w
      else case SetReleased (store w r) True of
             (a, Some _) \<Rightarrow> markReleased skip rs w
           | (a, None) \<Rightarrow>
               (case markReleased skip rs (mutate r (\<lambda>_. a) w) of (w, toRelease) \<Rightarrow> (w, r # toRelease)))"

definition timeoutStateTimer :: "applicationState \<Rightarrow> applicationEvent \<Rightarrow> world \<Rightarrow> world" where
  "timeoutStateTimer expectedState event w =
     (if expectedState \<noteq> saState w then w
      else if saState w = Completing \<and> \<not> IsZero (saAllocatedPlaceholder w)
      then case markReleased True (getPlaceholderAllocations w) w of
             (w, toRelease) \<Rightarrow> clearStateTimer (notifyRMAllocationReleased toRelease Timeout w)
      else handleEvent event w)"

text \<open>The pending asks of an application that timed out; \<open>None\<close> is the nil dereference for an ask whose
  task group has no placeholder data.\<close>

fun timeoutAsks :: "nat list \<Rightarrow> world \<Rightarrow> (world \<times> nat list) option" where
  "timeoutAsks [] w = Some (w, [])"
| "timeoutAsks (r # rs) w =
     (if allocated (store w r) then timeoutAsks rs w
      else case SetReleased (store w r) True of
             (a, Some _) \<Rightarrow> timeoutAsks rs w
           | (a, None) \<Rightarrow>
               let w = mutate r (\<lambda>_. a) w
               in (case saPlaceholderData w of
                     None \<Rightarrow> None
                   | Some data \<Rightarrow>
                       if map_of data (taskGroupName a) = None then None
                       else case timeoutAsks rs (countPlaceholder (\<lambda>ph. ph\<lparr>phTimedOut := phTimedOut ph + 1\<rparr>)
                                                   (taskGroupName a) w) of
                              None \<Rightarrow> None
                            | Some (w, toRelease) \<Rightarrow> Some (w, r # toRelease)))"

definition timeoutPlaceholderProcessing :: "world \<Rightarrow> world option" where
  "timeoutPlaceholderProcessing w =
     (if (saState w = Running \<or> saState w = Completing) \<and> \<not> IsZero (saAllocatedPlaceholder w)
      then case markReleased True (getPlaceholderAllocations w) w of
             (w, toRelease) \<Rightarrow>
               Some (clearPlaceholderTimer (notifyRMAllocationReleased toRelease Timeout w))
      else
        let event = (if saGangSchedulingStyle w = ''Hard'' then FailApplication else ResumeApplication);
            w = fst (HandleApplicationEventWithInfo event (Some ''ResourceReservationTimeout'') w)
        in case markReleased False (map snd (saAllocations w)) w of
             (w, toRelease) \<Rightarrow>
               (case timeoutAsks (map snd (saRequests w)) w of
                  None \<Rightarrow> None
                | Some (w, pendingRelease) \<Rightarrow>
                    let w = fst (removeAsksInternal [] w);
                        w = notifyRMAllocationReleased toRelease Timeout w;
                        w = notifyRMAllocationReleased pendingRelease Timeout w
                    in Some (clearPlaceholderTimer w)))"

section \<open>Scheduling\<close>

text \<open>The predicates are a plugin of the resource manager: a function of the key of the allocation, the
  node and whether it is to be allocated, which returns an error message or none.\<close>

type_synonym predicates = "string \<Rightarrow> string \<Rightarrow> bool \<Rightarrow> string option"

definition preConditions :: "predicates \<Rightarrow> string \<Rightarrow> nat \<Rightarrow> bool \<Rightarrow> world \<Rightarrow> world \<times> string option" where
  "preConditions plugin nodeID r alloc w =
     (case plugin (allocationKey (store w r)) nodeID alloc of
        Some msg \<Rightarrow> (mutate r (\<lambda>a. LogAllocationFailure (clock w) a msg alloc) w, Some msg)
      | None \<Rightarrow> (w, None))"

definition canReplace :: "nat option \<Rightarrow> world \<Rightarrow> bool" where
  "canReplace request w =
     (case request of
        None \<Rightarrow> False
      | Some r \<Rightarrow>
          if placeholder (store w r) \<or> taskGroupName (store w r) = [] then False
          else case saPlaceholderData w of
                 None \<Rightarrow> False
               | Some data \<Rightarrow>
                   (case map_of data (taskGroupName (store w r)) of
                      Some ph \<Rightarrow> phCount ph > phReplaced ph + phTimedOut ph
                    | None \<Rightarrow> False))"

definition checkHeadRooms :: "nat \<Rightarrow> resource option \<Rightarrow> resource option \<Rightarrow> world \<Rightarrow> bool" where
  "checkHeadRooms r userHeadroom headRoom w \<longleftrightarrow>
     FitInMaxUndef userHeadroom (resource_of w r) \<and> FitInMaxUndef headRoom (resource_of w r)"

text \<open>The asks that would fit in the headroom, one after the other, and what they add up to.\<close>

fun outstandingRequests ::
    "world \<Rightarrow> nat list \<Rightarrow> resource option \<Rightarrow> resource option \<Rightarrow> nat list \<Rightarrow> resource option \<Rightarrow>
     nat list \<times> resource option" where
  "outstandingRequests w [] headRoom userHeadRoom asks resTotal = (asks, resTotal)"
| "outstandingRequests w (r # rs) headRoom userHeadRoom asks resTotal =
     (let request = store w r; res = allocRes request
      in if allocated request \<or> \<not> schedulingAttempted request
         then outstandingRequests w rs headRoom userHeadRoom asks resTotal
         else if FitInMaxUndef headRoom res \<and> FitInMaxUndef userHeadRoom res
         then
           let add = \<not> scaleUpTriggered request \<and> requiredNode request = [] \<and> \<not> canReplace (Some r) w
           in outstandingRequests w rs (SubOnlyExisting headRoom res) (SubOnlyExisting userHeadRoom res)
                (if add then asks @ [r] else asks) (if add then AddTo resTotal res else resTotal)
         else outstandingRequests w rs headRoom userHeadRoom asks resTotal)"

definition getOutstandingRequests ::
    "resource option \<Rightarrow> resource option \<Rightarrow> nat list \<Rightarrow> world \<Rightarrow> nat list \<times> resource option" where
  "getOutstandingRequests headRoom userHeadRoom asks w =
     outstandingRequests w (saSortedRequests w) headRoom userHeadRoom asks (Some NewResource)"

definition tryNode ::
    "predicates \<Rightarrow> string \<Rightarrow> nat \<Rightarrow> world \<Rightarrow> world \<times> AllocationResult option \<times> string option" where
  "tryNode plugin nodeID r w =
     (let toAllocate = resource_of w r; key = allocationKey (store w r)
      in if \<not> preAllocateCheck (nodes w nodeID) toAllocate key then (w, None, None)
         else case preConditions plugin nodeID r True w of
                (w, Some msg) \<Rightarrow> (w, None, Some msg)
              | (w, None) \<Rightarrow>
                  (case TryAddAllocation (nodes w nodeID) (Some (store w r)) of
                     (sn, False) \<Rightarrow> (w, None, None)
                   | (sn, True) \<Rightarrow>
                       let w = w\<lparr>nodes := (nodes w)(nodeID := sn)\<rparr>
                       in case TryIncAllocatedResource (heap w) (saQueue w) toAllocate of
                            (h, Some _) \<Rightarrow>
                              (w\<lparr>heap := h, nodes := (nodes w)(nodeID := fst (RemoveAllocation sn key))\<rparr>,
                               None, None)
                          | (h, None) \<Rightarrow>
                              let w = fst (allocateAsk r (w\<lparr>heap := h\<rparr>));
                                  result = newAllocationResultInternal Allocated nodeID r
                              in (addAllocationInternal_app (ResultType result) r w, Some result, None)))"

text \<open>The nodes of a reserved ask that is tried elsewhere, in the order of the iterator.\<close>

fun tryNodesNoReserve ::
    "predicates \<Rightarrow> nat \<Rightarrow> string \<Rightarrow> string list \<Rightarrow> world \<Rightarrow> world \<times> AllocationResult option" where
  "tryNodesNoReserve plugin r reservedNode [] w = (w, None)"
| "tryNodesNoReserve plugin r reservedNode (nodeID # ids) w =
     (if \<not> schedulable (nodes w nodeID) then tryNodesNoReserve plugin r reservedNode ids w
      else if \<not> FitInNode (nodes w nodeID) (resource_of w r) \<or> nodeID = reservedNode
      then tryNodesNoReserve plugin r reservedNode ids w
      else case tryNode plugin nodeID r w of
             (w, Some result, _) \<Rightarrow>
               (w, Some (result\<lparr>ResultType := AllocatedReserved, ReservedNodeID := reservedNode\<rparr>))
           | (w, None, _) \<Rightarrow> tryNodesNoReserve plugin r reservedNode ids w)"

text \<open>Replacing placeholders. The links between a placeholder and the real allocation, and undoing them.\<close>

definition linkReplacement :: "nat \<Rightarrow> nat \<Rightarrow> world \<Rightarrow> world" where
  "linkReplacement r ph w = mutate ph (\<lambda>a. SetRelease a r) (mutate r (\<lambda>a. SetRelease a ph) w)"

definition unlinkReplacement :: "nat \<Rightarrow> nat \<Rightarrow> world \<Rightarrow> world" where
  "unlinkReplacement r ph w = mutate ph ClearRelease (mutate r ClearRelease (fst (deallocateAsk r w)))"

definition bindReplacement :: "nat \<Rightarrow> string \<Rightarrow> world \<Rightarrow> world" where
  "bindReplacement r nodeID w = mutate r (\<lambda>a. a\<lparr>bindTime := Some (clock w), allocNodeID := nodeID\<rparr>) w"

text \<open>One request against the placeholders. \<open>getNode\<close> says which nodes the partition knows; the first fit
  is remembered.\<close>

fun replaceOnNode ::
    "predicates \<Rightarrow> (string \<Rightarrow> bool) \<Rightarrow> nat \<Rightarrow> nat list \<Rightarrow> (nat \<times> nat) option \<Rightarrow> world \<Rightarrow>
     world \<times> (nat \<times> nat) option \<times> AllocationResult option" where
  "replaceOnNode plugin getNode r [] fit w = (w, fit, None)"
| "replaceOnNode plugin getNode r (ph # phs) fit w =
     (let p = store w ph; request = store w r
      in if released p \<or> preempted p \<or> taskGroupName request \<noteq> taskGroupName p
         then replaceOnNode plugin getNode r phs fit w
         else if HasNegativeValue (Sub (allocRes p) (allocRes request))
         then
           (case SetReleased p True of
              (a, Some _) \<Rightarrow> replaceOnNode plugin getNode r phs fit w
            | (a, None) \<Rightarrow>
                replaceOnNode plugin getNode r phs fit
                  (notifyRMAllocationReleased [ph] Timeout (mutate ph (\<lambda>_. a) w)))
         else
           let fit = (if fit = None then Some (ph, r) else fit); nodeID = allocNodeID p
           in if \<not> getNode nodeID \<or> plugin (allocationKey request) nodeID False \<noteq> None
              then replaceOnNode plugin getNode r phs fit w
              else
                let w = linkReplacement r ph (fst (allocateAsk r w))
                in case SetReleased (store w ph) True of
                     (a, Some _) \<Rightarrow> replaceOnNode plugin getNode r phs fit (unlinkReplacement r ph w)
                   | (a, None) \<Rightarrow>
                       (bindReplacement r nodeID (mutate ph (\<lambda>_. a) w), fit,
                        Some (newAllocationResultInternal Replaced nodeID r)))"

fun replaceRequests ::
    "predicates \<Rightarrow> (string \<Rightarrow> bool) \<Rightarrow> nat list \<Rightarrow> (nat \<times> nat) option \<Rightarrow> world \<Rightarrow>
     world \<times> (nat \<times> nat) option \<times> AllocationResult option" where
  "replaceRequests plugin getNode [] fit w = (w, fit, None)"
| "replaceRequests plugin getNode (r # rs) fit w =
     (if placeholder (store w r) \<or> taskGroupName (store w r) = [] \<or> allocated (store w r)
      then replaceRequests plugin getNode rs fit w
      else case replaceOnNode plugin getNode r (getPlaceholderAllocations w) fit w of
             (w, fit, Some result) \<Rightarrow> (w, fit, Some result)
           | (w, fit, None) \<Rightarrow> replaceRequests plugin getNode rs fit w)"

text \<open>The first fit on any other node; a failure after the checks gives up.\<close>

fun replaceElsewhere ::
    "predicates \<Rightarrow> nat \<Rightarrow> nat \<Rightarrow> string list \<Rightarrow> world \<Rightarrow> world \<times> AllocationResult option" where
  "replaceElsewhere plugin ph r [] w = (w, None)"
| "replaceElsewhere plugin ph r (nodeID # ids) w =
     (let key = allocationKey (store w r)
      in if \<not> schedulable (nodes w nodeID) \<or> \<not> preAllocateCheck (nodes w nodeID) (resource_of w r) key
         then replaceElsewhere plugin ph r ids w
         else case preConditions plugin nodeID r True w of
                (w, Some _) \<Rightarrow> replaceElsewhere plugin ph r ids w
              | (w, None) \<Rightarrow>
                  (case TryAddAllocation (nodes w nodeID) (Some (store w r)) of
                     (sn, False) \<Rightarrow> (w, None)
                   | (sn, True) \<Rightarrow>
                       let w = w\<lparr>nodes := (nodes w)(nodeID := sn)\<rparr>;
                           undo = (\<lambda>w. w\<lparr>nodes := (nodes w)(nodeID := fst (RemoveAllocation (nodes w nodeID) key))\<rparr>)
                       in case allocateAsk r w of
                            (w, Inl _) \<Rightarrow> (undo w, None)
                          | (w, Inr _) \<Rightarrow>
                              let w = linkReplacement r ph w
                              in case SetReleased (store w ph) True of
                                   (a, Some _) \<Rightarrow> (unlinkReplacement r ph (undo w), None)
                                 | (a, None) \<Rightarrow>
                                     (bindReplacement r nodeID (mutate ph (\<lambda>_. a) w),
                                      Some (newAllocationResultInternal Replaced nodeID r))))"

definition tryPlaceholderAllocate ::
    "predicates \<Rightarrow> (string \<Rightarrow> bool) \<Rightarrow> string list option \<Rightarrow> world \<Rightarrow> world \<times> AllocationResult option" where
  "tryPlaceholderAllocate plugin getNode iterator w =
     (if IsZero (saAllocatedPlaceholder w) then (w, None)
      else case replaceRequests plugin getNode (saSortedRequests w) None w of
             (w, fit, Some result) \<Rightarrow> (w, Some result)
           | (w, fit, None) \<Rightarrow>
               (case (iterator, fit) of
                  (Some ids, Some (ph, r)) \<Rightarrow> replaceElsewhere plugin ph r ids w
                | _ \<Rightarrow> (w, None)))"

section \<open>Creation, queue and tags\<close>

record si_application =
  siAppID :: string
  siQueueName :: string
  siAppTags :: "string gomap"
  siPlaceholderAsk :: "resource option"
  siGangStyle :: string

definition NewApplication ::
    "(applicationState, applicationEvent) fsm_event \<Rightarrow> si_application \<Rightarrow> UserGroup \<Rightarrow> int \<Rightarrow> int \<Rightarrow> Application" where
  "NewApplication fsm siApp ugi placeholderTimeout now =
     \<lparr>saID = siAppID siApp, saTags = siAppTags siApp, saQueuePath = siQueueName siApp, saQueue = [],
      saPending = Some NewResource, saReservations = [], saRequests = [], saSortedRequests = [],
      saUser = ugi, saAllocated = Some NewResource, saSubmissionTime = now,
      saMaxAllocated = Some NewResource, saAllocatedPlaceholder = Some NewResource, saAllocations = [],
      saPlaceholderAsk = siPlaceholderAsk siApp, saMachine = fsm, saState = New, saStateTimer = None,
      saExecTimeout = placeholderTimeout, saPlaceholderTimer = None,
      saGangSchedulingStyle =
        (if siGangStyle siApp \<noteq> ''Soft'' \<and> siGangStyle siApp \<noteq> ''Hard'' then ''Soft'' else siGangStyle siApp),
      saStartTime = None, saFinishedTime = None, saRejectedMessage = [], saStateLog = [],
      saPlaceholderData = None, saAskMaxPriority = MinPriority, saPendingPriorities = [],
      saHasPlaceholderAlloc = False, saRunnableInQueue = True, saRunnableByUserLimit = True\<rparr>"

definition SetQueue :: "qpath \<Rightarrow> world \<Rightarrow> world" where
  "SetQueue path w = w\<lparr>saQueuePath := QueuePath path, saQueue := path\<rparr>"

definition UnSetQueue :: "world \<Rightarrow> world" where
  "UnSetQueue w =
     (let w = (if saQueue w \<noteq> []
               then w\<lparr>heap := RemoveApplication (heap w) (saQueue w)
                        \<lparr>ApplicationID = saID w, appPending = saPending w, appAllocated = saAllocated w,
                         appPlaceholder = saAllocatedPlaceholder w,
                         appAllocations = map (\<lambda>(_, r). (preempted (store w r), resource_of w r)) (saAllocations w)\<rparr>\<rparr>
               else w)
      in w\<lparr>saQueue := [], saFinishedTime := Some (clock w)\<rparr>)"

definition updateRunnableStatus :: "bool \<Rightarrow> bool \<Rightarrow> world \<Rightarrow> world" where
  "updateRunnableStatus runnableInQueue runnableByUserLimit w =
     w\<lparr>saRunnableInQueue := runnableInQueue, saRunnableByUserLimit := runnableByUserLimit\<rparr>"

definition GetTag :: "string gomap \<Rightarrow> string \<Rightarrow> string" where
  "GetTag tagMap tag =
     (case List.find (\<lambda>(key, _). EqualFold key tag) tagMap of Some (_, val) \<Rightarrow> val | None \<Rightarrow> [])"

end
