(* ===== verification/ApplicationBooks.thy ===== *)
theory ApplicationBooks
  imports Applications
begin

text \<open>
  The books of an application: the pending resource is the sum over the asks that are not allocated, the
  allocated resource and the placeholder resource are the sums over the allocations, and the priority
  that the application reports to its queue is the highest of its pending asks. Every operation of the
  theory \<open>Applications\<close> keeps the books.
\<close>

section \<open>Specification\<close>

definition finished :: "applicationState \<Rightarrow> bool" where
  "finished s \<longleftrightarrow> s \<in> {Completed, Failed, Rejected, Expired}"

definition ask_amount :: "(nat \<Rightarrow> alloc) \<Rightarrow> string \<Rightarrow> nat \<Rightarrow> int" where
  "ask_amount st k r = (if allocated (st r) then 0 else amount (allocRes (st r)) k)"

definition alloc_amount :: "bool \<Rightarrow> (nat \<Rightarrow> alloc) \<Rightarrow> string \<Rightarrow> nat \<Rightarrow> int" where
  "alloc_amount ph st k r = (if placeholder (st r) = ph then amount (allocRes (st r)) k else 0)"

definition ask_count :: "(nat \<Rightarrow> alloc) \<Rightarrow> int \<Rightarrow> nat \<Rightarrow> int" where
  "ask_count st p r = (if \<not> allocated (st r) \<and> priority (st r) = p then 1 else 0)"

text \<open>The histogram of priorities holds the counts, and its highest band is the cached maximum.\<close>

definition maxBand :: "(int \<times> int) list \<Rightarrow> int" where
  "maxBand bands = fold (\<lambda>(band, _) newMax. max newMax band) bands MinPriority"

definition bands_ok :: "(int \<times> int) list \<Rightarrow> int \<Rightarrow> (int \<Rightarrow> int) \<Rightarrow> bool" where
  "bands_ok bands mx c \<longleftrightarrow>
     distinct (map fst bands) \<and> (\<forall>(p, n)\<in>set bands. 0 < n) \<and> (\<forall>p. bandCount bands p = c p) \<and>
     mx = maxBand bands"

text \<open>A map of addresses is keyed by the keys of the objects.\<close>

definition keyed :: "(nat \<Rightarrow> alloc) \<Rightarrow> nat gomap \<Rightarrow> bool" where
  "keyed st m \<longleftrightarrow> wf_map m \<and> (\<forall>k r. map_of m k = Some r \<longrightarrow> allocationKey (st r) = k)"

definition pending_ok :: "(nat \<Rightarrow> alloc) \<Rightarrow> nat gomap \<Rightarrow> resource option \<Rightarrow> bool" where
  "pending_ok st reqs pend \<longleftrightarrow> (\<forall>k. amount pend k = map_sum (ask_amount st k) reqs)"

definition allocs_ok :: "bool \<Rightarrow> (nat \<Rightarrow> alloc) \<Rightarrow> nat gomap \<Rightarrow> resource option \<Rightarrow> bool" where
  "allocs_ok ph st allocs res \<longleftrightarrow> (\<forall>k. amount res k = map_sum (alloc_amount ph st k) allocs)"

definition asks_ok :: "(nat \<Rightarrow> alloc) \<Rightarrow> nat gomap \<Rightarrow> resource option \<Rightarrow> (int \<times> int) list \<Rightarrow> int \<Rightarrow> bool \<Rightarrow> bool" where
  "asks_ok st reqs pend bands mx done \<longleftrightarrow>
     keyed st reqs \<and> (\<not> done \<longrightarrow> pending_ok st reqs pend) \<and>
     bands_ok bands mx (\<lambda>p. map_sum (ask_count st p) reqs)"

definition bound_ok :: "(nat \<Rightarrow> alloc) \<Rightarrow> nat gomap \<Rightarrow> resource option \<Rightarrow> resource option \<Rightarrow> bool" where
  "bound_ok st allocs res phs \<longleftrightarrow>
     keyed st allocs \<and> allocs_ok False st allocs res \<and> allocs_ok True st allocs phs"

definition app_ok :: "world \<Rightarrow> bool" where
  "app_ok w \<longleftrightarrow>
     fsm_documented (saMachine w) \<and>
     asks_ok (store w) (saRequests w) (saPending w) (saPendingPriorities w) (saAskMaxPriority w)
       (finished (saState w)) \<and>
     bound_ok (store w) (saAllocations w) (saAllocated w) (saAllocatedPlaceholder w)"

text \<open>Amounts that can be added and subtracted without saturation.\<close>

definition small_world :: "world \<Rightarrow> bool" where
  "small_world w \<longleftrightarrow>
     small (saPending w) \<and> small (saAllocated w) \<and> small (saAllocatedPlaceholder w) \<and>
     (\<forall>r. small (resource_of w r))"

text \<open>What the books read of a world.\<close>

definition book_view where
  "book_view w =
     (store w, saMachine w, saState w, saPending w, saRequests w, saPendingPriorities w,
      saAskMaxPriority w, saAllocations w, saAllocated w, saAllocatedPlaceholder w)"

lemma book_view_cong:
  assumes "book_view w = book_view w'"
  shows "app_ok w = app_ok w'" "small_world w = small_world w'"
  using assms by (auto simp: book_view_def app_ok_def small_world_def)

section \<open>The histogram of priorities\<close>

lemma maxBand_ge: "(p, n) \<in> set bands \<Longrightarrow> p \<le> maxBand bands"
  and maxBand_Min: "MinPriority \<le> maxBand bands"
proof -
  have "(\<forall>(p, n)\<in>set bands. p \<le> fold (\<lambda>(band, _) newMax. max newMax band) bands i) \<and>
      i \<le> fold (\<lambda>(band, _) newMax. max newMax band) bands i" for i
    by (induction bands arbitrary: i) (fastforce simp: max.coboundedI1)+
  then show "(p, n) \<in> set bands \<Longrightarrow> p \<le> maxBand bands" "MinPriority \<le> maxBand bands"
    by (auto simp: maxBand_def)
qed

lemma maxBand_in: "maxBand bands = MinPriority \<or> maxBand bands \<in> fst ` set bands"
proof -
  have "fold (\<lambda>(band, _) newMax. max newMax band) bands i \<in> insert i (fst ` set bands)" for i
    by (induction bands arbitrary: i) (auto simp: max_def, force+)
  then show ?thesis unfolding maxBand_def by blast
qed

lemma maxBand_unique:
  assumes "MinPriority \<le> m" "\<forall>(p, n)\<in>set bands. p \<le> m" "m = MinPriority \<or> m \<in> fst ` set bands"
  shows "maxBand bands = m"
proof (rule antisym)
  show "maxBand bands \<le> m" using maxBand_in [of bands] assms(1,2) by fastforce
  show "m \<le> maxBand bands"
    using assms(3) maxBand_Min [of bands] maxBand_ge [of m _ bands] by auto
qed

lemma bandCount_update: "bandCount (AList.update p n bands) q = (if q = p then n else bandCount bands q)"
  by (simp add: bandCount_def update_conv')

lemma bandCount_delete: "bandCount (AList.delete p bands) q = (if q = p then 0 else bandCount bands q)"
  by (simp add: bandCount_def delete_conv')

lemma bandCount_pos:
  assumes "bands_ok bands mx c"
  shows "0 < c p \<longleftrightarrow> (\<exists>n. (p, n) \<in> set bands)" and "0 \<le> c p"
proof -
  have c: "c p = (case map_of bands p of Some n \<Rightarrow> n | None \<Rightarrow> 0)"
    using assms by (simp add: bands_ok_def bandCount_def)
  have pos: "map_of bands p = Some n \<Longrightarrow> 0 < n" for n
    using assms map_of_SomeD [of bands p n] by (fastforce simp: bands_ok_def)
  show "0 < c p \<longleftrightarrow> (\<exists>n. (p, n) \<in> set bands)"
    using c pos by (auto split: option.splits dest: weak_map_of_SomeI map_of_SomeD)
  show "0 \<le> c p" using c pos by (auto split: option.splits dest: less_imp_le)
qed

lemma set_update_bands: "set (AList.update p n bands) \<subseteq> insert (p, n) (set bands)"
  and fst_update_bands: "fst ` set (AList.update p n bands) = insert p (fst ` set bands)"
  and set_delete_bands: "set (AList.delete p bands) \<subseteq> set bands"
  and fst_delete_bands: "fst ` set (AList.delete p bands) = fst ` set bands - {p}"
  by (induction bands) auto

lemma setAskMaxPriority_simps [simp]:
  "saPendingPriorities (setAskMaxPriority v w) = saPendingPriorities w"
  "saAskMaxPriority (setAskMaxPriority v w) = v"
  by (simp_all add: setAskMaxPriority_def)

lemma addToPriorities_bands:
  assumes "bands_ok (saPendingPriorities w) (saAskMaxPriority w) c"
  shows "bands_ok (saPendingPriorities (addToPriorities p w)) (saAskMaxPriority (addToPriorities p w))
    (c(p := c p + 1))"
proof -
  define bands where bands: "bands = saPendingPriorities w"
  define bands' where bands': "bands' = AList.update p (c p + 1) bands"
  have ok: "distinct (map fst bands)" "\<forall>(p, n)\<in>set bands. 0 < n" "\<And>p. bandCount bands p = c p"
    "saAskMaxPriority w = maxBand bands"
    using assms by (simp_all add: bands_ok_def bands)
  have mx: "maxBand bands' = max (maxBand bands) p"
  proof (rule maxBand_unique)
    show "MinPriority \<le> max (maxBand bands) p" using maxBand_Min [of bands] by simp
    show "\<forall>(q, n)\<in>set bands'. q \<le> max (maxBand bands) p"
      using set_update_bands [of p "c p + 1" bands] maxBand_ge [of _ _ bands]
      by (fastforce simp: bands' le_max_iff_disj)
    show "max (maxBand bands) p = MinPriority \<or> max (maxBand bands) p \<in> fst ` set bands'"
      using maxBand_in [of bands] by (auto simp: bands' fst_update_bands max_def)
  qed
  have "saPendingPriorities (addToPriorities p w) = bands'"
    "saAskMaxPriority (addToPriorities p w) = maxBand bands'"
    using ok(3,4) mx by (auto simp: addToPriorities_def Let_def bands' bands [symmetric])
  moreover have "\<forall>(q, n)\<in>set bands'. 0 < n"
    using ok(2) set_update_bands [of p "c p + 1" bands] bandCount_pos(2) [OF assms, of p]
    by (fastforce simp: bands')
  ultimately show ?thesis
    using ok(1,3) by (auto simp: bands_ok_def bands' bandCount_update distinct_update)
qed

lemma removeFromPriorities_bands:
  assumes "bands_ok (saPendingPriorities w) (saAskMaxPriority w) c" "0 < c p"
  shows "bands_ok (saPendingPriorities (removeFromPriorities p w)) (saAskMaxPriority (removeFromPriorities p w))
    (c(p := c p - 1))"
proof -
  define bands where bands: "bands = saPendingPriorities w"
  have ok: "distinct (map fst bands)" "\<forall>(p, n)\<in>set bands. 0 < n" "\<And>p. bandCount bands p = c p"
    "saAskMaxPriority w = maxBand bands"
    using assms by (simp_all add: bands_ok_def bands)
  have p: "p \<in> fst ` set bands" using bandCount_pos(1) [OF assms(1), of p] assms(2) by (force simp: bands)
  show ?thesis
  proof (cases "c p = 1")
    case False
    define bands' where bands': "bands' = AList.update p (c p - 1) bands"
    have "maxBand bands' = maxBand bands"
    proof (rule maxBand_unique)
      show "\<forall>(q, n)\<in>set bands'. q \<le> maxBand bands"
        using fst_update_bands [of p "c p - 1" bands] p maxBand_ge [of _ _ bands]
        by (force simp: bands')
      show "maxBand bands = MinPriority \<or> maxBand bands \<in> fst ` set bands'"
        using maxBand_in [of bands] by (auto simp: bands' fst_update_bands)
    qed (rule maxBand_Min)
    moreover have "removeFromPriorities p w = w\<lparr>saPendingPriorities := bands'\<rparr>"
      using False assms(2) ok(3) by (simp add: removeFromPriorities_def bands' bands [symmetric])
    moreover have "\<forall>(q, n)\<in>set bands'. 0 < n"
      using ok(2) set_update_bands [of p "c p - 1" bands] assms(2) False by (fastforce simp: bands')
    ultimately show ?thesis
      using ok by (auto simp: bands_ok_def bands' bandCount_update distinct_update)
  next
    case True
    define bands' where bands': "bands' = AList.delete p bands"
    have keep: "maxBand bands' = maxBand bands" if "p \<noteq> maxBand bands"
    proof (rule maxBand_unique)
      show "\<forall>(q, n)\<in>set bands'. q \<le> maxBand bands"
        using set_delete_bands [of p bands] maxBand_ge [of _ _ bands] by (fastforce simp: bands')
      show "maxBand bands = MinPriority \<or> maxBand bands \<in> fst ` set bands'"
        using maxBand_in [of bands] that by (auto simp: bands' fst_delete_bands)
    qed (rule maxBand_Min)
    have "saPendingPriorities (removeFromPriorities p w) = bands'"
      "saAskMaxPriority (removeFromPriorities p w) = maxBand bands'"
      using True ok(3,4) keep
      by (simp_all add: removeFromPriorities_def Let_def bands' bands [symmetric] maxBand_def)
    moreover have "\<forall>(q, n)\<in>set bands'. 0 < n" using ok(2) set_delete_bands [of p bands] by (auto simp: bands')
    ultimately show ?thesis
      using ok(1,3) True by (auto simp: bands_ok_def bands' bandCount_delete distinct_delete)
  qed
qed


section \<open>Frame lemmas\<close>

text \<open>Operations that do not touch the books.\<close>

lemma view_same [simp]:
  "book_view (incUserResourceUsage res w) = book_view w"
  "book_view (decUserResourceUsage res b w) = book_view w"
  "book_view (queue_UnReserve n w) = book_view w"
  "book_view (clearStateTimer w) = book_view w"
  "book_view (setStateTimer i s e w) = book_view w"
  "book_view (clearPlaceholderTimer w) = book_view w"
  "book_view (initPlaceholderTimer w) = book_view w"
  "book_view (insert_request r w) = book_view w"
  "book_view (remove_request r w) = book_view w"
  "book_view (addPlaceholderData r w) = book_view w"
  "book_view (countPlaceholder f tg w) = book_view w"
  "book_view (recordState s w) = book_view w"
  "book_view (leaveState s s' w) = book_view w"
  "book_view (notifyRMAllocationReleased rs t w) = book_view w"
  "book_view (fst (unReserveInternal reserve w)) = book_view w"
  "book_view (updateRunnableStatus b b' w) = book_view w"
  "book_view (SetQueue p w) = book_view w"
  "book_view (UnSetQueue w) = book_view w"
  by (simp_all add: book_view_def incUserResourceUsage_def decUserResourceUsage_def queue_UnReserve_def
      clearStateTimer_def setStateTimer_def clearPlaceholderTimer_def initPlaceholderTimer_def
      insert_request_def remove_request_def addPlaceholderData_def countPlaceholder_def recordState_def
      leaveState_def notifyRMAllocationReleased_def unReserveInternal_def updateRunnableStatus_def
      SetQueue_def UnSetQueue_def Let_def split: option.split prod.split)

lemma view_update [simp]:
  "book_view (w\<lparr>heap := h\<rparr>) = book_view w"
  "book_view (w\<lparr>users := m\<rparr>) = book_view w"
  "book_view (w\<lparr>nodes := n\<rparr>) = book_view w"
  "book_view (w\<lparr>saSubmissionTime := t\<rparr>) = book_view w"
  "book_view (w\<lparr>saMaxAllocated := r\<rparr>) = book_view w"
  "book_view (w\<lparr>saHasPlaceholderAlloc := b\<rparr>) = book_view w"
  "book_view (w\<lparr>saReservations := rs\<rparr>) = book_view w"
  by (simp_all add: book_view_def)


lemma viewD:
  assumes "book_view w' = book_view w"
  shows "store w' = store w" "saMachine w' = saMachine w" "saState w' = saState w"
    "saPending w' = saPending w" "saRequests w' = saRequests w"
    "saPendingPriorities w' = saPendingPriorities w" "saAskMaxPriority w' = saAskMaxPriority w"
    "saAllocations w' = saAllocations w" "saAllocated w' = saAllocated w"
    "saAllocatedPlaceholder w' = saAllocatedPlaceholder w"
  using assms by (simp_all add: book_view_def)

lemmas fields_same [simp] =
  view_same [THEN viewD(1)] view_same [THEN viewD(2)] view_same [THEN viewD(3)] view_same [THEN viewD(4)]
  view_same [THEN viewD(5)] view_same [THEN viewD(6)] view_same [THEN viewD(7)] view_same [THEN viewD(8)]
  view_same [THEN viewD(9)] view_same [THEN viewD(10)]

text \<open>The priority operations change the histogram and the cached maximum, nothing else.\<close>

lemma priority_fields [simp]:
  "store (addToPriorities p w) = store w" "saMachine (addToPriorities p w) = saMachine w"
  "saState (addToPriorities p w) = saState w" "saPending (addToPriorities p w) = saPending w"
  "saRequests (addToPriorities p w) = saRequests w" "saAllocations (addToPriorities p w) = saAllocations w"
  "saAllocated (addToPriorities p w) = saAllocated w"
  "saAllocatedPlaceholder (addToPriorities p w) = saAllocatedPlaceholder w"
  "store (removeFromPriorities p w) = store w" "saMachine (removeFromPriorities p w) = saMachine w"
  "saState (removeFromPriorities p w) = saState w" "saPending (removeFromPriorities p w) = saPending w"
  "saRequests (removeFromPriorities p w) = saRequests w"
  "saAllocations (removeFromPriorities p w) = saAllocations w"
  "saAllocated (removeFromPriorities p w) = saAllocated w"
  "saAllocatedPlaceholder (removeFromPriorities p w) = saAllocatedPlaceholder w"
  by (simp_all add: addToPriorities_def removeFromPriorities_def setAskMaxPriority_def Let_def)

text \<open>An event changes the state, and clears the asks on the way into Completed and Failed.\<close>

lemma enterState_fields [simp]:
  "store (enterState src dst info w) = store w" "saMachine (enterState src dst info w) = saMachine w"
  "saState (enterState src dst info w) = saState w" "saPending (enterState src dst info w) = saPending w"
  "saAllocations (enterState src dst info w) = saAllocations w"
  "saAllocated (enterState src dst info w) = saAllocated w"
  "saAllocatedPlaceholder (enterState src dst info w) = saAllocatedPlaceholder w"
  by (simp_all add: enterState_def cleanupAsks_def Let_def split: applicationState.split option.split)

lemma enterState_asks:
  "saRequests (enterState src dst info w) = (if dst \<in> {Completed, Failed} then [] else saRequests w)"
  "saPendingPriorities (enterState src dst info w) =
     (if dst \<in> {Completed, Failed} then [] else saPendingPriorities w)"
  "saAskMaxPriority (enterState src dst info w) =
     (if dst \<in> {Completed, Failed} then MinPriority else saAskMaxPriority w)"
  by (simp_all add: enterState_def cleanupAsks_def Let_def split: applicationState.split option.split)

definition next_state :: "applicationEvent \<Rightarrow> world \<Rightarrow> applicationState" where
  "next_state e w = fst (HandleApplicationEvent (saMachine w) (saState w) e)"

lemma event_fields [simp]:
  "store (fst (HandleApplicationEventWithInfo e info w)) = store w"
  "saMachine (fst (HandleApplicationEventWithInfo e info w)) = saMachine w"
  "saState (fst (HandleApplicationEventWithInfo e info w)) = next_state e w"
  "saPending (fst (HandleApplicationEventWithInfo e info w)) = saPending w"
  "saAllocations (fst (HandleApplicationEventWithInfo e info w)) = saAllocations w"
  "saAllocated (fst (HandleApplicationEventWithInfo e info w)) = saAllocated w"
  "saAllocatedPlaceholder (fst (HandleApplicationEventWithInfo e info w)) = saAllocatedPlaceholder w"
  by (simp_all add: HandleApplicationEventWithInfo_def next_state_def split: prod.split)

lemma event_asks:
  "saRequests (fst (HandleApplicationEventWithInfo e info w)) =
     (if next_state e w \<noteq> saState w \<and> next_state e w \<in> {Completed, Failed} then [] else saRequests w)"
  "saPendingPriorities (fst (HandleApplicationEventWithInfo e info w)) =
     (if next_state e w \<noteq> saState w \<and> next_state e w \<in> {Completed, Failed} then [] else saPendingPriorities w)"
  "saAskMaxPriority (fst (HandleApplicationEventWithInfo e info w)) =
     (if next_state e w \<noteq> saState w \<and> next_state e w \<in> {Completed, Failed} then MinPriority
      else saAskMaxPriority w)"
  by (simp_all add: HandleApplicationEventWithInfo_def next_state_def enterState_asks split: prod.split)

lemmas handleEvent_fields [simp] = event_fields [where info = None, folded handleEvent_def]
lemmas handleEvent_asks = event_asks [where info = None, folded handleEvent_def]

lemma next_state_cases:
  assumes "fsm_documented (saMachine w)"
  shows "next_state e w =
    (case fsm_dests eventDesc (saState w) e of [] \<Rightarrow> saState w | d # _ \<Rightarrow> d)"
  using documented_machine.handle_cases [OF application_machine [OF assms], of "saState w" e]
  by (simp add: next_state_def split: list.split)

lemma finished_stays:
  assumes "fsm_documented (saMachine w)" "finished (saState w)"
  shows "finished (next_state e w)"
  using assms(2)
  by (cases "saState w"; cases e)
    (simp_all add: next_state_cases [OF assms(1)] finished_def fsm_dests_def eventDesc_def)

lemma run_not_finished:
  assumes "fsm_documented (saMachine w)" "next_state RunApplication w \<noteq> saState w"
  shows "next_state RunApplication w \<in> {Accepted, Running}"
  using assms(2)
  by (cases "saState w") (simp_all add: next_state_cases [OF assms(1)] fsm_dests_def eventDesc_def)

end
