(* ===== verification/ApplicationSteps.thy ===== *)
theory ApplicationSteps
  imports ApplicationBooks
begin

text \<open>Every operation of an application keeps its books (theory \<open>ApplicationBooks\<close>).\<close>

section \<open>Sums over maps of addresses\<close>

lemma map_sum_cong: "(\<And>k r. (k, r) \<in> set m \<Longrightarrow> f r = g r) \<Longrightarrow> map_sum f m = map_sum g m"
proof (induction m)
  case (Cons p m)
  obtain k r where p: "p = (k, r)" by fastforce
  have "f r = g r" by (rule Cons.prems [of k]) (simp add: p)
  moreover have "map_sum f m = map_sum g m" by (rule Cons.IH) (metis Cons.prems list.set_intros(2))
  ultimately show ?case by (simp add: p)
qed simp

lemma keyed_unique:
  assumes "keyed st m" "map_of m k = Some r" "map_of m k' = Some r"
  shows "k' = k"
  using assms by (auto simp: keyed_def)

text \<open>A change of one object changes the sum by its own contribution.\<close>

lemma map_sum_change:
  assumes "keyed st m" "map_of m k = Some r" "\<And>r'. r' \<noteq> r \<Longrightarrow> f r' = g r'"
  shows "map_sum g m = map_sum f m - f r + g r"
proof -
  have wf: "wf_map m" using assms(1) by (simp add: keyed_def)
  have "map_sum f (AList.delete k m) = map_sum g (AList.delete k m)"
  proof (rule map_sum_cong)
    fix k' r' assume "(k', r') \<in> set (AList.delete k m)"
    then have "map_of m k' = Some r'" "k' \<noteq> k"
      using wf by (auto simp: AList.delete_eq map_of_wf)
    then have "r' \<noteq> r" using keyed_unique [OF assms(1,2)] by blast
    then show "f r' = g r'" by (rule assms(3))
  qed
  then show ?thesis
    using map_sum_delete [OF wf assms(2), of f] map_sum_delete [OF wf assms(2), of g] by simp
qed

lemma map_sum_unchanged:
  assumes "wf_map m" "\<And>k. map_of m k \<noteq> Some r" "\<And>r'. r' \<noteq> r \<Longrightarrow> f r' = g r'"
  shows "map_sum f m = map_sum g m"
  using assms by (intro map_sum_cong) (metis map_of_wf)

lemma keyed_update:
  "keyed st m \<Longrightarrow> keyed st (AList.update (allocationKey (st r)) r m)"
  by (auto simp: keyed_def wf_intros update_conv')

lemma keyed_delete: "keyed st m \<Longrightarrow> keyed st (AList.delete k m)"
  by (auto simp: keyed_def wf_intros delete_conv')

lemma keyed_store:
  "(\<And>r. allocationKey (st' r) = allocationKey (st r)) \<Longrightarrow> keyed st' m = keyed st m"
  by (simp add: keyed_def)

lemma keyed_Nil [simp]: "keyed st []"
  by (simp add: keyed_def)

text \<open>An object whose books fields stay the same.\<close>

definition same_books :: "alloc \<Rightarrow> alloc \<Rightarrow> bool" where
  "same_books a b \<longleftrightarrow> allocationKey a = allocationKey b \<and> allocated a = allocated b \<and>
     placeholder a = placeholder b \<and> allocRes a = allocRes b \<and> priority a = priority b"

lemma mutate_fields [simp]:
  "saMachine (mutate r f w) = saMachine w" "saState (mutate r f w) = saState w"
  "saPending (mutate r f w) = saPending w" "saRequests (mutate r f w) = saRequests w"
  "saPendingPriorities (mutate r f w) = saPendingPriorities w"
  "saAskMaxPriority (mutate r f w) = saAskMaxPriority w" "saAllocations (mutate r f w) = saAllocations w"
  "saAllocated (mutate r f w) = saAllocated w"
  "saAllocatedPlaceholder (mutate r f w) = saAllocatedPlaceholder w"
  "saSortedRequests (mutate r f w) = saSortedRequests w"
  "nodes (mutate r f w) = nodes w" "heap (mutate r f w) = heap w" "saQueue (mutate r f w) = saQueue w"
  "store (mutate r f w) = (store w)(r := f (store w r))"
  by (simp_all add: mutate_def)

lemma mutate_same:
  assumes "same_books (f (store w r)) (store w r)"
  shows "app_ok (mutate r f w) = app_ok w" "small_world (mutate r f w) = small_world w"
proof -
  let ?st = "(store w)(r := f (store w r))"
  have "ask_amount ?st = ask_amount (store w)" "alloc_amount ph ?st = alloc_amount ph (store w)"
    "ask_count ?st = ask_count (store w)" "keyed ?st = keyed (store w)" for ph
    using assms
    by (auto simp: ask_amount_def alloc_amount_def ask_count_def same_books_def fun_eq_iff keyed_def)
  then show "app_ok (mutate r f w) = app_ok w"
    by (simp add: app_ok_def asks_ok_def bound_ok_def pending_ok_def allocs_ok_def)
  show "small_world (mutate r f w) = small_world w"
    using assms by (auto simp: small_world_def same_books_def)
qed

section \<open>Events\<close>

lemma bands_ok_Nil: "bands_ok [] MinPriority c \<longleftrightarrow> (\<forall>p. c p = 0)"
  by (auto simp: bands_ok_def maxBand_def bandCount_def)

lemma event_ok:
  assumes "app_ok w"
  shows "app_ok (fst (HandleApplicationEventWithInfo e info w))"
proof -
  have doc: "fsm_documented (saMachine w)" using assms by (simp add: app_ok_def)
  show ?thesis
  proof (cases "next_state e w \<noteq> saState w \<and> next_state e w \<in> {Completed, Failed}")
    case True
    then have "finished (next_state e w)" by (auto simp: finished_def)
    with True show ?thesis
      using assms by (simp add: app_ok_def asks_ok_def event_asks bands_ok_Nil)
  next
    case False
    then have asks: "saRequests (fst (HandleApplicationEventWithInfo e info w)) = saRequests w"
      "saPendingPriorities (fst (HandleApplicationEventWithInfo e info w)) = saPendingPriorities w"
      "saAskMaxPriority (fst (HandleApplicationEventWithInfo e info w)) = saAskMaxPriority w"
      by (auto simp: event_asks)
    have "\<not> finished (next_state e w) \<Longrightarrow> \<not> finished (saState w)"
      using finished_stays [OF doc] by blast
    then show ?thesis
      using assms by (auto simp: app_ok_def asks_ok_def asks)
  qed
qed

lemma handleEvent_ok: "app_ok w \<Longrightarrow> app_ok (handleEvent e w)"
  unfolding handleEvent_def by (rule event_ok)

lemma event_small:
  "small_world (fst (HandleApplicationEventWithInfo e info w)) = small_world w"
  "small_world (handleEvent e w) = small_world w"
  by (simp_all add: small_world_def)

lemma run_view:
  assumes "fsm_documented (saMachine w)"
  shows "saRequests (handleEvent RunApplication w) = saRequests w"
    "saPendingPriorities (handleEvent RunApplication w) = saPendingPriorities w"
    "saAskMaxPriority (handleEvent RunApplication w) = saAskMaxPriority w"
  using run_not_finished [OF assms] unfolding handleEvent_asks by auto

lemma run_finished:
  "fsm_documented (saMachine w) \<Longrightarrow> \<not> finished (next_state RunApplication w) \<Longrightarrow> \<not> finished (saState w)"
  using finished_stays by blast


section \<open>Asks that leave and enter the pending set\<close>

lemma map_sum_nonneg: "(\<And>r. 0 \<le> f r) \<Longrightarrow> 0 \<le> map_sum f m"
  by (induction m) auto

lemma ask_count_nonneg: "0 \<le> ask_count st p r"
  by (simp add: ask_count_def)

lemma ask_count_pos:
  assumes "keyed st m" "map_of m k = Some r" "\<not> allocated (st r)"
  shows "0 < map_sum (ask_count st (priority (st r))) m"
proof -
  have "wf_map m" using assms(1) by (simp add: keyed_def)
  then have "map_sum (ask_count st (priority (st r))) (AList.delete k m) =
      map_sum (ask_count st (priority (st r))) m - 1"
    using assms(2,3) map_sum_delete [of m k r "ask_count st (priority (st r))"] by (simp add: ask_count_def)
  moreover have "0 \<le> map_sum (ask_count st (priority (st r))) (AList.delete k m)"
    by (rule map_sum_nonneg) (rule ask_count_nonneg)
  ultimately show ?thesis by linarith
qed

text \<open>The flag of an ask changes: the sums change by its amount and its band by one.\<close>

lemma flag_sums:
  assumes "keyed st m" "map_of m k = Some r" "allocated (st r) \<noteq> b"
  defines "st' \<equiv> st(r := (st r)\<lparr>allocated := b\<rparr>)" and "d \<equiv> (if b then - 1 else 1)"
  shows "map_sum (ask_amount st' t) m = map_sum (ask_amount st t) m + d * amount (allocRes (st r)) t"
    "(\<lambda>p. map_sum (ask_count st' p) m) =
       (\<lambda>p. map_sum (ask_count st p) m)(priority (st r) := map_sum (ask_count st (priority (st r))) m + d)"
proof -
  have eq: "map_sum (ask_amount st' t) m = map_sum (ask_amount st t) m - ask_amount st t r + ask_amount st' t r"
    by (rule map_sum_change [OF assms(1,2)]) (simp add: ask_amount_def st'_def)
  show "map_sum (ask_amount st' t) m = map_sum (ask_amount st t) m + d * amount (allocRes (st r)) t"
    using assms(3) unfolding eq by (auto simp: ask_amount_def st'_def d_def)
  have eq: "map_sum (ask_count st' p) m = map_sum (ask_count st p) m - ask_count st p r + ask_count st' p r" for p
    by (rule map_sum_change [OF assms(1,2)]) (simp add: ask_count_def st'_def)
  show "(\<lambda>p. map_sum (ask_count st' p) m) =
       (\<lambda>p. map_sum (ask_count st p) m)(priority (st r) := map_sum (ask_count st (priority (st r))) m + d)"
  proof
    fix p
    have "ask_count st' p r - ask_count st p r = (if p = priority (st r) then d else 0)"
      using assms(3) by (auto simp: ask_count_def st'_def d_def)
    then show "map_sum (ask_count st' p) m =
      ((\<lambda>p. map_sum (ask_count st p) m)(priority (st r) := map_sum (ask_count st (priority (st r))) m + d)) p"
      using eq [of p] by (simp split: if_splits)
  qed
qed

lemma flag_bound:
  "keyed (st(r := (st r)\<lparr>allocated := b\<rparr>)) m = keyed st m"
  "alloc_amount ph (st(r := (st r)\<lparr>allocated := b\<rparr>)) = alloc_amount ph st"
  by (auto simp: keyed_def alloc_amount_def fun_eq_iff)

lemma allocateAsk_fields:
  assumes "\<not> allocated (store w r)"
  defines "w' \<equiv> fst (allocateAsk r w)"
  shows "store w' = (store w)(r := (store w r)\<lparr>allocated := True\<rparr>)"
    "saPending w' = Prune (Sub (saPending w) (resource_of w r))"
    "saPendingPriorities w' = saPendingPriorities (removeFromPriorities (priority (store w r)) w)"
    "saAskMaxPriority w' = saAskMaxPriority (removeFromPriorities (priority (store w r)) w)"
    "saMachine w' = saMachine w" "saState w' = saState w" "saRequests w' = saRequests w"
    "saAllocations w' = saAllocations w" "saAllocated w' = saAllocated w"
    "saAllocatedPlaceholder w' = saAllocatedPlaceholder w" "saSortedRequests w' = saSortedRequests w"
    "nodes w' = nodes w"
  using assms
  by (simp_all add: allocateAsk_def allocate_def Let_def removeFromPriorities_def setAskMaxPriority_def mutate_def)

lemma deallocateAsk_fields:
  assumes "allocated (store w r)" "map_of (saRequests w) (allocationKey (store w r)) = Some r"
  defines "w' \<equiv> fst (deallocateAsk r w)"
  shows "store w' = (store w)(r := (store w r)\<lparr>allocated := False\<rparr>)"
    "saPending w' = Add (saPending w) (resource_of w r)"
    "saPendingPriorities w' = saPendingPriorities (addToPriorities (priority (store w r)) w)"
    "saAskMaxPriority w' = saAskMaxPriority (addToPriorities (priority (store w r)) w)"
    "saMachine w' = saMachine w" "saState w' = saState w" "saRequests w' = saRequests w"
    "saAllocations w' = saAllocations w" "saAllocated w' = saAllocated w"
    "saAllocatedPlaceholder w' = saAllocatedPlaceholder w" "saSortedRequests w' = saSortedRequests w"
    "nodes w' = nodes w"
  using assms
  by (simp_all add: deallocateAsk_def deallocate_def Let_def addToPriorities_def setAskMaxPriority_def mutate_def)

lemma allocateAsk_ok:
  assumes "app_ok w" "small_world w" "map_of (saRequests w) k = Some r"
  shows "app_ok (fst (allocateAsk r w))"
proof (cases "allocated (store w r)")
  case True
  then show ?thesis using assms(1) by (simp add: allocateAsk_def)
next
  case False
  note f = allocateAsk_fields [OF False]
  have ok: "keyed (store w) (saRequests w)"
    "\<not> finished (saState w) \<Longrightarrow> pending_ok (store w) (saRequests w) (saPending w)"
    "bands_ok (saPendingPriorities w) (saAskMaxPriority w) (\<lambda>p. map_sum (ask_count (store w) p) (saRequests w))"
    using assms(1) by (simp_all add: app_ok_def asks_ok_def)
  have small: "small (saPending w)" "small (resource_of w r)" using assms(2) by (simp_all add: small_world_def)
  have "allocated (store w r) \<noteq> True" using False by simp
  note sums = flag_sums [OF ok(1) assms(3) this, simplified]
  have "wf_res (Sub (saPending w) (resource_of w r))" using small by (simp add: smallD wf_intros)
  then have "pending_ok (store (fst (allocateAsk r w))) (saRequests w) (saPending (fst (allocateAsk r w)))"
    if "\<not> finished (saState w)"
    using ok(2) [OF that] small by (simp add: pending_ok_def f sums amount_simps small_ops)
  then show ?thesis
    using assms(1) removeFromPriorities_bands [OF ok(3) ask_count_pos [OF ok(1) assms(3) False]]
    by (simp add: app_ok_def asks_ok_def bound_ok_def allocs_ok_def f flag_bound sums)
qed

lemma deallocateAsk_ok:
  assumes "app_ok w" "small_world w" "map_of (saRequests w) k = Some r"
  shows "app_ok (fst (deallocateAsk r w))"
proof (cases "allocated (store w r)")
  case False
  then show ?thesis using assms(1) by (simp add: deallocateAsk_def)
next
  case True
  have ok: "keyed (store w) (saRequests w)"
    "\<not> finished (saState w) \<Longrightarrow> pending_ok (store w) (saRequests w) (saPending w)"
    "bands_ok (saPendingPriorities w) (saAskMaxPriority w) (\<lambda>p. map_sum (ask_count (store w) p) (saRequests w))"
    using assms(1) by (simp_all add: app_ok_def asks_ok_def)
  have key: "map_of (saRequests w) (allocationKey (store w r)) = Some r"
    using ok(1) assms(3) by (auto simp: keyed_def)
  note f = deallocateAsk_fields [OF True key]
  have small: "small (saPending w)" "small (resource_of w r)" using assms(2) by (simp_all add: small_world_def)
  have "allocated (store w r) \<noteq> False" using True by simp
  note sums = flag_sums [OF ok(1) assms(3) this, simplified]
  have "pending_ok (store (fst (deallocateAsk r w))) (saRequests w) (saPending (fst (deallocateAsk r w)))"
    if "\<not> finished (saState w)"
    using ok(2) [OF that] small by (simp add: pending_ok_def f sums small_ops)
  then show ?thesis
    using assms(1) addToPriorities_bands [OF ok(3), of "priority (store w r)"]
    by (simp add: app_ok_def asks_ok_def bound_ok_def allocs_ok_def f flag_bound sums)
qed


section \<open>Adding asks\<close>

lemma Add_exact:
  assumes "small a" "wf_res d" "\<bar>amount d k\<bar> \<le> 2 ^ 60"
  shows "amount (Add a d) k = amount a k + amount d k"
proof -
  have "\<bar>amount a k + amount d k\<bar> \<le> 2 ^ 62" using smallD(2) [OF assms(1), of k] assms(3) by simp
  then show ?thesis using assms(1,2) by (simp add: amount_simps smallD sat64_small)
qed

lemma map_sum_update_delete:
  "wf_map m \<Longrightarrow> map_sum f (AList.update k v m) = map_sum f (AList.delete k m) + f v"
  by (cases "map_of m k")
    (simp_all add: map_sum_update_new map_sum_update map_sum_delete delete_absent)

lemma bands_drop:
  assumes "keyed st m" "map_of m k = Some old"
    and "bands_ok (saPendingPriorities w) (saAskMaxPriority w) (\<lambda>p. map_sum (ask_count st p) m)"
  defines "w' \<equiv> (if allocated (st old) then w else removeFromPriorities (priority (st old)) w)"
  shows "bands_ok (saPendingPriorities w') (saAskMaxPriority w')
    (\<lambda>p. map_sum (ask_count st p) (AList.delete k m))"
proof -
  have wf: "wf_map m" using assms(1) by (simp add: keyed_def)
  have del: "map_sum (ask_count st p) (AList.delete k m) = map_sum (ask_count st p) m - ask_count st p old" for p
    by (rule map_sum_delete [OF wf assms(2)])
  show ?thesis
  proof (cases "allocated (st old)")
    case True
    then show ?thesis using assms(3) by (simp add: w'_def del ask_count_def)
  next
    case False
    have "(\<lambda>p. map_sum (ask_count st p) (AList.delete k m)) =
      (\<lambda>p. map_sum (ask_count st p) m)(priority (st old) := map_sum (ask_count st (priority (st old))) m - 1)"
      using False by (auto simp: fun_eq_iff del ask_count_def)
    then show ?thesis
      using False removeFromPriorities_bands [OF assms(3) ask_count_pos [OF assms(1,2) False]]
      by (simp add: w'_def)
  qed
qed

lemma bands_add:
  assumes "wf_map m" "\<not> allocated (st r)"
    and "bands_ok (saPendingPriorities w) (saAskMaxPriority w)
      (\<lambda>p. map_sum (ask_count st p) (AList.delete k m))"
  defines "w' \<equiv> addToPriorities (priority (st r)) w"
  shows "bands_ok (saPendingPriorities w') (saAskMaxPriority w')
    (\<lambda>p. map_sum (ask_count st p) (AList.update k r m))"
proof -
  let ?c = "\<lambda>p. map_sum (ask_count st p) (AList.delete k m)"
  have "(\<lambda>p. map_sum (ask_count st p) (AList.update k r m)) =
      ?c(priority (st r) := ?c (priority (st r)) + 1)"
    using assms(2) by (auto simp: fun_eq_iff map_sum_update_delete [OF assms(1)] ask_count_def)
  then show ?thesis using addToPriorities_bands [OF assms(3), of "priority (st r)"] by (simp add: w'_def)
qed

lemma addAllocationAskInternal_fields [simp]:
  "store (addAllocationAskInternal r w) = store w" "saMachine (addAllocationAskInternal r w) = saMachine w"
  "saState (addAllocationAskInternal r w) = saState w"
  "saPending (addAllocationAskInternal r w) = saPending w"
  "saRequests (addAllocationAskInternal r w) = AList.update (allocationKey (store w r)) r (saRequests w)"
  "saAllocations (addAllocationAskInternal r w) = saAllocations w"
  "saAllocated (addAllocationAskInternal r w) = saAllocated w"
  "saAllocatedPlaceholder (addAllocationAskInternal r w) = saAllocatedPlaceholder w"
  by (simp_all add: addAllocationAskInternal_def Let_def)

lemma addAllocationAskInternal_bands:
  "\<not> allocated (store w r) \<Longrightarrow>
     saPendingPriorities (addAllocationAskInternal r w) =
       saPendingPriorities (addToPriorities (priority (store w r)) w) \<and>
     saAskMaxPriority (addAllocationAskInternal r w) =
       saAskMaxPriority (addToPriorities (priority (store w r)) w)"
  "allocated (store w r) \<Longrightarrow>
     saPendingPriorities (addAllocationAskInternal r w) = saPendingPriorities w \<and>
     saAskMaxPriority (addAllocationAskInternal r w) = saAskMaxPriority w"
  by (simp_all add: addAllocationAskInternal_def Let_def addToPriorities_def setAskMaxPriority_def)

text \<open>The old ask with the same key, and the books without it.\<close>

definition old_resource :: "nat \<Rightarrow> world \<Rightarrow> resource option" where
  "old_resource r w =
     (case map_of (saRequests w) (allocationKey (store w r)) of
        Some old \<Rightarrow> if allocated (store w old) then None else Clone (resource_of w old)
      | None \<Rightarrow> None)"

definition drop_old :: "nat \<Rightarrow> world \<Rightarrow> world" where
  "drop_old r w =
     (case map_of (saRequests w) (allocationKey (store w r)) of
        Some old \<Rightarrow> if allocated (store w old) then w else removeFromPriorities (priority (store w old)) w
      | None \<Rightarrow> w)"

lemma drop_old_fields [simp]:
  "store (drop_old r w) = store w" "saMachine (drop_old r w) = saMachine w"
  "saState (drop_old r w) = saState w" "saPending (drop_old r w) = saPending w"
  "saRequests (drop_old r w) = saRequests w" "saAllocations (drop_old r w) = saAllocations w"
  "saAllocated (drop_old r w) = saAllocated w"
  "saAllocatedPlaceholder (drop_old r w) = saAllocatedPlaceholder w"
  by (simp_all add: drop_old_def split: option.split)

lemma drop_old_bands:
  assumes "keyed (store w) (saRequests w)"
    and "bands_ok (saPendingPriorities w) (saAskMaxPriority w) (\<lambda>p. map_sum (ask_count (store w) p) (saRequests w))"
  shows "bands_ok (saPendingPriorities (drop_old r w)) (saAskMaxPriority (drop_old r w))
    (\<lambda>p. map_sum (ask_count (store w) p) (AList.delete (allocationKey (store w r)) (saRequests w)))"
proof (cases "map_of (saRequests w) (allocationKey (store w r))")
  case None
  then show ?thesis using assms(2) by (simp add: drop_old_def delete_absent)
next
  case (Some old)
  then show ?thesis using bands_drop [OF assms(1) Some assms(2)] by (simp add: drop_old_def)
qed

lemma old_amount:
  assumes "wf_map (saRequests w)" "\<forall>r. small (resource_of w r)"
  shows "small (old_resource r w) \<and>
    map_sum (ask_amount (store w) k) (AList.delete (allocationKey (store w r)) (saRequests w)) =
      map_sum (ask_amount (store w) k) (saRequests w) - amount (old_resource r w) k"
proof (cases "map_of (saRequests w) (allocationKey (store w r))")
  case None
  then show ?thesis by (simp add: old_resource_def delete_absent small_def)
next
  case (Some old)
  have "Clone (resource_of w old) = resource_of w old" using assms(2) by (intro Clone_id) (simp add: smallD)
  then show ?thesis
    using assms Some by (simp add: old_resource_def map_sum_delete ask_amount_def small_def)
qed


lemma AddAllocationAsk_eq:
  assumes "\<not> allocated (store w r)" "\<not> IsZero (resource_of w r)"
  obtains w1 where "book_view w1 = book_view w"
    "book_view (fst (AddAllocationAsk (Some r) w)) =
       book_view ((addAllocationAskInternal r
         (if saState w = New \<or> saState w = Completing then handleEvent RunApplication (drop_old r w1)
          else drop_old r w1))
         \<lparr>saPending := Prune (Add (saPending w) (SubFrom (Clone (resource_of w r)) (old_resource r w)))\<rparr>)"
proof -
  define w1 where w1: "w1 = (if createTime (store w r) < saSubmissionTime w
    then w\<lparr>saSubmissionTime := createTime (store w r)\<rparr> else w)"
  have v: "book_view w1 = book_view w" by (simp add: w1)
  note d = viewD [OF v]
  have pair: "(case map_of (saRequests w1) (allocationKey (store w r)) of
        Some old \<Rightarrow>
          if \<not> allocated (store w1 old)
          then (Clone (resource_of w1 old), removeFromPriorities (priority (store w1 old)) w1)
          else (None, w1)
      | None \<Rightarrow> (None, w1)) = (old_resource r w, drop_old r w1)"
    by (simp add: old_resource_def drop_old_def d split: option.split)
  define w3 where w3: "w3 = (if saState (drop_old r w1) = New \<or> saState (drop_old r w1) = Completing
    then handleEvent RunApplication (drop_old r w1) else drop_old r w1)"
  have "fst (AddAllocationAsk (Some r) w) = insert_request r
      ((addAllocationAskInternal r w3)
        \<lparr>saPending := Prune (Add (saPending (addAllocationAskInternal r w3))
            (SubFrom (Clone (resource_of w r)) (old_resource r w))),
         heap := incPendingResource
           (heap ((addAllocationAskInternal r w3)
              \<lparr>saPending := Prune (Add (saPending (addAllocationAskInternal r w3))
                (SubFrom (Clone (resource_of w r)) (old_resource r w)))\<rparr>))
           (saQueue ((addAllocationAskInternal r w3)
              \<lparr>saPending := Prune (Add (saPending (addAllocationAskInternal r w3))
                (SubFrom (Clone (resource_of w r)) (old_resource r w)))\<rparr>))
           (SubFrom (Clone (resource_of w r)) (old_resource r w))\<rparr>)"
    unfolding AddAllocationAsk_def option.case Let_def w1 [symmetric]
    using assms by (simp only: pair if_False simp_thms prod.case w3 [symmetric] fst_conv)
  then show ?thesis
    by (intro that [OF v]) (simp add: w3 d)
qed

lemma AddAllocationAsk_ok:
  assumes "app_ok w" "small_world w"
  shows "app_ok (fst (AddAllocationAsk (Some r) w))"
proof (cases "allocated (store w r) \<or> IsZero (resource_of w r)")
  case True
  then show ?thesis using assms(1) by (simp add: AddAllocationAsk_def Let_def)
next
  case False
  let ?key = "allocationKey (store w r)"
  obtain w1 where w1: "book_view w1 = book_view w"
    "book_view (fst (AddAllocationAsk (Some r) w)) =
       book_view ((addAllocationAskInternal r
         (if saState w = New \<or> saState w = Completing then handleEvent RunApplication (drop_old r w1)
          else drop_old r w1))
         \<lparr>saPending := Prune (Add (saPending w) (SubFrom (Clone (resource_of w r)) (old_resource r w)))\<rparr>)"
    using False by (elim AddAllocationAsk_eq [of w r, rotated -1]) auto
  note d = viewD [OF w1(1)]
  define w3 where w3: "w3 = (if saState w = New \<or> saState w = Completing
    then handleEvent RunApplication (drop_old r w1) else drop_old r w1)"
  have doc: "fsm_documented (saMachine w)" using assms(1) by (simp add: app_ok_def)
  have ok: "keyed (store w) (saRequests w)"
    "\<not> finished (saState w) \<Longrightarrow> pending_ok (store w) (saRequests w) (saPending w)"
    "bands_ok (saPendingPriorities w) (saAskMaxPriority w) (\<lambda>p. map_sum (ask_count (store w) p) (saRequests w))"
    "bound_ok (store w) (saAllocations w) (saAllocated w) (saAllocatedPlaceholder w)"
    using assms(1) by (simp_all add: app_ok_def asks_ok_def)
  have w3f: "store w3 = store w" "saMachine w3 = saMachine w" "saRequests w3 = saRequests w"
    "saAllocations w3 = saAllocations w" "saAllocated w3 = saAllocated w"
    "saAllocatedPlaceholder w3 = saAllocatedPlaceholder w"
    "saPendingPriorities w3 = saPendingPriorities (drop_old r w1)"
    "saAskMaxPriority w3 = saAskMaxPriority (drop_old r w1)"
    using doc by (auto simp: w3 d run_view)
  have w3s: "\<not> finished (saState w3) \<Longrightarrow> \<not> finished (saState w)"
    using doc finished_stays [of "drop_old r w1" RunApplication] by (auto simp: w3 d split: if_splits)
  have "bands_ok (saPendingPriorities w3) (saAskMaxPriority w3)
      (\<lambda>p. map_sum (ask_count (store w) p) (AList.delete ?key (saRequests w)))"
    using drop_old_bands [of w1 r] ok(1,3) by (simp add: w3f d)
  then have bands: "bands_ok (saPendingPriorities (addAllocationAskInternal r w3))
      (saAskMaxPriority (addAllocationAskInternal r w3))
      (\<lambda>p. map_sum (ask_count (store w) p) (AList.update ?key r (saRequests w)))"
    using bands_add [of "saRequests w" "store w" r w3 ?key] addAllocationAskInternal_bands(1) [of w3 r] False ok(1)
    by (simp add: w3f keyed_def)
  define delta where delta: "delta = SubFrom (Clone (resource_of w r)) (old_resource r w)"
  have wf: "wf_map (saRequests w)" using ok(1) by (simp add: keyed_def)
  have sm: "\<forall>r. small (resource_of w r)" "small (saPending w)" using assms(2) by (simp_all add: small_world_def)
  note old = old_amount [OF wf sm(1), of r]
  have ne: "resource_of w r \<noteq> None" using False by (auto simp: IsZero_def split: option.splits)
  have da: "amount delta k = amount (resource_of w r) k - amount (old_resource r w) k" for k
    using sm(1) old ne by (simp add: delta Clone_id smallD small_ops)
  have wfd: "wf_res delta" using sm(1) by (simp add: delta Clone_id smallD wf_intros)
  have "\<bar>amount delta k\<bar> \<le> 2 ^ 60" for k
    using smallD(2) [of "resource_of w r" k] smallD(2) [of "old_resource r w" k] sm(1) old by (simp add: da)
  then have "amount (Prune (Add (saPending w) delta)) k = amount (saPending w) k + amount delta k" for k
    using Add_exact [OF sm(2) wfd, of k] by (simp add: amount_simps wf_intros)
  then have pend: "pending_ok (store w) (AList.update ?key r (saRequests w)) (Prune (Add (saPending w) delta))"
    if "\<not> finished (saState w)"
    using ok(2) [OF that] False old
    by (simp add: pending_ok_def map_sum_update_delete [OF wf] da ask_amount_def)
  have "app_ok ((addAllocationAskInternal r w3)\<lparr>saPending := Prune (Add (saPending w) delta)\<rparr>)"
    using doc ok(4) bands pend keyed_update [OF ok(1), of r]
    by (auto simp: app_ok_def asks_ok_def w3f dest: w3s)
  then show ?thesis
    using book_view_cong(1) [OF w1(2)] by (simp add: w3 delta)
qed

lemma RecoverAllocationAsk_ok:
  assumes "app_ok w" "allocated (store w r)" "map_of (saRequests w) (allocationKey (store w r)) = None"
  shows "app_ok (RecoverAllocationAsk (Some r) w)"
proof -
  have "map_sum (ask_count (store w) p) (AList.update (allocationKey (store w r)) r (saRequests w)) =
      map_sum (ask_count (store w) p) (saRequests w)"
    "map_sum (ask_amount (store w) k) (AList.update (allocationKey (store w r)) r (saRequests w)) =
      map_sum (ask_amount (store w) k) (saRequests w)" for p k
    using assms(2,3) by (simp_all add: map_sum_update_new ask_count_def ask_amount_def)
  then have "app_ok (addAllocationAskInternal r w)"
    using assms(1,2) keyed_update [of "store w" "saRequests w" r]
    by (simp add: app_ok_def asks_ok_def pending_ok_def addAllocationAskInternal_bands)
  then show ?thesis by (simp add: RecoverAllocationAsk_def Let_def handleEvent_ok)
qed


section \<open>Removing asks\<close>

lemma unReserveAll_view [simp]: "book_view (fst (unReserveAll rs w)) = book_view w"
proof -
  have "book_view (fst (fold (\<lambda>reserve (w, t). case unReserveInternal reserve w of (w, num) \<Rightarrow> (w, t + num)) rs p)) =
      book_view (fst p)" for p :: "world \<times> int"
  proof (induction rs arbitrary: p)
    case (Cons reserve rs)
    have "book_view (fst (case unReserveInternal reserve (fst p) of (w, num) \<Rightarrow> (w, snd p + num))) = book_view (fst p)"
      by (simp add: case_prod_beta)
    with Cons show ?case by (simp add: case_prod_beta)
  qed simp
  then show ?thesis by (simp add: unReserveAll_def)
qed

lemma amount_NewResource: "amount (Some NewResource) k = 0"
  by (simp add: amount_def NewResource_def map_get_def)

lemma removeAllAsks_ok:
  assumes "app_ok w"
  shows "app_ok (fst (removeAllAsks w))"
proof -
  obtain w1 t where w1: "unReserveAll (map snd (saReservations w)) w = (w1, t)" by fastforce
  have v: "book_view w1 = book_view w" using unReserveAll_view [of "map snd (saReservations w)" w] w1 by simp
  show ?thesis
    using assms
    by (simp add: removeAllAsks_def w1 Let_def app_ok_def asks_ok_def pending_ok_def viewD [OF v] bands_ok_Nil amount_NewResource)
qed

lemma removeOneAsk_ok:
  assumes "app_ok w" "small_world w"
  shows "app_ok (fst (removeOneAsk key w))"
proof -
  obtain w1 t where w1: "(case map_of (saReservations w) key of
              Some reserve \<Rightarrow>
                (case unReserveInternal reserve w of (w, releases) \<Rightarrow> (queue_UnReserve releases w, releases))
            | None \<Rightarrow> (w, 0)) = (w1, t)" by fastforce
  have v: "book_view w1 = book_view w"
    using arg_cong [OF w1, of "book_view \<circ> fst"] by (simp add: case_prod_beta split: option.splits)
  note d = viewD [OF v]
  have ok1: "app_ok w1" using assms(1) book_view_cong(1) [OF v] by simp
  show ?thesis
  proof (cases "map_of (saRequests w) key")
    case None
    then show ?thesis using ok1 by (simp add: removeOneAsk_def w1 d)
  next
    case (Some r)
    define w2 where w2: "w2 = (if \<not> allocated (store w r)
      then removeFromPriorities (priority (store w r)) (w1\<lparr>saPending := Prune (Sub (saPending w) (resource_of w r))\<rparr>)
      else w1)"
    have eq: "book_view (fst (removeOneAsk key w)) = book_view (w2\<lparr>saRequests := AList.delete key (saRequests w2)\<rparr>)"
      using Some by (simp add: removeOneAsk_def w1 d w2 Let_def)
    have ok: "keyed (store w) (saRequests w)"
      "\<not> finished (saState w) \<Longrightarrow> pending_ok (store w) (saRequests w) (saPending w)"
      "bands_ok (saPendingPriorities w) (saAskMaxPriority w) (\<lambda>p. map_sum (ask_count (store w) p) (saRequests w))"
      using assms(1) by (simp_all add: app_ok_def asks_ok_def)
    have small: "small (saPending w)" "small (resource_of w r)" using assms(2) by (simp_all add: small_world_def)
    have f: "store w2 = store w" "saMachine w2 = saMachine w" "saState w2 = saState w" "saRequests w2 = saRequests w"
      "saAllocations w2 = saAllocations w" "saAllocated w2 = saAllocated w"
      "saAllocatedPlaceholder w2 = saAllocatedPlaceholder w"
      "saPending w2 = (if \<not> allocated (store w r) then Prune (Sub (saPending w) (resource_of w r)) else saPending w)"
      by (simp_all add: w2 d)
    have bands: "bands_ok (saPendingPriorities w2) (saAskMaxPriority w2)
        (\<lambda>p. map_sum (ask_count (store w) p) (AList.delete key (saRequests w)))"
      using bands_drop [OF ok(1) Some, of "w1\<lparr>saPending := Prune (Sub (saPending w) (resource_of w r))\<rparr>"] ok(3)
      by (auto simp: w2 d)
    have wf: "wf_map (saRequests w)" using ok(1) by (simp add: keyed_def)
    have "wf_res (Sub (saPending w) (resource_of w r))" using small by (simp add: smallD wf_intros)
    then have "pending_ok (store w) (AList.delete key (saRequests w)) (saPending w2)" if "\<not> finished (saState w)"
      using ok(2) [OF that] small
      by (simp add: pending_ok_def f map_sum_delete [OF wf Some] ask_amount_def amount_simps small_ops)
    then have "app_ok (w2\<lparr>saRequests := AList.delete key (saRequests w2)\<rparr>)"
      using assms(1) bands keyed_delete [OF ok(1), of key] by (simp add: app_ok_def asks_ok_def f)
    then show ?thesis using book_view_cong(1) [OF eq] by simp
  qed
qed

lemma removeAsksInternal_ok:
  assumes "app_ok w" "key \<noteq> [] \<longrightarrow> small_world w"
  shows "app_ok (fst (removeAsksInternal key w))"
proof -
  define w1 where w1: "w1 = fst (if key = [] then removeAllAsks w else removeOneAsk key w)"
  define w2 where w2: "w2 = w1\<lparr>heap := decPendingResource (heap w1) (saQueue w1)
    (fst (snd (if key = [] then removeAllAsks w else removeOneAsk key w)))\<rparr>"
  have "app_ok w1" using assms removeAllAsks_ok removeOneAsk_ok by (simp add: w1)
  then have ok2: "app_ok w2" using book_view_cong(1) [of w2 w1] by (simp add: w2)
  have "fst (removeAsksInternal key w) = w \<or> fst (removeAsksInternal key w) = w2 \<or>
      fst (removeAsksInternal key w) = handleEvent CompleteApplication w2"
    unfolding removeAsksInternal_def case_prod_beta Let_def w1 [symmetric] w2 [symmetric] by auto
  then show ?thesis using assms(1) ok2 handleEvent_ok [OF ok2] by auto
qed


section \<open>Allocations\<close>

lemma addAllocation_fields:
  fixes t r
  assumes "fsm_documented (saMachine w)"
  defines "w' \<equiv> addAllocationInternal_app t r w"
  shows "store w' = store w" "saMachine w' = saMachine w" "saPending w' = saPending w"
    "saRequests w' = saRequests w" "saPendingPriorities w' = saPendingPriorities w"
    "saAskMaxPriority w' = saAskMaxPriority w"
    "saAllocations w' = AList.update (allocationKey (store w r)) r (saAllocations w)"
    "saAllocated w' = (if placeholder (store w r) then saAllocated w else Add (saAllocated w) (resource_of w r))"
    "saAllocatedPlaceholder w' = (if placeholder (store w r)
       then Add (saAllocatedPlaceholder w) (resource_of w r) else saAllocatedPlaceholder w)"
  using assms(1) by (simp_all add: w'_def addAllocationInternal_app_def Let_def run_view)

lemma addAllocation_finished:
  assumes "fsm_documented (saMachine w)" "\<not> finished (saState (addAllocationInternal_app t r w))"
  shows "\<not> finished (saState w)"
proof -
  obtain w1 where w1: "saState w1 = saState w" "saMachine w1 = saMachine w"
    "saState (addAllocationInternal_app t r w) = saState w \<or>
     saState (addAllocationInternal_app t r w) = next_state RunApplication w1"
    by (cases "placeholder (store w r)")
      (auto simp: addAllocationInternal_app_def Let_def next_state_def)
  then show ?thesis using assms finished_stays [of w1 RunApplication] by auto
qed

lemma bound_add:
  assumes "bound_ok st allocs res phs" "small (if placeholder (st r) then phs else res)" "small (allocRes (st r))"
    and "map_of allocs (allocationKey (st r)) = None"
  shows "bound_ok st (AList.update (allocationKey (st r)) r allocs)
    (if placeholder (st r) then res else Add res (allocRes (st r)))
    (if placeholder (st r) then Add phs (allocRes (st r)) else phs)"
  using assms keyed_update [of st allocs r]
  by (simp add: bound_ok_def allocs_ok_def map_sum_update_new alloc_amount_def small_ops split: if_splits)

lemma bound_remove:
  assumes "bound_ok st allocs res phs" "small res" "small phs" "small (allocRes (st r))"
    and "map_of allocs key = Some r"
  shows "bound_ok st (AList.delete key allocs)
    (if placeholder (st r) then res else Prune (Sub res (allocRes (st r))))
    (if placeholder (st r) then Prune (Sub phs (allocRes (st r))) else phs)"
proof -
  have wf: "wf_map allocs" using assms(1) by (simp add: bound_ok_def keyed_def)
  have "wf_res (Sub res (allocRes (st r)))" "wf_res (Sub phs (allocRes (st r)))"
    using assms by (simp_all add: smallD wf_intros)
  then show ?thesis
    using assms(1-4) keyed_delete [of st allocs key]
    by (simp add: bound_ok_def allocs_ok_def map_sum_delete [OF wf assms(5)] alloc_amount_def small_ops amount_simps)
qed

lemma small_worldD:
  assumes "small_world w"
  shows "small (saPending w)" "small (saAllocated w)" "small (saAllocatedPlaceholder w)" "small (resource_of w r)"
  using assms by (simp_all add: small_world_def)

lemma addAllocation_ok:
  assumes "app_ok w" "small (if placeholder (store w r) then saAllocatedPlaceholder w else saAllocated w)"
    and "small (resource_of w r)" "map_of (saAllocations w) (allocationKey (store w r)) = None"
  shows "app_ok (addAllocationInternal_app t r w)"
proof -
  have doc: "fsm_documented (saMachine w)" using assms(1) by (simp add: app_ok_def)
  note f = addAllocation_fields [OF doc, of t r] and fin = addAllocation_finished [OF doc, of t r]
  have "bound_ok (store w) (saAllocations w) (saAllocated w) (saAllocatedPlaceholder w)"
    using assms(1) by (simp add: app_ok_def)
  note bound = bound_add [OF this assms(2-4)]
  show ?thesis
    using assms(1) bound fin by (auto simp: app_ok_def asks_ok_def f)
qed

lemma remove_one_fields:
  assumes "(if placeholder (store w r) then removePlaceholder r t w else removeReal r w) = (w', event)"
  shows "store w' = store w" "saMachine w' = saMachine w" "saState w' = saState w" "saPending w' = saPending w"
    "saRequests w' = saRequests w" "saPendingPriorities w' = saPendingPriorities w"
    "saAskMaxPriority w' = saAskMaxPriority w" "saAllocations w' = saAllocations w"
    "saAllocated w' = (if placeholder (store w r) then saAllocated w
       else Prune (Sub (saAllocated w) (resource_of w r)))"
    "saAllocatedPlaceholder w' = (if placeholder (store w r)
       then Prune (Sub (saAllocatedPlaceholder w) (resource_of w r)) else saAllocatedPlaceholder w)"
  using assms
  by (auto simp: removePlaceholder_def removeReal_def Let_def case_prod_beta split: if_splits)

lemma app_ok_event_delete:
  assumes "app_ok (w\<lparr>saAllocations := m\<rparr>)"
  shows "app_ok ((handleEvent e w)\<lparr>saAllocations := m\<rparr>)"
proof -
  have "next_state e (w\<lparr>saAllocations := m\<rparr>) = next_state e w" by (simp add: next_state_def)
  then have "book_view ((handleEvent e w)\<lparr>saAllocations := m\<rparr>) = book_view (handleEvent e (w\<lparr>saAllocations := m\<rparr>))"
    by (auto simp: book_view_def handleEvent_asks)
  then show ?thesis using book_view_cong(1) handleEvent_ok [OF assms] by metis
qed

lemma removeAllocationInternal_ok:
  assumes "app_ok w" "small_world w"
  shows "app_ok (fst (removeAllocationInternal key t w))"
proof (cases "map_of (saAllocations w) key")
  case None
  then show ?thesis using assms(1) by (simp add: removeAllocationInternal_def)
next
  case (Some r)
  obtain w1 event where w1:
    "(if placeholder (store w r) then removePlaceholder r t w else removeReal r w) = (w1, event)" by fastforce
  note f = remove_one_fields [OF w1]
  have "bound_ok (store w) (saAllocations w) (saAllocated w) (saAllocatedPlaceholder w)"
    using assms(1) by (simp add: app_ok_def)
  note bound = bound_remove [OF this small_worldD(2,3,4) [OF assms(2)] Some]
  have "app_ok (w1\<lparr>saAllocations := AList.delete key (saAllocations w)\<rparr>)"
    using assms(1) bound by (simp add: app_ok_def f)
  then have "app_ok ((case event of Some e \<Rightarrow> handleEvent e w1 | None \<Rightarrow> w1)
      \<lparr>saAllocations := AList.delete key (saAllocations w)\<rparr>)"
    by (cases event) (simp_all add: app_ok_event_delete)
  moreover have "saAllocations (case event of Some e \<Rightarrow> handleEvent e w1 | None \<Rightarrow> w1) = saAllocations w"
    by (simp add: f split: option.split)
  ultimately show ?thesis
    by (simp add: removeAllocationInternal_def Some w1 Let_def)
qed


lemma same_booksI:
  "same_books (a\<lparr>placeholderUsed := True, placeholderCreateTime := t, bindTime := t'\<rparr>) a"
  "same_books (ClearRelease a) a" "same_books (SetRelease a r) a" "same_books (a\<lparr>allocNodeID := n\<rparr>) a"
  "same_books (a\<lparr>bindTime := t', allocNodeID := n\<rparr>) a"
  "same_books (LogAllocationFailure now a msg b) a" "same_books (fst (SetReleased a b)) a"
  by (simp_all add: same_books_def ClearRelease_def SetRelease_def LogAllocationFailure_def SetReleased_def Let_def)

lemma removeAllocationInternal_fields:
  fixes t
  assumes "map_of (saAllocations w) key = Some r"
  defines "w' \<equiv> fst (removeAllocationInternal key t w)"
  shows "snd (removeAllocationInternal key t w) = Some r" "store w' = store w"
    "saAllocations w' = AList.delete key (saAllocations w)"
    "saAllocated w' = (if placeholder (store w r) then saAllocated w
       else Prune (Sub (saAllocated w) (resource_of w r)))"
proof -
  obtain w1 event where w1:
    "(if placeholder (store w r) then removePlaceholder r t w else removeReal r w) = (w1, event)" by fastforce
  note f = remove_one_fields [OF w1]
  show "snd (removeAllocationInternal key t w) = Some r" "store w' = store w"
    "saAllocations w' = AList.delete key (saAllocations w)"
    "saAllocated w' = (if placeholder (store w r) then saAllocated w
       else Prune (Sub (saAllocated w) (resource_of w r)))"
    using assms(1) by (simp_all add: w'_def removeAllocationInternal_def w1 Let_def f split: option.split)
qed

text \<open>A placeholder is replaced by a real allocation that is not yet in the books.\<close>

lemma app_ReplaceAllocation_ok:
  assumes "app_ok w" "small_world w"
    and "\<And>ph r. map_of (saAllocations w) key = Some ph \<Longrightarrow> release (store w ph) = Some r \<Longrightarrow>
      placeholder (store w ph) \<and> \<not> placeholder (store w r) \<and>
      map_of (saAllocations w) (allocationKey (store w r)) = None"
  shows "app_ok (fst (app_ReplaceAllocation key w))"
proof -
  obtain w1 res where w1: "removeAllocationInternal key PlaceholderReplaced w = (w1, res)" by fastforce
  have ok1: "app_ok w1" using removeAllocationInternal_ok [OF assms(1,2), of key PlaceholderReplaced] w1 by simp
  consider "fst (app_ReplaceAllocation key w) = w1" | ph r where "res = Some ph" "release (store w1 ph) = Some r"
    by (cases res; cases "release (store w1 (the res))") (simp_all add: app_ReplaceAllocation_def w1)
  then show ?thesis
  proof cases
    case 2
    then obtain r' where "map_of (saAllocations w) key = Some r'"
      using w1 by (cases "map_of (saAllocations w) key") (auto simp: removeAllocationInternal_def)
    with removeAllocationInternal_fields [OF this, of PlaceholderReplaced] have key: "map_of (saAllocations w) key = Some ph"
      using w1 2(1) by simp
    note f = removeAllocationInternal_fields [OF key, of PlaceholderReplaced, unfolded w1, simplified]
    have ph: "placeholder (store w ph)" "\<not> placeholder (store w r)"
      "map_of (saAllocations w) (allocationKey (store w r)) = None"
      using assms(3) [OF key] 2(2) f(2) by simp_all
    define w2 where w2: "w2 = mutate r (\<lambda>a. a\<lparr>placeholderUsed := True,
       placeholderCreateTime := Some (createTime (store w1 ph)), bindTime := Some (clock w1)\<rparr>) w1"
    have "app_ok w2" using mutate_same(1) ok1 by (simp add: w2 same_booksI)
    moreover have "\<not> placeholder (store w2 r)" "saAllocated w2 = saAllocated w"
      "resource_of w2 r = resource_of w r" "allocationKey (store w2 r) = allocationKey (store w r)"
      "saAllocations w2 = AList.delete key (saAllocations w)"
      using ph f by (simp_all add: w2)
    ultimately have ok3: "app_ok (addAllocationInternal_app Replaced r w2)"
      using assms(2) ph(3) by (intro addAllocation_ok) (auto simp: small_world_def delete_conv')
    have "fst (app_ReplaceAllocation key w) = mutate r ClearRelease (addAllocationInternal_app Replaced r w2)"
      using 2 by (simp add: app_ReplaceAllocation_def w1 w2 [symmetric] Let_def)
    then show ?thesis using ok3 by (simp add: mutate_same(1) same_booksI)
  qed (simp add: ok1)
qed


lemma RemoveAllAllocations_ok:
  assumes "app_ok w"
  shows "app_ok (fst (RemoveAllAllocations w))"
proof -
  define w1 where w1: "w1 = fold (\<lambda>r w. if placeholder (store w r)
      then countPlaceholder (\<lambda>ph. ph\<lparr>phTimedOut := phTimedOut ph + 1\<rparr>) (taskGroupName (store w r)) w
      else w) (map snd (saAllocations w)) w"
  have v1: "book_view w1 = book_view w"
  proof -
    have "book_view (fold (\<lambda>r w. if placeholder (store w r)
      then countPlaceholder (\<lambda>ph. ph\<lparr>phTimedOut := phTimedOut ph + 1\<rparr>) (taskGroupName (store w r)) w
      else w) rs w') = book_view w'" for rs and w' :: world
      by (induction rs arbitrary: w') simp_all
    then show ?thesis unfolding w1 .
  qed
  define w2 where w2: "w2 = (if map_of (userTrackers (users w1)) (User (saUser w1)) \<noteq> None \<and> IsZero (saPending w1)
    then decUserResourceUsage (Add (saAllocated w1) (saAllocatedPlaceholder w1)) True w1 else w1)"
  have v2: "book_view w2 = book_view w" using v1 by (simp add: w2)
  define w3 where w3: "w3 = w2\<lparr>saAllocated := Some NewResource, saAllocatedPlaceholder := Some NewResource,
      saAllocations := []\<rparr>"
  have ok3: "app_ok w3"
    using assms by (simp add: w3 app_ok_def viewD [OF v2] bound_ok_def allocs_ok_def amount_NewResource)
  define w4 where w4: "w4 = (if IsZero (saPending w3)
    then handleEvent (if saState w3 = Failing then FailApplication else CompleteApplication) w3 else w3)"
  have "app_ok w4" using ok3 by (simp add: w4 handleEvent_ok)
  moreover have "fst (RemoveAllAllocations w) = clearStateTimer (clearPlaceholderTimer w4)"
    unfolding RemoveAllAllocations_def Let_def w1 [symmetric] w2 [symmetric] w3 [symmetric] w4 [symmetric] by simp
  ultimately show ?thesis using book_view_cong(1) [of "clearStateTimer (clearPlaceholderTimer w4)" w4] by simp
qed

text \<open>Rolling back a real allocation whose ask is still known.\<close>

lemma RollbackAllocation_ok:
  assumes "app_ok w" "small_world w"
    and "\<And>r. map_of (saAllocations w) key = Some r \<Longrightarrow>
      map_of (saRequests w) key = Some r \<and> \<not> placeholder (store w r)"
  shows "app_ok (fst (RollbackAllocation key w))"
proof (cases "(saState w = Accepted \<or> saState w = Running) \<and> map_of (saRequests w) key \<noteq> None \<and>
    map_of (saAllocations w) key \<noteq> None")
  case False
  then show ?thesis using assms(1) by (auto simp: RollbackAllocation_def split: option.split)
next
  case True
  then obtain r where r: "map_of (saAllocations w) key = Some r" by auto
  then have req: "map_of (saRequests w) key = Some r" "\<not> placeholder (store w r)" using assms(3) by auto
  show ?thesis
  proof (cases "allocated (store w r)")
    case False
    then show ?thesis using assms(1) by (simp add: RollbackAllocation_def r deallocateAsk_def)
  next
    case alloc: True
    have key: "map_of (saRequests w) (allocationKey (store w r)) = Some r"
      using assms(1) req(1) by (auto simp: app_ok_def asks_ok_def keyed_def)
    obtain w1 res where w1: "deallocateAsk r w = (w1, Inr res)"
      using alloc by (simp add: deallocateAsk_def Let_def)
    note f = deallocateAsk_fields [OF alloc key, unfolded w1, simplified]
    have ok1: "app_ok w1" using deallocateAsk_ok [OF assms(1,2) req(1)] w1 by simp
    define w2 where w2: "w2 = mutate r (\<lambda>a. a\<lparr>allocNodeID := []\<rparr>) w1"
    have ok2: "app_ok w2" using ok1 by (simp add: w2 mutate_same(1) same_booksI)
    have f2: "saAllocations w2 = saAllocations w" "saAllocated w2 = saAllocated w"
      "saAllocatedPlaceholder w2 = saAllocatedPlaceholder w" "resource_of w2 r = resource_of w r"
      "\<not> placeholder (store w2 r)"
      using req(2) by (simp_all add: w2 f)
    have "bound_ok (store w2) (saAllocations w) (saAllocated w) (saAllocatedPlaceholder w)"
      using ok2 by (simp add: app_ok_def f2)
    note bound = bound_remove [OF this small_worldD(2,3) [OF assms(2)] _ r]
    have "app_ok (w2\<lparr>saAllocated := Prune (Sub (saAllocated w) (resource_of w r)),
        saAllocations := AList.delete key (saAllocations w)\<rparr>)"
      using ok2 bound small_worldD(4) [OF assms(2), of r] f2 by (simp add: app_ok_def)
    moreover have "book_view (fst (RollbackAllocation key w)) =
        book_view (w2\<lparr>saAllocated := Prune (Sub (saAllocated w) (resource_of w r)),
          saAllocations := AList.delete key (saAllocations w)\<rparr>)"
    proof -
      have "fst (RollbackAllocation key w) =
        (let w3 = decUserResourceUsage (resource_of w2 r) False
            (w2\<lparr>saAllocated := Prune (Sub (saAllocated w2) (resource_of w2 r))\<rparr>)
         in w3\<lparr>saAllocations := AList.delete key (saAllocations w3)\<rparr>)"
        using True by (auto simp: RollbackAllocation_def r req w1 w2 Let_def)
      then show ?thesis by (simp add: Let_def f2 book_view_def)
    qed
    ultimately show ?thesis using book_view_cong(1) by metis
  qed
qed

section \<open>A change of the resource of an ask\<close>

lemma resource_sums:
  fixes st r res
  defines "st' \<equiv> st(r := (st r)\<lparr>allocRes := res\<rparr>)"
  shows "keyed st m \<Longrightarrow> map_of m k = Some r \<Longrightarrow> map_sum (ask_amount st' t) m = map_sum (ask_amount st t) m +
      (if allocated (st r) then 0 else amount res t - amount (allocRes (st r)) t)"
    and "keyed st m \<Longrightarrow> map_of m k = Some r \<Longrightarrow> map_sum (alloc_amount ph st' t) m = map_sum (alloc_amount ph st t) m +
      (if placeholder (st r) = ph then amount res t - amount (allocRes (st r)) t else 0)"
    and "keyed st m \<Longrightarrow> map_of m (allocationKey (st r)) \<noteq> Some r \<Longrightarrow>
      map_sum (alloc_amount ph st' t) m = map_sum (alloc_amount ph st t) m"
    and "ask_count st' = ask_count st" "keyed st' m = keyed st m"
proof -
  assume m: "keyed st m" "map_of m k = Some r"
  have "map_sum (ask_amount st' t) m = map_sum (ask_amount st t) m - ask_amount st t r + ask_amount st' t r"
    by (rule map_sum_change [OF m]) (simp add: ask_amount_def st'_def)
  then show "map_sum (ask_amount st' t) m = map_sum (ask_amount st t) m +
      (if allocated (st r) then 0 else amount res t - amount (allocRes (st r)) t)"
    by (simp add: ask_amount_def st'_def)
  have "map_sum (alloc_amount ph st' t) m =
      map_sum (alloc_amount ph st t) m - alloc_amount ph st t r + alloc_amount ph st' t r"
    by (rule map_sum_change [OF m]) (simp add: alloc_amount_def st'_def)
  then show "map_sum (alloc_amount ph st' t) m = map_sum (alloc_amount ph st t) m +
      (if placeholder (st r) = ph then amount res t - amount (allocRes (st r)) t else 0)"
    by (simp add: alloc_amount_def st'_def)
next
  assume "keyed st m" "map_of m (allocationKey (st r)) \<noteq> Some r"
  then show "map_sum (alloc_amount ph st' t) m = map_sum (alloc_amount ph st t) m"
    by (intro map_sum_unchanged [of _ r]) (auto simp: keyed_def alloc_amount_def st'_def)
next
  show "ask_count st' = ask_count st" "keyed st' m = keyed st m"
    by (auto simp: ask_count_def keyed_def st'_def fun_eq_iff)
qed


lemma SetAllocatedResource_view:
  "book_view (SetAllocatedResource r res w) = book_view (mutate r (\<lambda>a. a\<lparr>allocRes := res\<rparr>) w)"
  by (simp add: SetAllocatedResource_def Let_def split: option.split)

text \<open>An ask whose allocation is in the books as a real allocation, or one that is not allocated.\<close>

lemma UpdateAllocationResources_ok:
  assumes "app_ok w" "small_world w" "small (allocRes a)"
    and "\<And>r. map_of (saRequests w) (allocationKey a) = Some r \<Longrightarrow>
      (if allocated (store w r) then \<not> placeholder (store w r) \<and> map_of (saAllocations w) (allocationKey a) = Some r
       else map_of (saAllocations w) (allocationKey a) \<noteq> Some r)"
  shows "app_ok (fst (UpdateAllocationResources (Some a) quota w))"
proof (cases "IsZero (allocRes a) \<or> map_of (saRequests w) (allocationKey a) = None")
  case True
  then show ?thesis using assms(1) by (auto simp: UpdateAllocationResources_def split: option.split)
next
  case False
  then obtain r where r: "map_of (saRequests w) (allocationKey a) = Some r" by auto
  have small: "small (resource_of w r)" "small (saPending w)" "small (saAllocated w)"
    using assms(2) by (simp_all add: small_world_def)
  define delta where delta: "delta = Sub (allocRes a) (resource_of w r)"
  have clone: "Clone (allocRes a) = allocRes a" "Clone (resource_of w r) = resource_of w r"
    using assms(3) small(1) by (simp_all add: Clone_id smallD)
  show ?thesis
  proof (cases "IsZero delta")
    case True
    then show ?thesis
      using False assms(1) r by (simp add: UpdateAllocationResources_def clone delta Let_def)
  next
    case nz: False
    have d: "amount delta k = amount (allocRes a) k - amount (resource_of w r) k" "wf_res delta" for k
      using assms(3) small(1) by (simp_all add: delta small_ops smallD wf_intros)
    have "\<bar>amount (Prune delta) k\<bar> \<le> 2 ^ 60" for k
      using smallD(2) [OF assms(3), of k] smallD(2) [OF small(1), of k] d by (simp add: amount_simps)
    then have add: "amount (Prune (Add x (Prune delta))) k =
        amount x k + (amount (allocRes a) k - amount (resource_of w r) k)" if "small x" for x k
      using Add_exact [OF that, of "Prune delta" k] that d by (simp add: amount_simps wf_intros smallD)
    have ok: "keyed (store w) (saRequests w)" "keyed (store w) (saAllocations w)"
      using assms(1) by (simp_all add: app_ok_def asks_ok_def bound_ok_def)
    have key: "allocationKey (store w r) = allocationKey a" using ok(1) r by (simp add: keyed_def)
    note sums = resource_sums(1,2) [OF ok(1) r] resource_sums(3) [OF ok(2), of r]
      resource_sums(4,5) [of "store w" r]
    define w1 where w1: "w1 = (if allocated (store w r) then w\<lparr>saAllocated := Prune (Add (saAllocated w) (Prune delta))\<rparr>
      else w\<lparr>saPending := Prune (Add (saPending w) (Prune delta))\<rparr>)"
    have "book_view (fst (UpdateAllocationResources (Some a) quota w)) =
        book_view (mutate r (\<lambda>b. b\<lparr>allocRes := allocRes a\<rparr>) w1)"
      using False nz r
      by (simp add: UpdateAllocationResources_def clone delta [symmetric] Let_def SetAllocatedResource_view w1)
        (simp add: book_view_def)
    moreover have "app_ok (mutate r (\<lambda>b. b\<lparr>allocRes := allocRes a\<rparr>) w1)"
    proof (cases "allocated (store w r)")
      case True
      then have "\<not> placeholder (store w r)" "map_of (saAllocations w) (allocationKey a) = Some r"
        using assms(4) [OF r] by simp_all
      with True assms(1) small add sums resource_sums(2) [OF ok(2), of "allocationKey a" r] show ?thesis
        by (simp add: app_ok_def asks_ok_def pending_ok_def bound_ok_def allocs_ok_def w1)
    next
      case alloc: False
      then have "map_of (saAllocations w) (allocationKey (store w r)) \<noteq> Some r"
        using assms(4) [OF r] by (simp add: key)
      with alloc assms(1) small add sums show ?thesis
        by (simp add: app_ok_def asks_ok_def pending_ok_def bound_ok_def allocs_ok_def w1)
    qed
    ultimately show ?thesis using book_view_cong(1) by metis
  qed
qed


section \<open>Changes that the books do not see\<close>

text \<open>Worlds that differ in the flags, links and logs of the objects and outside of the books.\<close>

definition same_world :: "world \<Rightarrow> world \<Rightarrow> bool" where
  "same_world w w' \<longleftrightarrow>
     (\<forall>r. same_books (store w' r) (store w r) \<and> preempted (store w' r) = preempted (store w r)) \<and>
     book_view (w'\<lparr>store := store w\<rparr>) = book_view w \<and> saSortedRequests w' = saSortedRequests w"

lemma same_world_refl [simp]: "same_world w w"
  by (simp add: same_world_def same_books_def)

lemma same_world_trans [trans]: "same_world a b \<Longrightarrow> same_world b c \<Longrightarrow> same_world a c"
  by (simp add: same_world_def same_books_def book_view_def)

lemma same_world_view:
  "book_view w' = book_view w \<Longrightarrow> saSortedRequests w' = saSortedRequests w \<Longrightarrow> same_world w w'"
  by (simp add: same_world_def same_books_def book_view_def)

lemma same_world_mutate:
  "same_books (f (store w r)) (store w r) \<Longrightarrow> preempted (f (store w r)) = preempted (store w r) \<Longrightarrow>
   same_world w (mutate r f w)"
  by (simp add: same_world_def same_books_def book_view_def)

lemma same_world_ok:
  assumes "same_world w w'"
  shows "app_ok w' = app_ok w" "small_world w' = small_world w"
proof -
  have b: "same_books (store w' r) (store w r)" for r using assms by (simp add: same_world_def)
  have d: "saMachine w' = saMachine w" "saState w' = saState w" "saPending w' = saPending w"
    "saRequests w' = saRequests w" "saPendingPriorities w' = saPendingPriorities w"
    "saAskMaxPriority w' = saAskMaxPriority w" "saAllocations w' = saAllocations w"
    "saAllocated w' = saAllocated w" "saAllocatedPlaceholder w' = saAllocatedPlaceholder w"
    using assms by (simp_all add: same_world_def book_view_def)
  have "ask_amount (store w') = ask_amount (store w)" "alloc_amount ph (store w') = alloc_amount ph (store w)"
    "ask_count (store w') = ask_count (store w)" "keyed (store w') = keyed (store w)" for ph
    using b by (auto simp: ask_amount_def alloc_amount_def ask_count_def same_books_def fun_eq_iff keyed_def)
  then show "app_ok w' = app_ok w"
    by (simp add: app_ok_def asks_ok_def bound_ok_def pending_ok_def allocs_ok_def d)
  show "small_world w' = small_world w"
    using b by (simp add: small_world_def same_books_def d)
qed

lemma same_worldD:
  assumes "same_world w w'"
  shows "saRequests w' = saRequests w" "saAllocations w' = saAllocations w" "saSortedRequests w' = saSortedRequests w"
    "saAllocated w' = saAllocated w" "saAllocatedPlaceholder w' = saAllocatedPlaceholder w"
    "allocated (store w' r) = allocated (store w r)" "allocationKey (store w' r) = allocationKey (store w r)"
    "preempted (store w' r) = preempted (store w r)" "placeholder (store w' r) = placeholder (store w r)"
    "resource_of w' r = resource_of w r"
  using assms by (simp_all add: same_world_def book_view_def same_books_def)

lemma sorted_same [simp]:
  "saSortedRequests (notifyRMAllocationReleased rs t w) = saSortedRequests w"
  "saSortedRequests (countPlaceholder f tg w) = saSortedRequests w"
  by (simp_all add: notifyRMAllocationReleased_def countPlaceholder_def split: option.split)

lemma same_world_notify: "same_world w (notifyRMAllocationReleased rs t w)"
  and same_world_count: "same_world w (countPlaceholder f tg w)"
  by (rule same_world_view; simp)+

lemma same_world_released:
  assumes "SetReleased (store w r) True = (a, None)"
  shows "same_world w (mutate r (\<lambda>_. a) w)"
  using assms by (intro same_world_mutate) (auto simp: SetReleased_def same_books_def split: if_splits)

lemma markReleased_same: "same_world w (fst (markReleased skip rs w))"
proof (induction rs arbitrary: w)
  case (Cons r rs w)
  obtain a err where a: "SetReleased (store w r) True = (a, err)" by fastforce
  show ?case
  proof (cases "skip \<and> released (store w r) \<or> err \<noteq> None")
    case True
    then show ?thesis using Cons a by (auto split: option.split)
  next
    case False
    then have "same_world w (mutate r (\<lambda>_. a) w)" using a by (intro same_world_released) simp
    from same_world_trans [OF this Cons [of "mutate r (\<lambda>_. a) w"]] show ?thesis
      using False a by (auto simp: case_prod_beta)
  qed
qed simp

lemma timeoutAsks_same: "timeoutAsks rs w = Some (w', out) \<Longrightarrow> same_world w w'"
proof (induction rs arbitrary: w w' out)
  case (Cons r rs w)
  obtain a err where a: "SetReleased (store w r) True = (a, err)" by fastforce
  show ?case
  proof (cases "allocated (store w r) \<or> err \<noteq> None")
    case True
    then show ?thesis using Cons a by (auto split: option.splits if_splits)
  next
    case False
    define w1 where w1: "w1 = mutate r (\<lambda>_. a) w"
    define w2 where w2: "w2 = countPlaceholder (\<lambda>ph. ph\<lparr>phTimedOut := phTimedOut ph + 1\<rparr>) (taskGroupName a) w1"
    obtain data where data: "saPlaceholderData w1 = Some data" "map_of data (taskGroupName a) \<noteq> None"
      using Cons.prems False a by (auto simp: w1 [symmetric] Let_def split: option.splits if_splits)
    then obtain out' where "timeoutAsks rs w2 = Some (w', out')"
      using Cons.prems False a by (auto simp: w1 [symmetric] w2 [symmetric] Let_def split: option.splits)
    then have "same_world w2 w'" by (rule Cons.IH)
    moreover have "same_world w1 w2" unfolding w2 by (rule same_world_count)
    moreover have "same_world w w1" unfolding w1 using False a by (intro same_world_released) simp
    ultimately show ?thesis using same_world_trans by blast
  qed
qed simp

end
