(* ===== verification/ApplicationRuns.thy ===== *)
theory ApplicationRuns
  imports ApplicationSteps
begin

text \<open>
  The scheduling operations of an application (\<open>tryNode\<close>, \<open>tryPlaceholderAllocate\<close>, the timeouts) keep
  the books, and so does every run of operations.
\<close>

section \<open>Allocating on a node\<close>

lemma LogAllocation_preempted: "preempted (LogAllocationFailure now a msg b) = preempted a"
  by (simp add: LogAllocationFailure_def Let_def)

lemma preConditions_same: "same_world w (fst (preConditions plugin nodeID r b w))"
  by (simp add: preConditions_def same_world_mutate same_booksI LogAllocation_preempted split: option.split)

lemma tryNode_cases:
  obtains (failed) "same_world w (fst (tryNode plugin nodeID r w))" "fst (snd (tryNode plugin nodeID r w)) = None"
  | (booked) w1 where "same_world w w1"
    "fst (tryNode plugin nodeID r w) = addAllocationInternal_app Allocated r (fst (allocateAsk r w1))"
    "fst (snd (tryNode plugin nodeID r w)) = Some (newAllocationResultInternal Allocated nodeID r)"
proof (cases "preAllocateCheck (nodes w nodeID) (resource_of w r) (allocationKey (store w r))")
  case False
  then show ?thesis by (intro failed) (simp_all add: tryNode_def)
next
  case pre: True
  obtain w1 err where w1: "preConditions plugin nodeID r True w = (w1, err)" by fastforce
  have s1: "same_world w w1" using preConditions_same [of w plugin nodeID r True] w1 by simp
  obtain sn ok where sn: "TryAddAllocation (nodes w1 nodeID) (Some (store w1 r)) = (sn, ok)" by fastforce
  define w2 where w2: "w2 = w1\<lparr>nodes := (nodes w1)(nodeID := sn)\<rparr>"
  have s2: "same_world w1 w2" by (rule same_world_view) (simp_all add: w2)
  obtain h e where h: "TryIncAllocatedResource (heap w2) (saQueue w2) (resource_of w r) = (h, e)" by fastforce
  have eq: "tryNode plugin nodeID r w =
    (case err of Some msg \<Rightarrow> (w1, None, Some msg)
     | None \<Rightarrow> if \<not> ok then (w1, None, None) else
         case e of Some _ \<Rightarrow>
           (w2\<lparr>heap := h, nodes := (nodes w2)(nodeID := fst (RemoveAllocation sn (allocationKey (store w r))))\<rparr>, None, None)
         | None \<Rightarrow> (addAllocationInternal_app Allocated r (fst (allocateAsk r (w2\<lparr>heap := h\<rparr>))),
             Some (newAllocationResultInternal Allocated nodeID r), None))"
    using pre h unfolding w2
    by (simp add: tryNode_def w1 sn Let_def newAllocationResultInternal_def split: option.split bool.split)
  have s3: "same_world w2 (w2\<lparr>heap := h\<rparr>)"
    "same_world w2 (w2\<lparr>heap := h, nodes := (nodes w2)(nodeID := fst (RemoveAllocation sn (allocationKey (store w r))))\<rparr>)"
    by (rule same_world_view; simp)+
  show ?thesis
  proof (cases "err = None \<and> ok \<and> e = None")
    case True
    then show ?thesis
      using same_world_trans [OF s1 same_world_trans [OF s2 s3(1)]] by (intro booked) (simp_all add: eq)
  next
    case False
    then have "fst (tryNode plugin nodeID r w) \<in> {w1,
      w2\<lparr>heap := h, nodes := (nodes w2)(nodeID := fst (RemoveAllocation sn (allocationKey (store w r))))\<rparr>}"
      "fst (snd (tryNode plugin nodeID r w)) = None"
      by (auto simp: eq split: option.split)
    then show ?thesis
      using s1 same_world_trans [OF s1 same_world_trans [OF s2 s3(2)]] by (intro failed) auto
  qed
qed

lemma tryNode_ok:
  assumes "app_ok w" "small_world w" "map_of (saRequests w) k = Some r"
    and "map_of (saAllocations w) (allocationKey (store w r)) = None"
  shows "app_ok (fst (tryNode plugin nodeID r w))"
proof (cases rule: tryNode_cases [where w = w and plugin = plugin and nodeID = nodeID and r = r])
  case failed
  then show ?thesis using same_world_ok(1) assms(1) by simp
next
  case (booked w1)
  note d = same_worldD [OF booked(1)]
  have ok: "app_ok w1" "small_world w1" using assms(1,2) same_world_ok [OF booked(1)] by simp_all
  have "app_ok (fst (allocateAsk r w1))" using allocateAsk_ok [OF ok] assms(3) by (simp add: d)
  moreover have "store (fst (allocateAsk r w1)) r = (store w1 r)\<lparr>allocated := True\<rparr>"
    "saAllocated (fst (allocateAsk r w1)) = saAllocated w1"
    "saAllocatedPlaceholder (fst (allocateAsk r w1)) = saAllocatedPlaceholder w1"
    "saAllocations (fst (allocateAsk r w1)) = saAllocations w1"
    using allocateAsk_fields [of w1 r]
    by (cases "allocated (store w1 r)"; simp add: allocateAsk_def)+
  ultimately show ?thesis
    using assms(4) small_worldD [OF ok(2)] unfolding booked(2) by (intro addAllocation_ok) (simp_all add: d)
qed


section \<open>Replacing placeholders\<close>

lemma same_world_link: "same_world w (linkReplacement r ph w)"
  unfolding linkReplacement_def
  by (rule same_world_trans; rule same_world_mutate) (simp_all add: same_books_def SetRelease_def)

lemma same_world_bind: "same_world w (bindReplacement r nodeID w)"
  unfolding bindReplacement_def by (rule same_world_mutate) (simp_all add: same_booksI)

lemma same_world_nodes: "same_world w (w\<lparr>nodes := n\<rparr>)"
  by (rule same_world_view) simp_all

lemma allocateAsk_preempted: "preempted (store (fst (allocateAsk r w)) x) = preempted (store w x)"
proof (cases "allocated (store w r)")
  case True
  then show ?thesis by (simp add: allocateAsk_def)
next
  case False
  show ?thesis unfolding allocateAsk_fields(1) [OF False] by simp
qed

lemma SetReleased_not_preempted: "\<not> preempted a \<Longrightarrow> SetReleased a True = (a\<lparr>released := True\<rparr>, None)"
  by (simp add: SetReleased_def)

text \<open>An ask is allocated, and all else is out of sight of the books.\<close>

definition only_allocates :: "nat \<Rightarrow> world \<Rightarrow> world \<Rightarrow> bool" where
  "only_allocates r w w' \<longleftrightarrow> (\<exists>w1. same_world w w1 \<and> same_world (fst (allocateAsk r w1)) w')"

lemma only_allocates_before: "same_world w w1 \<Longrightarrow> only_allocates r w1 w' \<Longrightarrow> only_allocates r w w'"
  unfolding only_allocates_def using same_world_trans by blast

lemma linked_swap:
  fixes r
  assumes "\<not> preempted (store w ph)"
  defines "w1 \<equiv> linkReplacement r ph (fst (allocateAsk r w))"
  shows "SetReleased (store w1 ph) True = ((store w1 ph)\<lparr>released := True\<rparr>, None)"
    "same_world (fst (allocateAsk r w)) (bindReplacement r nodeID (mutate ph (\<lambda>_. (store w1 ph)\<lparr>released := True\<rparr>) w1))"
proof -
  have s: "same_world (fst (allocateAsk r w)) w1" unfolding w1_def by (rule same_world_link)
  then have "\<not> preempted (store w1 ph)"
    using assms(1) by (simp add: same_worldD allocateAsk_preempted)
  then show rel: "SetReleased (store w1 ph) True = ((store w1 ph)\<lparr>released := True\<rparr>, None)"
    by (rule SetReleased_not_preempted)
  show "same_world (fst (allocateAsk r w)) (bindReplacement r nodeID (mutate ph (\<lambda>_. (store w1 ph)\<lparr>released := True\<rparr>) w1))"
    using same_world_trans [OF s same_world_trans [OF same_world_released [OF rel] same_world_bind]] .
qed

lemma replaceOnNode_effect:
  assumes "replaceOnNode plugin getNode r phs fit w = (w', fit', res)"
  shows "(if res = None then same_world w w' else only_allocates r w w') \<and>
    (fit' = fit \<or> (\<exists>ph. fit' = Some (ph, r) \<and> \<not> preempted (store w ph)))"
  using assms
proof (induction phs arbitrary: fit w)
  case (Cons ph phs fit w)
  have go: "(if res = None then same_world w w' else only_allocates r w w') \<and>
      (fit' = fit \<or> (\<exists>ph. fit' = Some (ph, r) \<and> \<not> preempted (store w ph)))"
    if "replaceOnNode plugin getNode r phs f w1 = (w', fit', res)" "same_world w w1"
      "f = fit \<or> (\<not> preempted (store w ph) \<and> f = Some (ph, r))" for f w1
    using Cons.IH [OF that(1)] that(2,3) same_world_trans only_allocates_before
    by (auto simp: same_worldD split: if_splits)
  let ?p = "store w ph"
  consider "released ?p \<or> preempted ?p \<or> taskGroupName (store w r) \<noteq> taskGroupName ?p"
    | "\<not> preempted ?p" "\<not> released ?p" "taskGroupName (store w r) = taskGroupName ?p"
      "HasNegativeValue (Sub (allocRes ?p) (allocRes (store w r)))"
    | "\<not> preempted ?p" "\<not> released ?p" "taskGroupName (store w r) = taskGroupName ?p"
      "\<not> HasNegativeValue (Sub (allocRes ?p) (allocRes (store w r)))"
    by blast
  then show ?case
  proof cases
    case 1
    then show ?thesis using Cons.prems by (intro go [of fit w]) (auto split: if_splits)
  next
    case 2
    note rel = SetReleased_not_preempted [OF 2(1)]
    have "same_world w (notifyRMAllocationReleased [ph] Timeout (mutate ph (\<lambda>_. ?p\<lparr>released := True\<rparr>) w))"
      using same_world_trans [OF same_world_released [OF rel] same_world_notify] .
    then show ?thesis
      using 2 rel Cons.prems by (intro go [of fit]) (auto simp: Let_def)
  next
    case 3
    define f where f: "f = (if fit = None then Some (ph, r) else fit)"
    show ?thesis
    proof (cases "\<not> getNode (allocNodeID ?p) \<or> plugin (allocationKey (store w r)) (allocNodeID ?p) False \<noteq> None")
      case True
      then show ?thesis using 3 Cons.prems by (intro go [of f w]) (auto simp: Let_def f)
    next
      case False
      note swap = linked_swap [OF 3(1), of r]
      have "(w', fit', res) = (bindReplacement r (allocNodeID ?p)
          (mutate ph (\<lambda>_. (store (linkReplacement r ph (fst (allocateAsk r w))) ph)\<lparr>released := True\<rparr>)
            (linkReplacement r ph (fst (allocateAsk r w)))), f, Some (newAllocationResultInternal Replaced (allocNodeID ?p) r))"
        using 3 False Cons.prems swap(1) by (simp add: Let_def f)
      then show ?thesis
        using swap(2) 3(1) by (auto simp: only_allocates_def f intro: same_world_refl)
    qed
  qed
qed simp


lemma replaceRequests_effect:
  assumes "replaceRequests plugin getNode rs fit w = (w', fit', res)"
  shows "(if res = None then same_world w w' else \<exists>r\<in>set rs. only_allocates r w w') \<and>
    (fit' = fit \<or> (\<exists>ph. \<exists>r\<in>set rs. fit' = Some (ph, r) \<and> \<not> preempted (store w ph)))"
  using assms
proof (induction rs arbitrary: fit w)
  case (Cons r rs fit w)
  show ?case
  proof (cases "placeholder (store w r) \<or> taskGroupName (store w r) = [] \<or> allocated (store w r)")
    case True
    then have "replaceRequests plugin getNode rs fit w = (w', fit', res)" using Cons.prems by (auto split: if_splits)
    from Cons.IH [OF this] show ?thesis by (auto split: if_splits)
  next
    case False
    obtain w1 fit1 res1 where one: "replaceOnNode plugin getNode r (getPlaceholderAllocations w) fit w = (w1, fit1, res1)"
      by (metis prod_cases3)
    note eff = replaceOnNode_effect [OF one]
    show ?thesis
    proof (cases res1)
      case None
      then have rest: "replaceRequests plugin getNode rs fit1 w1 = (w', fit', res)" using Cons.prems False one by simp
      have s: "same_world w w1" using eff None by simp
      show ?thesis
        using Cons.IH [OF rest] eff None same_world_trans [OF s] only_allocates_before [OF s]
        by (auto simp: same_worldD [OF s] split: if_splits)
    next
      case (Some a)
      then show ?thesis using eff Cons.prems False one by auto
    qed
  qed
qed simp

lemma replaceElsewhere_effect:
  assumes "\<not> preempted (store w ph)"
  shows "same_world w (fst (replaceElsewhere plugin ph r ids w)) \<or>
    only_allocates r w (fst (replaceElsewhere plugin ph r ids w))"
  using assms
proof (induction ids arbitrary: w)
  case (Cons nodeID ids w)
  let ?goal = "\<lambda>w'. same_world w w' \<or> only_allocates r w w'"
  have go: "?goal (fst (replaceElsewhere plugin ph r ids w1))" if "same_world w w1" for w1
    using Cons.IH [of w1] Cons.prems that same_world_trans [OF that] only_allocates_before [OF that]
    by (auto simp: same_worldD)
  obtain w1 err where w1: "preConditions plugin nodeID r True w = (w1, err)" by fastforce
  have s1: "same_world w w1" using preConditions_same [of w plugin nodeID r True] w1 by simp
  obtain sn ok where sn: "TryAddAllocation (nodes w1 nodeID) (Some (store w1 r)) = (sn, ok)" by fastforce
  define w2 where w2: "w2 = w1\<lparr>nodes := (nodes w1)(nodeID := sn)\<rparr>"
  have s2: "same_world w w2" using same_world_trans [OF s1 same_world_nodes] by (simp add: w2)
  consider "\<not> schedulable (nodes w nodeID) \<or> \<not> preAllocateCheck (nodes w nodeID) (resource_of w r) (allocationKey (store w r)) \<or>
      err \<noteq> None"
    | "schedulable (nodes w nodeID)" "preAllocateCheck (nodes w nodeID) (resource_of w r) (allocationKey (store w r))"
      "err = None" "\<not> ok"
    | "schedulable (nodes w nodeID)" "preAllocateCheck (nodes w nodeID) (resource_of w r) (allocationKey (store w r))"
      "err = None" "ok"
    by blast
  then show ?case
  proof cases
    case 1
    then have "replaceElsewhere plugin ph r (nodeID # ids) w = replaceElsewhere plugin ph r ids w \<or>
        replaceElsewhere plugin ph r (nodeID # ids) w = replaceElsewhere plugin ph r ids w1"
      by (auto simp: w1 Let_def)
    then show ?thesis using go [of w] go [OF s1] by auto
  next
    case 2
    then have "fst (replaceElsewhere plugin ph r (nodeID # ids) w) = w1" by (simp add: w1 sn Let_def)
    then show ?thesis using s1 by simp
  next
    case 3
    have np: "\<not> preempted (store w2 ph)" using Cons.prems by (simp add: same_worldD [OF s2])
    note swap = linked_swap [OF np, of r]
    show ?thesis
    proof (cases "allocated (store w2 r)")
      case True
      then have "allocateAsk r w2 = (w2, Inl (AlreadyAllocated (allocationKey (store w2 r))))"
        by (simp add: allocateAsk_def)
      then have "fst (replaceElsewhere plugin ph r (nodeID # ids) w) =
          w2\<lparr>nodes := (nodes w2)(nodeID := fst (RemoveAllocation (nodes w2 nodeID) (allocationKey (store w r))))\<rparr>"
        using 3 by (simp add: w1 sn w2 Let_def)
      then show ?thesis using same_world_trans [OF s2 same_world_nodes] by simp
    next
      case False
      then obtain w3 d where w3: "allocateAsk r w2 = (w3, Inr d)" by (simp add: allocateAsk_def Let_def)
      then have "fst (replaceElsewhere plugin ph r (nodeID # ids) w) = bindReplacement r nodeID
          (mutate ph (\<lambda>_. (store (linkReplacement r ph w3) ph)\<lparr>released := True\<rparr>) (linkReplacement r ph w3))"
        using 3 swap(1) by (simp add: w1 sn w2 [symmetric] Let_def)
      then have "same_world (fst (allocateAsk r w2)) (fst (replaceElsewhere plugin ph r (nodeID # ids) w))"
        using swap(2) w3 by simp
      then show ?thesis using s2 by (auto simp: only_allocates_def)
    qed
  qed
qed simp

lemma only_allocates_ok:
  assumes "only_allocates r w w'" "app_ok w" "small_world w" "map_of (saRequests w) k = Some r"
  shows "app_ok w'"
proof -
  obtain w1 where w1: "same_world w w1" "same_world (fst (allocateAsk r w1)) w'"
    using assms(1) by (auto simp: only_allocates_def)
  have "app_ok (fst (allocateAsk r w1))"
    using allocateAsk_ok [of w1 k r] assms(2-4) same_world_ok [OF w1(1)] by (simp add: same_worldD [OF w1(1)])
  then show ?thesis using same_world_ok(1) [OF w1(2)] by simp
qed

lemma tryPlaceholderAllocate_ok:
  assumes "app_ok w" "small_world w" "\<forall>r\<in>set (saSortedRequests w). \<exists>k. map_of (saRequests w) k = Some r"
  shows "app_ok (fst (tryPlaceholderAllocate plugin getNode iterator w))"
proof (cases "IsZero (saAllocatedPlaceholder w)")
  case True
  then show ?thesis using assms(1) by (simp add: tryPlaceholderAllocate_def)
next
  case False
  obtain w1 fit res where one: "replaceRequests plugin getNode (saSortedRequests w) None w = (w1, fit, res)"
    by (metis prod_cases3)
  note eff = replaceRequests_effect [OF one]
  show ?thesis
  proof (cases res)
    case (Some a)
    then obtain r where "r \<in> set (saSortedRequests w)" "only_allocates r w w1" using eff by auto
    then have "app_ok w1" using only_allocates_ok assms by blast
    then show ?thesis using False one Some by (simp add: tryPlaceholderAllocate_def)
  next
    case None
    have s: "same_world w w1" using eff None by simp
    have ok: "app_ok w1" "small_world w1" using same_world_ok [OF s] assms(1,2) by simp_all
    show ?thesis
    proof (cases "iterator = None \<or> fit = None")
      case True
      then show ?thesis using False one None ok
        by (auto simp: tryPlaceholderAllocate_def split: option.split prod.split)
    next
      case both: False
      then obtain ids ph r where fit: "iterator = Some ids" "fit = Some (ph, r)" by auto
      then have r: "r \<in> set (saSortedRequests w)" "\<not> preempted (store w1 ph)"
        using eff by (auto simp: same_worldD [OF s])
      then obtain k where "map_of (saRequests w1) k = Some r" using assms(3) by (auto simp: same_worldD [OF s])
      then have "app_ok (fst (replaceElsewhere plugin ph r ids w1))"
        using replaceElsewhere_effect [OF r(2), of plugin r ids] only_allocates_ok ok same_world_ok(1) by blast
      then show ?thesis using False one None fit by (simp add: tryPlaceholderAllocate_def)
    qed
  qed
qed


section \<open>Timeouts and reservations\<close>

lemma timeoutStateTimer_ok:
  assumes "app_ok w"
  shows "app_ok (timeoutStateTimer expected e w)"
proof -
  obtain w1 out where w1: "markReleased True (getPlaceholderAllocations w) w = (w1, out)" by fastforce
  have s: "same_world w w1" using markReleased_same [of w True "getPlaceholderAllocations w"] w1 by simp
  have "app_ok (clearStateTimer (notifyRMAllocationReleased out Timeout w1))"
    using assms same_world_ok(1) [OF s] book_view_cong(1) [of "clearStateTimer (notifyRMAllocationReleased out Timeout w1)" w1]
    by simp
  then show ?thesis using assms handleEvent_ok [OF assms] by (simp add: timeoutStateTimer_def w1)
qed

lemma timeoutPlaceholderProcessing_ok:
  assumes "app_ok w" "timeoutPlaceholderProcessing w = Some w'"
  shows "app_ok w'"
proof (cases "(saState w = Running \<or> saState w = Completing) \<and> \<not> IsZero (saAllocatedPlaceholder w)")
  case True
  obtain w1 out where w1: "markReleased True (getPlaceholderAllocations w) w = (w1, out)" by fastforce
  have s: "same_world w w1" using markReleased_same [of w True "getPlaceholderAllocations w"] w1 by simp
  have "w' = clearPlaceholderTimer (notifyRMAllocationReleased out Timeout w1)"
    using assms(2) True by (simp add: timeoutPlaceholderProcessing_def w1)
  then show ?thesis using assms(1) same_world_ok(1) [OF s] book_view_cong(1) [of w' w1] by simp
next
  case False
  define w0 where w0: "w0 = fst (HandleApplicationEventWithInfo
    (if saGangSchedulingStyle w = ''Hard'' then FailApplication else ResumeApplication)
    (Some ''ResourceReservationTimeout'') w)"
  obtain w1 out where w1: "markReleased False (map snd (saAllocations w0)) w0 = (w1, out)" by fastforce
  note run = assms(2) [unfolded timeoutPlaceholderProcessing_def if_not_P [OF False] Let_def w0 [symmetric] w1 prod.case]
  have "timeoutAsks (map snd (saRequests w1)) w1 \<noteq> None" using run by (auto split: option.splits)
  then obtain w2 out2 where w2: "timeoutAsks (map snd (saRequests w1)) w1 = Some (w2, out2)" by fastforce
  have "app_ok w0" using event_ok [OF assms(1)] by (simp add: w0)
  moreover have "same_world w0 w1" using markReleased_same [of w0 False "map snd (saAllocations w0)"] w1 by simp
  moreover have "same_world w1 w2" by (rule timeoutAsks_same [OF w2])
  ultimately have "app_ok w2" using same_world_ok(1) by blast
  then have "app_ok (fst (removeAsksInternal [] w2))" by (simp add: removeAsksInternal_ok)
  moreover have "book_view w' = book_view (fst (removeAsksInternal [] w2))"
    using run by (auto simp: w2)
  ultimately show ?thesis using book_view_cong(1) by metis
qed

lemma reserve_view:
  "book_view (fst (reserveInternal nodeID r w)) = book_view w" "book_view (fst (app_UnReserve nodeID r w)) = book_view w"
  by (simp_all add: reserveInternal_def app_UnReserve_def Let_def book_view_def split: option.split prod.split)

section \<open>Runs of operations\<close>

text \<open>
  The operations with what their callers see to: a recovered ask and a new allocation have a key of their
  own, a placeholder is swapped with a real allocation, and only a real allocation whose ask is known is
  rolled back or resized. The last rule stands for the other parts of the scheduler: they change queues,
  nodes, users, reservations and the flags of the objects, not the books.
\<close>

inductive app_op :: "world \<Rightarrow> world \<Rightarrow> bool" where
  op_event: "app_op w (fst (HandleApplicationEventWithInfo e info w))"
| op_add_ask: "app_op w (fst (AddAllocationAsk a w))"
| op_recover_ask:
    "allocated (store w r) \<Longrightarrow> map_of (saRequests w) (allocationKey (store w r)) = None \<Longrightarrow>
     app_op w (RecoverAllocationAsk (Some r) w)"
| op_allocate_ask: "app_op w (fst (AllocateAsk key w))"
| op_deallocate_ask: "app_op w (fst (DeallocateAsk key w))"
| op_remove_asks: "app_op w (fst (removeAsksInternal key w))"
| op_reserve: "app_op w (fst (reserveInternal nodeID r w))"
| op_unreserve: "app_op w (fst (app_UnReserve nodeID r w))"
| op_add_allocation:
    "map_of (saAllocations w) (allocationKey (store w r)) = None \<Longrightarrow> app_op w (app_AddAllocation r w)"
| op_remove_allocation: "app_op w (fst (removeAllocationInternal key t w))"
| op_replace_allocation:
    "(\<And>ph r. map_of (saAllocations w) key = Some ph \<Longrightarrow> release (store w ph) = Some r \<Longrightarrow>
        placeholder (store w ph) \<and> \<not> placeholder (store w r) \<and>
        map_of (saAllocations w) (allocationKey (store w r)) = None) \<Longrightarrow>
     app_op w (fst (app_ReplaceAllocation key w))"
| op_remove_all: "app_op w (fst (RemoveAllAllocations w))"
| op_rollback:
    "(\<And>r. map_of (saAllocations w) key = Some r \<Longrightarrow>
        map_of (saRequests w) key = Some r \<and> \<not> placeholder (store w r)) \<Longrightarrow>
     app_op w (fst (RollbackAllocation key w))"
| op_update_resources:
    "small (allocRes a) \<Longrightarrow>
     (\<And>r. map_of (saRequests w) (allocationKey a) = Some r \<Longrightarrow>
        (if allocated (store w r)
         then \<not> placeholder (store w r) \<and> map_of (saAllocations w) (allocationKey a) = Some r
         else map_of (saAllocations w) (allocationKey a) \<noteq> Some r)) \<Longrightarrow>
     app_op w (fst (UpdateAllocationResources (Some a) quota w))"
| op_state_timer: "app_op w (timeoutStateTimer expected e w)"
| op_placeholder_timer: "timeoutPlaceholderProcessing w = Some w' \<Longrightarrow> app_op w w'"
| op_try_node:
    "map_of (saRequests w) key = Some r \<Longrightarrow> map_of (saAllocations w) (allocationKey (store w r)) = None \<Longrightarrow>
     app_op w (fst (tryNode plugin nodeID r w))"
| op_try_placeholder:
    "\<forall>r\<in>set (saSortedRequests w). \<exists>k. map_of (saRequests w) k = Some r \<Longrightarrow>
     app_op w (fst (tryPlaceholderAllocate plugin getNode iterator w))"
| op_environment: "same_world w w' \<Longrightarrow> app_op w w'"

lemma app_op_ok:
  assumes "app_op w w'" "app_ok w" "small_world w"
  shows "app_ok w'"
  using assms
proof (induction rule: app_op.induct)
  case (op_add_ask w a)
  then show ?case by (cases a) (simp_all add: AddAllocationAsk_ok, simp add: AddAllocationAsk_def)
next
  case (op_allocate_ask w key)
  then show ?case by (auto simp: AllocateAsk_def allocateAsk_ok split: option.split)
next
  case (op_deallocate_ask w key)
  then show ?case by (auto simp: DeallocateAsk_def deallocateAsk_ok split: option.split)
next
  case (op_reserve w nodeID r)
  then show ?case using book_view_cong(1) [OF reserve_view(1)] by simp
next
  case (op_unreserve w nodeID r)
  then show ?case using book_view_cong(1) [OF reserve_view(2)] by simp
next
  case (op_add_allocation w r)
  then show ?case by (simp add: app_AddAllocation_def addAllocation_ok small_worldD)
next
  case (op_replace_allocation w key)
  show ?case by (rule app_ReplaceAllocation_ok) (use op_replace_allocation in blast)+
next
  case (op_rollback w key)
  show ?case by (rule RollbackAllocation_ok) (use op_rollback in blast)+
next
  case (op_update_resources a w quota)
  show ?case by (rule UpdateAllocationResources_ok) (use op_update_resources in blast)+
next
  case (op_environment w w')
  then show ?case using same_world_ok(1) by blast
qed (simp_all add: event_ok RecoverAllocationAsk_ok removeAsksInternal_ok removeAllocationInternal_ok
    RemoveAllAllocations_ok timeoutStateTimer_ok timeoutPlaceholderProcessing_ok tryNode_ok tryPlaceholderAllocate_ok)


section \<open>The usage of the queues\<close>

definition queue_usage :: "world \<Rightarrow> qpath \<Rightarrow> resource option" where
  "queue_usage w q = allocatedResource (heap w q)"

lemma UpdateQueuePriority_usage:
  "allocatedResource (UpdateQueuePriority h p n v q) = allocatedResource (h q)"
proof (induction p arbitrary: h n v)
  case (Cons m p)
  have "allocatedResource (fst (updateQueuePriorityInternal sq n v)) = allocatedResource sq" for sq
    by (simp add: updateQueuePriorityInternal_def recalculatePriority_def Let_def)
  with Cons show ?case
    by (cases "updateQueuePriorityInternal (h (m # p)) n v") (auto, metis fst_conv)
qed simp

lemma heap_usage:
  "allocatedResource (decPendingResource h path r q) = allocatedResource (h q)"
  "allocatedResource (incPendingResource h path r q) = allocatedResource (h q)"
  "allocatedResource (incRunningApps h path appID q) = allocatedResource (h q)"
  "allocatedResource (decRunningApps h path q) = allocatedResource (h q)"
  "allocatedResource (UpdateApplicationPriority h path appID v q) = allocatedResource (h q)"
proof -
  have "allocatedResource (fst (updateApplicationPriorityInternal sq appID v)) = allocatedResource sq" for sq
    by (simp add: updateApplicationPriorityInternal_def recalculatePriority_def Let_def)
  then show "allocatedResource (UpdateApplicationPriority h path appID v q) = allocatedResource (h q)"
    by (cases path; cases "updateApplicationPriorityInternal (h path) appID v")
      (auto simp: UpdateApplicationPriority_def UpdateQueuePriority_usage, metis fst_conv)
qed (simp_all add: dec_pending.walk_apply decPendingQueue_def inc_pending.walk_apply inc_running.walk_apply
    incRunningQueue_def dec_running.walk_apply Let_def)

lemma event_usage: "queue_usage (handleEvent e w) q = queue_usage w q" "nodes (handleEvent e w) = nodes w"
  by (auto simp: queue_usage_def handleEvent_def HandleApplicationEventWithInfo_def enterState_def leaveState_def
      recordState_def cleanupAsks_def setStateTimer_def clearStateTimer_def clearPlaceholderTimer_def
      heap_usage Let_def split: prod.split applicationState.split)

lemma addAllocation_usage:
  "queue_usage (addAllocationInternal_app t r w) q = queue_usage w q" "nodes (addAllocationInternal_app t r w) = nodes w"
proof -
  have "queue_usage (incUserResourceUsage res w) q = queue_usage w q" "nodes (incUserResourceUsage res w) = nodes w"
    "queue_usage (initPlaceholderTimer w) q = queue_usage w q" "nodes (initPlaceholderTimer w) = nodes w" for res w
    by (simp_all add: queue_usage_def incUserResourceUsage_def initPlaceholderTimer_def split: option.split)
  note same = this event_usage
  have upd: "queue_usage (w\<lparr>saAllocatedPlaceholder := x\<rparr>) q = queue_usage w q" "queue_usage (w\<lparr>saMaxAllocated := x\<rparr>) q = queue_usage w q"
    "queue_usage (w\<lparr>saAllocated := x\<rparr>) q = queue_usage w q" "queue_usage (w\<lparr>saAllocations := m\<rparr>) q = queue_usage w q"
    "queue_usage (w\<lparr>saSubmissionTime := t'\<rparr>) q = queue_usage w q" "queue_usage (w\<lparr>saHasPlaceholderAlloc := b\<rparr>) q = queue_usage w q"
    for w x m t' b
    by (simp_all add: queue_usage_def)
  show "queue_usage (addAllocationInternal_app t r w) q = queue_usage w q"
    "nodes (addAllocationInternal_app t r w) = nodes w"
    by (simp_all add: addAllocationInternal_app_def Let_def same upd)
qed

lemma allocateAsk_usage: "queue_usage (fst (allocateAsk r w)) q = queue_usage w q" "nodes (fst (allocateAsk r w)) = nodes w"
  by (simp_all add: queue_usage_def allocateAsk_def removeFromPriorities_def setAskMaxPriority_def heap_usage Let_def)


lemma delete_update_absent: "map_of m k = None \<Longrightarrow> AList.delete k (AList.update k v m) = m"
  by (induction m) (auto split: if_splits simp: delete_absent)

text \<open>A checked allocation on a node that has room, and its removal.\<close>

lemma node_add_remove:
  assumes "small_node sn" "small (allocRes a)" "FitIn (availableResource sn) (allocRes a)"
    and "map_of (Nodes.allocations sn) (allocationKey a) = None"
  obtains sn' where "TryAddAllocation sn (Some a) = (sn', True)"
    "map_of (Nodes.allocations sn') (allocationKey a) = Some a"
    "\<And>k. amount (availableResource sn') k = amount (availableResource sn) k - amount (allocRes a) k"
    "Nodes.allocations (fst (RemoveAllocation sn' (allocationKey a))) = Nodes.allocations sn"
    "\<And>k. amount (availableResource (fst (RemoveAllocation sn' (allocationKey a)))) k = amount (availableResource sn) k"
proof -
  define sn' where "sn' = fst (TryAddAllocation sn (Some a))"
  have t: "TryAddAllocation sn (Some a) = (sn', True)"
    using assms(3) by (simp add: sn'_def TryAddAllocation_def addAllocationInternal_def Let_def)
  have av: "availableResource sn' = Prune (SubFrom (availableResource sn) (allocRes a))"
    "Nodes.allocations sn' = AList.update (allocationKey a) a (Nodes.allocations sn)"
    using assms(3) by (auto simp: sn'_def TryAddAllocation_def addAllocationInternal_def Let_def)
  have wf: "wf_res (SubFrom (availableResource sn) (allocRes a))" "availableResource sn \<noteq> None"
    using assms(1,2) by (simp_all add: small_node_def smallD wf_intros)
  have ne: "availableResource sn' \<noteq> None" using av(1) wf(2) by (simp del: not_None_eq)
  have amt: "amount (availableResource sn') k = amount (availableResource sn) k - amount (allocRes a) k" for k
    using assms(1,2) wf by (simp add: av amount_simps small_node_def small_ops)
  have has: "map_of (Nodes.allocations sn') (allocationKey a) = Some a" by (simp add: av update_conv')
  have rem: "Nodes.allocations (fst (RemoveAllocation sn' (allocationKey a))) = Nodes.allocations sn"
    using assms(4) has by (simp add: RemoveAllocation_def Let_def av delete_update_absent)
  have "amount (availableResource (fst (RemoveAllocation sn' (allocationKey a)))) k = amount (availableResource sn) k" for k
  proof -
    have "\<bar>amount (availableResource sn) k - amount (allocRes a) k + amount (allocRes a) k\<bar> \<le> 2 ^ 62"
      using assms(1) smallD(2) [of "availableResource sn" k] by (simp add: small_node_def)
    then have "amount (AddTo (availableResource sn') (allocRes a)) k = amount (availableResource sn) k"
      using amount_AddTo [OF ne, of "allocRes a" k] assms(2) by (simp add: smallD amt sat64_small)
    then show ?thesis using has by (simp add: RemoveAllocation_def Let_def)
  qed
  with t has amt rem show thesis by (rule that)
qed

section \<open>An example\<close>

text \<open>A new application in a leaf queue; the objects in the store are asks for one cpu.\<close>

definition newWorld :: "Application \<Rightarrow> (nat \<Rightarrow> alloc) \<Rightarrow> qheap \<Rightarrow> Manager \<Rightarrow> (string \<Rightarrow> node) \<Rightarrow> world" where
  "newWorld app st h m ns = Application.extend app (world.fields st h m ns [] 0)"

definition exampleApp :: Application where
  "exampleApp = (NewApplication looplab_event
     \<lparr>siAppID = ''app-1'', siQueueName = ''root.a'', siAppTags = [], siPlaceholderAsk = Some [], siGangStyle = ''Soft''\<rparr>
     alice 0 0)"

definition exampleStore :: "nat \<Rightarrow> alloc" where
  "exampleStore r = exampleAsk (if r = 0 then ''ask-0'' else ''ask-1'') (int r) 0"

definition exampleWorld :: world where
  "exampleWorld = (newWorld exampleApp exampleStore (exampleHeap 10 5 3) exampleManager
     (\<lambda>_. exampleNode))\<lparr>saQueue := [''a'', ''root'']\<rparr>"

lemma example_new: "Application.truncate exampleWorld = exampleApp\<lparr>saQueue := [''a'', ''root'']\<rparr>"
  by (simp add: exampleWorld_def newWorld_def Application.defs world.defs)

lemma example_fields [simp]:
  "store exampleWorld = exampleStore" "heap exampleWorld = exampleHeap 10 5 3"
  "nodes exampleWorld n = exampleNode" "saQueue exampleWorld = [''a'', ''root'']"
  "saMachine exampleWorld = looplab_event" "saRequests exampleWorld = []" "saState exampleWorld = New"
  "saPending exampleWorld = Some []" "saAllocated exampleWorld = Some []" "saAllocatedPlaceholder exampleWorld = Some []"
  by (simp_all add: exampleWorld_def newWorld_def Application.defs world.defs exampleApp_def NewApplication_def NewResource_def)

section \<open>Reading the books\<close>

lemma map_sum_pos: "0 < map_sum f m \<Longrightarrow> \<exists>k r. (k, r) \<in> set m \<and> 0 < f r"
proof (induction m)
  case (Cons p m)
  obtain k r where p: "p = (k, r)" by fastforce
  have "0 < f r \<or> 0 < map_sum f m" using Cons.prems by (auto simp: p)
  then show ?case using Cons.IH by (auto simp: p)
qed simp

text \<open>The cached priority is the highest priority of a pending ask.\<close>

lemma bands_highest:
  assumes "keyed st m" "bands_ok bands mx (\<lambda>p. map_sum (ask_count st p) m)"
  shows "(k, r) \<in> set m \<Longrightarrow> \<not> allocated (st r) \<Longrightarrow> priority (st r) \<le> mx"
    and "mx \<noteq> MinPriority \<Longrightarrow> \<exists>k r. (k, r) \<in> set m \<and> \<not> allocated (st r) \<and> priority (st r) = mx"
proof -
  have mx: "mx = maxBand bands" using assms(2) by (simp add: bands_ok_def)
  have wf: "wf_map m" using assms(1) by (simp add: keyed_def)
  show "priority (st r) \<le> mx" if r: "(k, r) \<in> set m" "\<not> allocated (st r)"
  proof -
    have "map_of m k = Some r" using r(1) wf by (simp add: map_of_wf)
    then obtain n where "(priority (st r), n) \<in> set bands"
      using ask_count_pos [OF assms(1) _ r(2)] bandCount_pos(1) [OF assms(2)] by blast
    then show ?thesis using maxBand_ge mx by blast
  qed
  show "\<exists>k r. (k, r) \<in> set m \<and> \<not> allocated (st r) \<and> priority (st r) = mx" if high: "mx \<noteq> MinPriority"
  proof -
    obtain n where "(mx, n) \<in> set bands" using maxBand_in [of bands] high mx by force
    then have "0 < map_sum (ask_count st mx) m" using bandCount_pos(1) [OF assms(2)] by blast
    then obtain k r where "(k, r) \<in> set m" "0 < ask_count st mx r" using map_sum_pos by blast
    then show ?thesis by (auto simp: ask_count_def split: if_splits)
  qed
qed

lemma AddAllocationAsk_requests:
  assumes "\<not> allocated (store w r)" "\<not> IsZero (resource_of w r)" "fsm_documented (saMachine w)"
  shows "saRequests (fst (AddAllocationAsk (Some r) w)) = AList.update (allocationKey (store w r)) r (saRequests w)"
    "saState (fst (AddAllocationAsk (Some r) w)) =
       (if saState w = New \<or> saState w = Completing then next_state RunApplication w else saState w)"
proof -
  obtain w1 where v: "book_view w1 = book_view w"
    "book_view (fst (AddAllocationAsk (Some r) w)) =
       book_view ((addAllocationAskInternal r
         (if saState w = New \<or> saState w = Completing then handleEvent RunApplication (drop_old r w1)
          else drop_old r w1))
         \<lparr>saPending := Prune (Add (saPending w) (SubFrom (Clone (resource_of w r)) (old_resource r w)))\<rparr>)"
    using AddAllocationAsk_eq [OF assms(1,2)] .
  note d = viewD [OF v(1)] and e = viewD [OF v(2)]
  have "next_state RunApplication (drop_old r w1) = next_state RunApplication w" by (simp add: next_state_def d)
  then show "saRequests (fst (AddAllocationAsk (Some r) w)) = AList.update (allocationKey (store w r)) r (saRequests w)"
    "saState (fst (AddAllocationAsk (Some r) w)) =
       (if saState w = New \<or> saState w = Completing then next_state RunApplication w else saState w)"
    using assms(3) by (simp_all add: e d run_view)
qed

definition app_steps :: "world \<Rightarrow> world \<Rightarrow> bool" where
  "app_steps = (\<lambda>w w'. small_world w \<and> app_op w w')\<^sup>*\<^sup>*"

lemma app_steps_ok: "app_steps w w' \<Longrightarrow> app_ok w \<Longrightarrow> app_ok w'"
  unfolding app_steps_def by (induction rule: rtranclp_induct) (auto intro: app_op_ok)

lemma new_app_ok:
  assumes "Application.truncate w = (NewApplication fsm siApp ugi timeout now)\<lparr>saQueue := queue\<rparr>" "fsm_documented fsm"
  shows "app_ok w"
proof -
  have "saMachine w = fsm" "saPending w = Some NewResource" "saRequests w = []" "saPendingPriorities w = []"
    "saAskMaxPriority w = MinPriority" "saAllocations w = []" "saAllocated w = Some NewResource"
    "saAllocatedPlaceholder w = Some NewResource"
    using assms(1) by (simp_all add: Application.defs NewApplication_def)
  then show ?thesis
    using assms(2)
    by (simp add: app_ok_def asks_ok_def pending_ok_def bound_ok_def allocs_ok_def amount_NewResource bands_ok_Nil)
qed

section \<open>Properties\<close>








section \<open>Deviations\<close>

text \<open>The placeholder timeout dereferences the placeholder data of every pending ask, also of a real ask
  whose task group never had a placeholder.\<close>

lemma timeout_without_placeholder_data:
  assumes "\<not> allocated (store w r)" "\<not> preempted (store w r)" "saPlaceholderData w = Some data"
    and "map_of data (taskGroupName (store w r)) = None"
  shows "timeoutAsks (r # rs) w = None"
  using assms by (simp add: SetReleased_def mutate_def Let_def)

text \<open>Rolling back a placeholder takes it off the allocated resource of the application, not off its
  placeholder resource.\<close>

lemma rollback_of_placeholder:
  assumes "saState w = Running" "map_of (saRequests w) key = Some r" "map_of (saAllocations w) key = Some r"
    and "allocated (store w r)" "placeholder (store w r)" "allocationKey (store w r) = key"
  defines "w' \<equiv> fst (RollbackAllocation key w)"
  shows "saAllocations w' = AList.delete key (saAllocations w)"
    "saAllocatedPlaceholder w' = saAllocatedPlaceholder w"
    "saAllocated w' = Prune (Sub (saAllocated w) (resource_of w r))"
proof -
  obtain w1 res where w1: "deallocateAsk r w = (w1, Inr res)"
    using assms(4) by (simp add: deallocateAsk_def Let_def)
  have "map_of (saRequests w) (allocationKey (store w r)) = Some r" using assms(2,6) by simp
  note f = deallocateAsk_fields [OF assms(4) this, unfolded w1, simplified]
  show "saAllocations w' = AList.delete key (saAllocations w)"
    "saAllocatedPlaceholder w' = saAllocatedPlaceholder w"
    "saAllocated w' = Prune (Sub (saAllocated w) (resource_of w r))"
    using assms(1-3) by (simp_all add: w'_def RollbackAllocation_def w1 f Let_def)
qed

text \<open>A new size for an allocated ask is booked on the allocated resource of the application, also when
  the ask is a placeholder or waits for the placeholder that it replaces and is not in the allocations.\<close>

lemma resize_books_allocated:
  fixes quota
  assumes "map_of (saRequests w) (allocationKey a) = Some r" "allocated (store w r)"
    and "\<not> IsZero (allocRes a)" "\<not> IsZero (Sub (Clone (allocRes a)) (Clone (resource_of w r)))"
  defines "w' \<equiv> fst (UpdateAllocationResources (Some a) quota w)"
  shows "saAllocated w' = Prune (Add (saAllocated w) (Prune (Sub (Clone (allocRes a)) (Clone (resource_of w r)))))"
    "saAllocatedPlaceholder w' = saAllocatedPlaceholder w" "saAllocations w' = saAllocations w"
proof -
  define w1 where "w1 = w\<lparr>saAllocated := Prune (Add (saAllocated w) (Prune (Sub (Clone (allocRes a)) (Clone (resource_of w r)))))\<rparr>"
  have "book_view w' = book_view (mutate r (\<lambda>b. b\<lparr>allocRes := Clone (allocRes a)\<rparr>) w1)"
    using assms(1-4) by (simp add: w'_def UpdateAllocationResources_def Let_def SetAllocatedResource_view w1_def)
      (simp add: book_view_def)
  note v = viewD [OF this]
  show "saAllocated w' = Prune (Add (saAllocated w) (Prune (Sub (Clone (allocRes a)) (Clone (resource_of w r)))))"
    "saAllocatedPlaceholder w' = saAllocatedPlaceholder w" "saAllocations w' = saAllocations w"
    by (simp_all add: v) (simp_all add: w1_def)
qed

text \<open>An ask that is sent again under the same key stays in the sorted requests next to the new one.\<close>

lemma sorted_priorities [simp]:
  "saSortedRequests (removeFromPriorities p w) = saSortedRequests w"
  "saSortedRequests (addAllocationAskInternal r w) = saSortedRequests w"
  by (simp_all add: removeFromPriorities_def addAllocationAskInternal_def addToPriorities_def setAskMaxPriority_def
      addPlaceholderData_def Let_def split: option.split)

lemma set_insertAt: "set (insertAt s i x) = insert x (set s)"
  unfolding insertAt_def by (metis append_take_drop_id list.simps(15) set_append Un_insert_right)

lemma resent_ask_stays_sorted:
  assumes "\<not> allocated (store w r)" "\<not> IsZero (resource_of w r)" "old \<in> set (saSortedRequests w)"
    and "saState w = Accepted"
  shows "old \<in> set (saSortedRequests (fst (AddAllocationAsk (Some r) w)))"
  using assms
  by (simp add: AddAllocationAsk_def Let_def insert_request_def set_insertAt split: option.split prod.split)

end
