(* ===== verification/Placement.thy ===== *)
theory Placement
  imports ConfigChecks QueueConf Applications
begin

text \<open>
  The placement of applications (\<open>pkg/scheduler/placement\<close>): the filters and rules, how they are built
  from the configuration, and the manager that runs the rules for an application. A rule asks the
  partition for queues by name; the argument \<open>queueFn\<close> is that lookup and the result is the path of the
  queue in the heap. The lookup of the partition, \<open>getQueueInternal\<close> of
  \<open>pkg/scheduler/partition.go\<close>, is defined here too. The argument \<open>regexp\<close> is \<open>regexp.Compile\<close> of the Go
  library: the matcher of an expression, \<open>None\<close> when it does not compile. The name of the tag that forces
  the creation of an application comes from the scheduler interface and is the argument \<open>forceTag\<close>.
\<close>

section \<open>Library\<close>

definition HasPrefix :: "string \<Rightarrow> string \<Rightarrow> bool" where
  "HasPrefix s p = prefix p s"

text \<open>\<open>strings.LastIndex\<close> for a separator of one byte.\<close>

definition LastIndex :: "string \<Rightarrow> char \<Rightarrow> nat option" where
  "LastIndex s sep = List.find (\<lambda>i. s ! i = sep) (rev [0..<length s])"

definition ParseBool :: "string \<Rightarrow> bool option" where
  "ParseBool s =
     (if s \<in> {''1'', ''t'', ''T'', ''TRUE'', ''true'', ''True''} then Some True
      else if s \<in> {''0'', ''f'', ''F'', ''FALSE'', ''false'', ''False''} then Some False
      else None)"

definition IsAppCreationForced :: "string \<Rightarrow> string gomap \<Rightarrow> bool" where
  "IsAppCreationForced forceTag tagMap =
     (case ParseBool (GetTag tagMap forceTag) of Some b \<Rightarrow> b | None \<Rightarrow> False)"

definition RecoveryQueueFull :: string where
  "RecoveryQueueFull = ''root.@recovery@''"

definition DefaultPlacementQueue :: string where
  "DefaultPlacementQueue = ''root.default''"

text \<open>The walk from the root queue down the parts of a name.\<close>

fun walkDown :: "qheap \<Rightarrow> qpath \<Rightarrow> string list \<Rightarrow> qpath option" where
  "walkDown h q [] = Some q"
| "walkDown h q (part # parts) =
     (if part \<in> set (children (h q)) then walkDown h (part # q) parts else None)"

definition getQueueInternal :: "qheap \<Rightarrow> string \<Rightarrow> qpath option" where
  "getQueueInternal h name =
     (case Split (ToLower name) CHR ''.'' of
        [] \<Rightarrow> None
      | part # parts \<Rightarrow> if part \<noteq> RootQueue then None else walkDown h [RootQueue] parts)"

section \<open>Filters\<close>

type_synonym regexp = "string \<Rightarrow> (string \<Rightarrow> bool) option"

record Filter =
  fAllow :: bool
  fEmpty :: bool
  fUserList :: "string list"
  fGroupList :: "string list"
  fUserExp :: "(string \<Rightarrow> bool) option"
  fGroupExp :: "(string \<Rightarrow> bool) option"

definition filterUser :: "Filter \<Rightarrow> string \<Rightarrow> bool" where
  "filterUser filt user =
     (case fUserExp filt of Some e \<Rightarrow> e user | None \<Rightarrow> user \<in> set (fUserList filt))"

definition filterGroup :: "Filter \<Rightarrow> string \<Rightarrow> bool" where
  "filterGroup filt grp =
     (case fGroupExp filt of Some e \<Rightarrow> e grp | None \<Rightarrow> grp \<in> set (fGroupList filt))"

definition allowUser :: "Filter \<Rightarrow> UserGroup \<Rightarrow> bool" where
  "allowUser filt userObj =
     (if fEmpty filt then fAllow filt
      else if filterUser filt (User userObj) then fAllow filt
      else if list_ex (filterGroup filt) (Groups userObj) then fAllow filt
      else \<not> fAllow filt)"

text \<open>The list or the expression for the names of a filter.\<close>

definition filterNames ::
    "regexp \<Rightarrow> (string \<Rightarrow> bool) \<Rightarrow> string list \<Rightarrow> string list \<times> (string \<Rightarrow> bool) option" where
  "filterNames regexp nameRegExp names =
     (case names of
        [name] \<Rightarrow>
          if SpecialRegExp name then ([], regexp name)
          else if nameRegExp name then ([name], None)
          else ([], None)
      | _ \<Rightarrow> (fold (\<lambda>name l. if nameRegExp name then List.insert name l else l) names [], None))"

definition newFilter :: "regexp \<Rightarrow> ruleFilter \<Rightarrow> Filter" where
  "newFilter regexp conf =
     (case (filterNames regexp configUserRegExp (filterUsers conf),
            filterNames regexp configGroupRegExp (filterGroups conf)) of
        ((userList, userExp), (groupList, groupExp)) \<Rightarrow>
          \<lparr>fAllow = filterType conf \<noteq> ''deny'',
           fEmpty = (filterUsers conf = [] \<and> filterGroups conf = []),
           fUserList = userList, fGroupList = groupList, fUserExp = userExp, fGroupExp = groupExp\<rparr>)"

section \<open>Rules\<close>

datatype rule =
    ProvidedRule (ruleCreated: bool) (parentRule: "rule option") (filterOf: Filter)
  | UserRule (ruleCreated: bool) (parentRule: "rule option") (filterOf: Filter)
  | FixedRule (ruleCreated: bool) (parentRule: "rule option") (filterOf: Filter)
      (fixedQueue: string) (fixedQualified: bool)
  | TagRule (ruleCreated: bool) (parentRule: "rule option") (filterOf: Filter) (ruleTag: string)
  | TestRule (ruleCreated: bool) (parentRule: "rule option") (filterOf: Filter)
  | RecoveryRule

datatype placement_error =
    InvalidPlacementName string
  | ParentRuleLeaf string
  | FixedNameUnset
  | FixedWithParent
  | TagNameUnset
  | RecoveryConfigured
  | UnknownRule string
  | NoRuleMatched

definition normalise :: "string \<Rightarrow> string" where
  "normalise name = ToLower name"

text \<open>\<open>strings.ReplaceAll(name, ".", "_dot_")\<close>\<close>

definition replaceDot :: "string \<Rightarrow> string" where
  "replaceDot name = concat (map (\<lambda>c. if c = CHR ''.'' then ''_dot_'' else [c]) name)"

subsection \<open>Building rules\<close>

text \<open>The argument \<open>parent\<close> is \<open>None\<close> when no parent is configured and the outcome of its \<open>newRule\<close>
  otherwise; every rule builds it last.\<close>

definition withParent ::
    "(placement_error + rule) option \<Rightarrow> (rule option \<Rightarrow> rule) \<Rightarrow> placement_error + rule" where
  "withParent parent mk =
     (case parent of
        None \<Rightarrow> Inr (mk None)
      | Some (Inl err) \<Rightarrow> Inl err
      | Some (Inr p) \<Rightarrow> Inr (mk (Some p)))"

definition providedRule_initialise ::
    "regexp \<Rightarrow> bool \<Rightarrow> ruleFilter \<Rightarrow> (placement_error + rule) option \<Rightarrow> placement_error + rule" where
  "providedRule_initialise regexp create filt parent =
     withParent parent (\<lambda>p. ProvidedRule create p (newFilter regexp filt))"

definition userRule_initialise ::
    "regexp \<Rightarrow> bool \<Rightarrow> ruleFilter \<Rightarrow> (placement_error + rule) option \<Rightarrow> placement_error + rule" where
  "userRule_initialise regexp create filt parent =
     withParent parent (\<lambda>p. UserRule create p (newFilter regexp filt))"

definition testRule_initialise ::
    "regexp \<Rightarrow> bool \<Rightarrow> ruleFilter \<Rightarrow> (placement_error + rule) option \<Rightarrow> placement_error + rule" where
  "testRule_initialise regexp create filt parent =
     withParent parent (\<lambda>p. TestRule create p (newFilter regexp filt))"

definition fixedRule_initialise ::
    "regexp \<Rightarrow> bool \<Rightarrow> ruleFilter \<Rightarrow> string \<Rightarrow> (placement_error + rule) option \<Rightarrow> placement_error + rule" where
  "fixedRule_initialise regexp create filt val parent =
     (let queue = normalise val
      in if queue = [] then Inl FixedNameUnset
         else case List.find (\<lambda>part. \<not> IsQueueNameValid part) (Split queue CHR ''.'') of
                Some part \<Rightarrow> Inl (InvalidPlacementName part)
              | None \<Rightarrow>
                  let qualified = HasPrefix queue RootQueue
                  in if qualified \<and> parent \<noteq> None then Inl FixedWithParent
                     else withParent parent (\<lambda>p. FixedRule create p (newFilter regexp filt) queue qualified))"

definition tagRule_initialise ::
    "regexp \<Rightarrow> bool \<Rightarrow> ruleFilter \<Rightarrow> string \<Rightarrow> (placement_error + rule) option \<Rightarrow> placement_error + rule" where
  "tagRule_initialise regexp create filt val parent =
     (if normalise val = [] then Inl TagNameUnset
      else withParent parent (\<lambda>p. TagRule create p (newFilter regexp filt) (normalise val)))"

fun newRule :: "regexp \<Rightarrow> PlacementRule \<Rightarrow> placement_error + rule" where
  "newRule regexp (PlacementRule name create filt par val) =
     (let parent = (case par of Some p \<Rightarrow> Some (newRule regexp p) | None \<Rightarrow> None);
          n = normalise name
      in if n = ''user'' then userRule_initialise regexp create filt parent
         else if n = ''fixed'' then fixedRule_initialise regexp create filt val parent
         else if n = ''provided'' then providedRule_initialise regexp create filt parent
         else if n = ''tag'' then tagRule_initialise regexp create filt val parent
         else if n = ''recovery'' then Inl RecoveryConfigured
         else if n = ''test'' then testRule_initialise regexp create filt parent
         else Inl (UnknownRule name))"

fun newRules :: "regexp \<Rightarrow> PlacementRule list \<Rightarrow> placement_error + rule list" where
  "newRules regexp [] = Inr []"
| "newRules regexp (conf # rules) =
     (case newRule regexp conf of
        Inl err \<Rightarrow> Inl err
      | Inr r \<Rightarrow> (case newRules regexp rules of Inl err \<Rightarrow> Inl err | Inr rs \<Rightarrow> Inr (r # rs)))"

definition providedOnly :: PlacementRule where
  "providedOnly =
     PlacementRule ''provided'' False \<lparr>filterType = [], filterUsers = [], filterGroups = []\<rparr> None []"

definition buildRules :: "regexp \<Rightarrow> PlacementRule list \<Rightarrow> placement_error + rule list" where
  "buildRules regexp rules =
     (case newRules regexp (if rules = [] then [providedOnly] else rules) of
        Inl err \<Rightarrow> Inl err
      | Inr rs \<Rightarrow> Inr (rs @ [RecoveryRule]))"

record AppPlacementManager =
  pmRules :: "rule list"

definition pm_initialise ::
    "regexp \<Rightarrow> AppPlacementManager \<Rightarrow> PlacementRule list \<Rightarrow> AppPlacementManager \<times> placement_error option" where
  "pm_initialise regexp m rules =
     (case buildRules regexp rules of
        Inl err \<Rightarrow> (m, Some err)
      | Inr rs \<Rightarrow> (m\<lparr>pmRules := rs\<rparr>, None))"

definition NewPlacementManager :: "regexp \<Rightarrow> PlacementRule list \<Rightarrow> AppPlacementManager" where
  "NewPlacementManager regexp rules = fst (pm_initialise regexp \<lparr>pmRules = []\<rparr> rules)"

definition UpdateRules ::
    "regexp \<Rightarrow> AppPlacementManager \<Rightarrow> PlacementRule list \<Rightarrow> AppPlacementManager \<times> placement_error option" where
  "UpdateRules regexp m rules = pm_initialise regexp m rules"

subsection \<open>Running rules\<close>

text \<open>The first part of a name that is not valid.\<close>

definition invalidPart :: "string \<Rightarrow> string option" where
  "invalidPart qname =
     List.find (\<lambda>part. \<not> IsQueueNameValid part) (Split qname CHR ''.'')"

text \<open>The parent queue of a name that is not fully qualified: the root queue without a parent rule, the
  result of the parent rule otherwise. The empty name stands for a parent rule that did not match.\<close>

definition parentName ::
    "qheap \<Rightarrow> (string \<Rightarrow> qpath option) \<Rightarrow> (placement_error + string) option \<Rightarrow> placement_error + string" where
  "parentName h queueFn parent =
     (case parent of
        None \<Rightarrow> Inr RootQueue
      | Some (Inl err) \<Rightarrow> Inl err
      | Some (Inr name) \<Rightarrow>
          if name = [] then Inr []
          else
            let name = (if HasPrefix name ''root.'' then name else ''root.'' @ name)
            in case queueFn name of
                 Some q \<Rightarrow> if isLeaf (h q) then Inl (ParentRuleLeaf name) else Inr name
               | None \<Rightarrow> Inr name)"

text \<open>A rule that may not create the queue only matches an existing one.\<close>

definition createCheck :: "(string \<Rightarrow> qpath option) \<Rightarrow> bool \<Rightarrow> string \<Rightarrow> placement_error + string" where
  "createCheck queueFn create qname =
     (if \<not> create \<and> queueFn qname = None then Inr [] else Inr qname)"

text \<open>A child queue below the parent queue.\<close>

definition placeBelow ::
    "qheap \<Rightarrow> (string \<Rightarrow> qpath option) \<Rightarrow> bool \<Rightarrow> (placement_error + string) option \<Rightarrow> string \<Rightarrow>
     placement_error + string" where
  "placeBelow h queueFn create parent child =
     (case parentName h queueFn parent of
        Inl err \<Rightarrow> Inl err
      | Inr name \<Rightarrow> if name = [] then Inr [] else createCheck queueFn create (name @ ''.'' @ child))"

text \<open>The name that a user gives, directly or in a tag.\<close>

definition placeNamed ::
    "qheap \<Rightarrow> (string \<Rightarrow> qpath option) \<Rightarrow> bool \<Rightarrow> (placement_error + string) option \<Rightarrow> string \<Rightarrow>
     placement_error + string" where
  "placeNamed h queueFn create parent qname =
     (if HasPrefix qname ''root.''
      then case invalidPart qname of
             Some part \<Rightarrow> Inl (InvalidPlacementName part)
           | None \<Rightarrow> createCheck queueFn create qname
      else
        let child = replaceDot qname
        in if \<not> IsQueueNameValid child then Inl (InvalidPlacementName child)
           else placeBelow h queueFn create parent child)"

definition providedRule_place ::
    "qheap \<Rightarrow> (string \<Rightarrow> qpath option) \<Rightarrow> Application \<Rightarrow> bool \<Rightarrow> Filter \<Rightarrow> (placement_error + string) option \<Rightarrow>
     placement_error + string" where
  "providedRule_place h queueFn app create filt parent =
     (if saQueuePath app = [] then Inr []
      else if \<not> allowUser filt (saUser app) then Inr []
      else placeNamed h queueFn create parent (saQueuePath app))"

definition userRule_place ::
    "qheap \<Rightarrow> (string \<Rightarrow> qpath option) \<Rightarrow> Application \<Rightarrow> bool \<Rightarrow> Filter \<Rightarrow> (placement_error + string) option \<Rightarrow>
     placement_error + string" where
  "userRule_place h queueFn app create filt parent =
     (if \<not> allowUser filt (saUser app) then Inr []
      else
        let child = replaceDot (User (saUser app))
        in if \<not> IsQueueNameValid child then Inl (InvalidPlacementName child)
           else placeBelow h queueFn create parent child)"

definition fixedRule_place ::
    "qheap \<Rightarrow> (string \<Rightarrow> qpath option) \<Rightarrow> Application \<Rightarrow> bool \<Rightarrow> Filter \<Rightarrow> string \<Rightarrow> bool \<Rightarrow>
     (placement_error + string) option \<Rightarrow> placement_error + string" where
  "fixedRule_place h queueFn app create filt queue qualified parent =
     (if \<not> allowUser filt (saUser app) then Inr []
      else if qualified then createCheck queueFn create queue
      else placeBelow h queueFn create parent queue)"

definition tagRule_place ::
    "qheap \<Rightarrow> (string \<Rightarrow> qpath option) \<Rightarrow> Application \<Rightarrow> bool \<Rightarrow> Filter \<Rightarrow> string \<Rightarrow>
     (placement_error + string) option \<Rightarrow> placement_error + string" where
  "tagRule_place h queueFn app create filt tagName parent =
     (let tagVal = GetTag (saTags app) tagName
      in if tagVal = [] then Inr []
         else if \<not> allowUser filt (saUser app) then Inr []
         else placeNamed h queueFn create parent tagVal)"

definition testRule_place :: "Application \<Rightarrow> placement_error + string" where
  "testRule_place app =
     (if saQueuePath app \<noteq> []
      then case invalidPart (saQueuePath app) of
             Some part \<Rightarrow> Inl (InvalidPlacementName part)
           | None \<Rightarrow> Inr (replaceDot (saQueuePath app))
      else Inr ''test'')"

definition recoveryRule_place :: "string \<Rightarrow> Application \<Rightarrow> placement_error + string" where
  "recoveryRule_place forceTag app =
     (if \<not> IsAppCreationForced forceTag (saTags app) then Inr [] else Inr RecoveryQueueFull)"

fun placeApplication ::
    "string \<Rightarrow> qheap \<Rightarrow> (string \<Rightarrow> qpath option) \<Rightarrow> Application \<Rightarrow> rule \<Rightarrow> placement_error + string"
where
  "placeApplication ft h queueFn app (ProvidedRule create par filt) =
     providedRule_place h queueFn app create filt
       (case par of Some p \<Rightarrow> Some (placeApplication ft h queueFn app p) | None \<Rightarrow> None)"
| "placeApplication ft h queueFn app (UserRule create par filt) =
     userRule_place h queueFn app create filt
       (case par of Some p \<Rightarrow> Some (placeApplication ft h queueFn app p) | None \<Rightarrow> None)"
| "placeApplication ft h queueFn app (FixedRule create par filt queue qualified) =
     fixedRule_place h queueFn app create filt queue qualified
       (case par of Some p \<Rightarrow> Some (placeApplication ft h queueFn app p) | None \<Rightarrow> None)"
| "placeApplication ft h queueFn app (TagRule create par filt tagName) =
     tagRule_place h queueFn app create filt tagName
       (case par of Some p \<Rightarrow> Some (placeApplication ft h queueFn app p) | None \<Rightarrow> None)"
| "placeApplication ft h queueFn app (TestRule create par filt) = testRule_place app"
| "placeApplication ft h queueFn app RecoveryRule = recoveryRule_place ft app"

section \<open>The placement manager\<close>

text \<open>The walk up the tree: the name is cut at its last dot until a queue is found. Without a dot the
  slice expression panics, which is \<open>None\<close>.\<close>

function nearestQueue :: "(string \<Rightarrow> qpath option) \<Rightarrow> string \<Rightarrow> qpath option" where
  "nearestQueue queueFn current =
     (case LastIndex current CHR ''.'' of
        None \<Rightarrow> None
      | Some i \<Rightarrow>
          (case queueFn (take i current) of
             Some q \<Rightarrow> Some q
           | None \<Rightarrow> nearestQueue queueFn (take i current)))"
  by pat_completeness auto
termination
  by (relation "measure (\<lambda>(_, current). length current)")
    (auto simp: LastIndex_def find_Some_iff rev_nth)

declare nearestQueue.simps [simp del]

text \<open>The check of the name that a rule returned, in the body of the loop of \<open>PlaceApplication\<close>.\<close>

definition acceptsQueue ::
    "qheap \<Rightarrow> (string \<Rightarrow> qpath option) \<Rightarrow> UserGroup \<Rightarrow> string \<Rightarrow> bool option" where
  "acceptsQueue h queueFn user qname =
     (case queueFn qname of
        None \<Rightarrow> map_option (\<lambda>q. CheckSubmitAccess h q user) (nearestQueue queueFn qname)
      | Some q \<Rightarrow>
          if \<not> isLeaf (h q) then Some False
          else if \<not> CheckSubmitAccess h q user then Some False
          else if stateMachine (h q) = Draining then Some False
          else Some True)"

text \<open>The loop over the rules. The result is \<open>None\<close> for the panic, an error, or the name of the queue,
  which is empty when no rule matched.\<close>

fun placeLoop ::
    "string \<Rightarrow> qheap \<Rightarrow> (string \<Rightarrow> qpath option) \<Rightarrow> Application \<Rightarrow> rule list \<Rightarrow>
     (placement_error + string) option" where
  "placeLoop ft h queueFn app [] = Some (Inr [])"
| "placeLoop ft h queueFn app (checkRule # rules) =
     (case placeApplication ft h queueFn app checkRule of
        Inl err \<Rightarrow> Some (Inl err)
      | Inr qname \<Rightarrow>
          let qname =
                (if rules = [] \<and> qname = [] \<and> queueFn DefaultPlacementQueue \<noteq> None
                 then DefaultPlacementQueue else qname)
          in if qname = [] then placeLoop ft h queueFn app rules
             else if qname = RecoveryQueueFull \<and> IsAppCreationForced ft (saTags app)
             then Some (Inr qname)
             else case acceptsQueue h queueFn (saUser app) qname of
                    None \<Rightarrow> None
                  | Some True \<Rightarrow> Some (Inr qname)
                  | Some False \<Rightarrow> placeLoop ft h queueFn app rules)"

definition PlaceApplication ::
    "string \<Rightarrow> qheap \<Rightarrow> (string \<Rightarrow> qpath option) \<Rightarrow> AppPlacementManager \<Rightarrow> Application \<Rightarrow>
     (Application \<times> placement_error option) option" where
  "PlaceApplication ft h queueFn m app =
     (case placeLoop ft h queueFn app (pmRules m) of
        None \<Rightarrow> None
      | Some (Inl err) \<Rightarrow> Some (app\<lparr>saQueuePath := []\<rparr>, Some err)
      | Some (Inr qname) \<Rightarrow>
          if qname = [] then Some (app\<lparr>saQueuePath := []\<rparr>, Some NoRuleMatched)
          else Some (app\<lparr>saQueuePath := qname\<rparr>, None))"

text \<open>A root queue where alice may submit, a leaf queue \<open>root.default\<close>, a parent queue, and applications
  that ask for a queue.\<close>

definition placementHeap :: qheap where
  "placementHeap =
     (\<lambda>_. newBlankQueue)
       ([''root''] := newBlankQueue\<lparr>children := [''default'', ''teams''], submitACL := fst (NewACL ''alice'')\<rparr>,
        [''default'', ''root''] := newBlankQueue\<lparr>isLeaf := True\<rparr>)"

definition submitted :: "string \<Rightarrow> string \<Rightarrow> Application" where
  "submitted user qname =
     NewApplication looplab_event
       \<lparr>siAppID = ''app-1'', siQueueName = qname, siAppTags = [], siPlaceholderAsk = Some [],
        siGangStyle = ''Soft''\<rparr>
       \<lparr>User = user, Groups = []\<rparr> 0 0"

definition noFilter :: ruleFilter where
  "noFilter = \<lparr>filterType = [], filterUsers = [], filterGroups = []\<rparr>"

definition exampleRules :: "PlacementRule list" where
  "exampleRules =
     [PlacementRule ''provided'' False noFilter None [],
      PlacementRule ''user'' True noFilter (Some (PlacementRule ''fixed'' True noFilter None ''teams'')) []]"

section \<open>Specification\<close>

text \<open>A name that starts at the root queue, and a name whose parts are valid names.\<close>

definition qualified_name :: "string \<Rightarrow> bool" where
  "qualified_name s \<longleftrightarrow> s = RootQueue \<or> HasPrefix s ''root.''"

definition parts_valid :: "string \<Rightarrow> bool" where
  "parts_valid s \<longleftrightarrow> list_all IsQueueNameValid (Split s CHR ''.'')"

text \<open>The rules that a configuration should hold: the test rule is not part of the chain of parents, and a
  fixed queue that is taken as qualified is the root queue or a queue below it.\<close>

definition conf_rule_ok :: "PlacementRule \<Rightarrow> bool" where
  "conf_rule_ok r \<longleftrightarrow>
     list_all (\<lambda>r. normalise (ruleName r) \<noteq> ''test'') (getRuleChain r) \<and>
     (normalise (ruleName r) = ''fixed'' \<and> HasPrefix (normalise (ruleValue r)) RootQueue \<longrightarrow>
      qualified_name (normalise (ruleValue r)))"

fun chain_ok :: "rule \<Rightarrow> bool" where
  "chain_ok (ProvidedRule _ par _) = (case par of Some p \<Rightarrow> chain_ok p | None \<Rightarrow> True)"
| "chain_ok (UserRule _ par _) = (case par of Some p \<Rightarrow> chain_ok p | None \<Rightarrow> True)"
| "chain_ok (FixedRule _ par _ queue _) =
     (parts_valid queue \<and> (case par of Some p \<Rightarrow> chain_ok p | None \<Rightarrow> True))"
| "chain_ok (TagRule _ par _ _) = (case par of Some p \<Rightarrow> chain_ok p | None \<Rightarrow> True)"
| "chain_ok (TestRule _ _ _) = False"
| "chain_ok RecoveryRule = True"

definition rule_ok :: "rule \<Rightarrow> bool" where
  "rule_ok r \<longleftrightarrow> chain_ok r \<and>
     (case r of FixedRule _ _ _ queue qualified \<Rightarrow> qualified \<longrightarrow> qualified_name queue | _ \<Rightarrow> True)"

section \<open>Names\<close>

lemma LastIndex_None: "LastIndex s c = None \<longleftrightarrow> c \<notin> set s"
  by (auto simp: LastIndex_def find_None_iff in_set_conv_nth)

lemma LastIndex_Some:
  assumes "LastIndex s c = Some i"
  shows "i < length s" "s = take i s @ c # drop (Suc i) s" "c \<notin> set (drop (Suc i) s)"
proof -
  obtain j where j: "j < length s" "s ! i = c" "i = length s - Suc j"
      "\<And>k. k < j \<Longrightarrow> s ! (length s - Suc k) \<noteq> c"
    using assms by (auto simp: LastIndex_def find_Some_iff rev_nth)
  show i: "i < length s" using j(1,3) by simp
  show "s = take i s @ c # drop (Suc i) s" using id_take_nth_drop [OF i] j(2) by simp
  show "c \<notin> set (drop (Suc i) s)"
  proof
    assume "c \<in> set (drop (Suc i) s)"
    then obtain k where "k < length s - Suc i" "s ! (Suc i + k) = c" by (auto simp: in_set_conv_nth)
    then show False using j(4) [of "length s - Suc (Suc i + k)"] j(1,3) by (simp add: Suc_diff_Suc)
  qed
qed

lemma Split_snoc: "sep \<notin> set t \<Longrightarrow> Split (s @ sep # t) sep = Split s sep @ [t]"
  by (induction s) (auto simp: Split_no_sep split: list.split)

lemma Split_append_Split: "Split (s @ sep # t) sep = Split s sep @ Split t sep"
  by (induction s) (auto split: list.split)

lemma lower_char_dot [simp]: "lower_char c = CHR ''.'' \<longleftrightarrow> c = CHR ''.''"
proof
  assume a: "lower_char c = CHR ''.''"
  show "c = CHR ''.''"
  proof (cases "is_upper c")
    case True
    then have "(of_char c :: nat) + 32 \<noteq> 46" "(of_char c :: nat) + 32 < 256" by (auto simp: is_upper_def)
    moreover have "of_char (lower_char c) = (of_char c :: nat) + 32"
      using True calculation(2) by (simp add: lower_char_def of_char_of take_bit_eq_mod)
    ultimately show ?thesis using a by simp
  qed (use a in \<open>simp add: lower_char_def\<close>)
qed (simp add: lower_char_def is_upper_def)

lemma LastIndex_ToLower: "LastIndex (ToLower s) CHR ''.'' = LastIndex s CHR ''.''"
proof -
  have "(\<lambda>i. ToLower s ! i = CHR ''.'') i = (\<lambda>i. s ! i = CHR ''.'') i"
    if "i \<in> set (rev [0..<length s])" for i
    using that by (simp add: ToLower_def)
  then show ?thesis
    by (auto simp: LastIndex_def ToLower_def intro!: find_cong)
qed

section \<open>The lookup of queues\<close>

text \<open>The lookup by the parts of a name.\<close>

definition lookupParts :: "qheap \<Rightarrow> string list \<Rightarrow> qpath option" where
  "lookupParts h parts =
     (case parts of [] \<Rightarrow> None | part # ps \<Rightarrow> if part \<noteq> RootQueue then None else walkDown h [RootQueue] ps)"

lemma getQueueInternal_parts: "getQueueInternal h s = lookupParts h (Split (ToLower s) CHR ''.'')"
  by (simp add: getQueueInternal_def lookupParts_def)

lemma walkDown_append:
  "walkDown h q (xs @ ys) = (case walkDown h q xs of None \<Rightarrow> None | Some q' \<Rightarrow> walkDown h q' ys)"
  by (induction xs arbitrary: q) auto

lemma walkDown_Some: "walkDown h q xs = Some q' \<Longrightarrow> q' = rev xs @ q"
  by (induction xs arbitrary: q) (auto split: if_splits)

lemma lookupParts_Some: "lookupParts h parts = Some q \<Longrightarrow> q = rev parts"
  by (auto simp: lookupParts_def dest: walkDown_Some split: list.splits if_splits)

lemma lookupParts_snoc:
  "parts \<noteq> [] \<Longrightarrow> lookupParts h (parts @ [part]) =
     (case lookupParts h parts of
        None \<Rightarrow> None
      | Some q \<Rightarrow> if part \<in> set (children (h q)) then Some (part # q) else None)"
  by (cases parts) (auto simp: lookupParts_def walkDown_append split: option.split)

lemma nearestQueue_parts:
  assumes "nearestQueue (getQueueInternal h) s = Some q" "getQueueInternal h s = None"
  shows "\<exists>ws part vs. Split (ToLower s) CHR ''.'' = ws @ part # vs \<and> ws \<noteq> [] \<and>
    lookupParts h ws = Some q \<and> part \<notin> set (children (h q))"
  using assms
proof (induction s rule: measure_induct_rule [of length])
  case (less s)
  obtain i where i: "LastIndex s CHR ''.'' = Some i"
    using less.prems(1) by (auto simp: nearestQueue.simps [of _ s] split: option.splits)
  define part where part: "part = drop (Suc i) (ToLower s)"
  have "LastIndex (ToLower s) CHR ''.'' = Some i" using i by (simp add: LastIndex_ToLower)
  note last = LastIndex_Some [OF this]
  have split: "Split (ToLower s) CHR ''.'' = Split (ToLower (take i s)) CHR ''.'' @ [part]"
    using Split_snoc [OF last(3), of "take i (ToLower s)"] last(2)
    by (simp add: part ToLower_def take_map)
  show ?case
  proof (cases "getQueueInternal h (take i s)")
    case (Some q')
    then have "q' = q" using less.prems(1) i by (simp add: nearestQueue.simps [of _ s])
    then show ?thesis
      using Some less.prems(2) split
      by (intro exI [of _ "Split (ToLower (take i s)) CHR ''.''"] exI [of _ part] exI [of _ "[]"])
        (auto simp: getQueueInternal_parts lookupParts_snoc split: option.splits if_splits)
  next
    case None
    have "nearestQueue (getQueueInternal h) (take i s) = Some q"
      using less.prems(1) i None by (simp add: nearestQueue.simps [of _ s])
    moreover have "length (take i s) < length s" using LastIndex_Some(1) [OF i] by simp
    ultimately obtain ws p vs where
      "Split (ToLower (take i s)) CHR ''.'' = ws @ p # vs" "ws \<noteq> []"
      "lookupParts h ws = Some q" "p \<notin> set (children (h q))"
      using less.IH [of "take i s"] None by blast
    then show ?thesis
      using split by (intro exI [of _ ws] exI [of _ p] exI [of _ "vs @ [part]"]) simp
  qed
qed

section \<open>The names that rules return\<close>

lemma parts_valid_append: "parts_valid (s @ ''.'' @ t) \<longleftrightarrow> parts_valid s \<and> parts_valid t"
  by (simp add: parts_valid_def Split_append_Split)

lemma valid_no_dot: "IsQueueNameValid s \<Longrightarrow> CHR ''.'' \<notin> set s"
  by (auto simp: IsQueueNameValid_def QueueNameRegExp_def list_all_iff in_class_def is_letter_def
      is_upper_def is_lower_def is_digit_def)

lemma parts_valid_name: "IsQueueNameValid s \<Longrightarrow> parts_valid s"
  by (simp add: parts_valid_def Split_no_sep valid_no_dot)

lemma parts_valid_root: "parts_valid RootQueue" "parts_valid RecoveryQueueFull" "parts_valid DefaultPlacementQueue"
  by code_simp+

lemma invalidPart_None: "invalidPart s = None \<longleftrightarrow> parts_valid s"
  by (auto simp: invalidPart_def parts_valid_def find_None_iff list_all_iff)

lemma parentName_valid:
  assumes "parentName h queueFn parent = Inr name" "name \<noteq> []"
    "\<And>n. parent = Some (Inr n) \<Longrightarrow> n \<noteq> [] \<Longrightarrow> parts_valid n"
  shows "parts_valid name" "qualified_name name"
proof -
  have "parts_valid name \<and> qualified_name name"
  proof (cases parent)
    case None
    then show ?thesis using assms(1) by (auto simp: parentName_def qualified_name_def parts_valid_root)
  next
    case (Some r)
    then obtain n where n: "parent = Some (Inr n)" "n \<noteq> []"
        "name = (if HasPrefix n ''root.'' then n else ''root.'' @ n)"
      using assms(1,2) by (auto simp: parentName_def Let_def split: sum.splits if_splits option.splits)
    have "parts_valid (''root.'' @ n)"
      using parts_valid_append [of "''root''" n] parts_valid_root(1) assms(3) [OF n(1,2)]
      by (simp add: RootQueue_def)
    then show ?thesis using n(3) assms(3) [OF n(1,2)] by (simp add: qualified_name_def HasPrefix_def)
  qed
  then show "parts_valid name" "qualified_name name" by auto
qed

lemma qualified_append: "qualified_name s \<Longrightarrow> qualified_name (s @ ''.'' @ t)"
  by (auto simp: qualified_name_def HasPrefix_def RootQueue_def prefix_def)

lemma placeBelow_valid:
  assumes "placeBelow h queueFn create parent child = Inr name" "name \<noteq> []" "parts_valid child"
    "\<And>n. parent = Some (Inr n) \<Longrightarrow> n \<noteq> [] \<Longrightarrow> parts_valid n"
  shows "parts_valid name \<and> qualified_name name"
proof -
  obtain p where "parentName h queueFn parent = Inr p" "p \<noteq> []" "name = p @ ''.'' @ child"
    using assms(1,2) by (auto simp: placeBelow_def createCheck_def split: sum.splits if_splits)
  then show ?thesis
    using parentName_valid [of h queueFn parent p] assms(3,4) parts_valid_append qualified_append by blast
qed

lemma placeNamed_valid:
  assumes "placeNamed h queueFn create parent target = Inr name" "name \<noteq> []"
    "\<And>n. parent = Some (Inr n) \<Longrightarrow> n \<noteq> [] \<Longrightarrow> parts_valid n"
  shows "parts_valid name \<and> qualified_name name"
proof (cases "HasPrefix target ''root.''")
  case True
  then show ?thesis
    using assms(1,2) by (auto simp: placeNamed_def createCheck_def qualified_name_def
        invalidPart_None split: option.splits if_splits)
next
  case False
  then show ?thesis
    using assms placeBelow_valid [of h queueFn create parent "replaceDot target" name]
    by (auto simp: placeNamed_def Let_def parts_valid_name split: if_splits)
qed

lemma placeApplication_valid:
  assumes "chain_ok r" "placeApplication ft h queueFn app r = Inr name" "name \<noteq> []"
  shows "parts_valid name"
  using assms
proof (induction ft h queueFn app r arbitrary: name rule: placeApplication.induct)
  case (1 ft h queueFn app create par filt)
  then show ?case
    by (auto simp: providedRule_place_def split: if_splits option.splits dest: placeNamed_valid)
next
  case (2 ft h queueFn app create par filt)
  then show ?case
    by (auto simp: userRule_place_def Let_def parts_valid_name split: if_splits option.splits
        dest: placeBelow_valid)
next
  case (3 ft h queueFn app create par filt queue ql)
  then show ?case
    by (auto simp: fixedRule_place_def createCheck_def split: if_splits option.splits
        dest: placeBelow_valid)
next
  case (4 ft h queueFn app create par filt tagName)
  then show ?case
    by (auto simp: tagRule_place_def Let_def split: if_splits option.splits dest: placeNamed_valid)
next
  case (6 ft h queueFn app)
  then show ?case by (auto simp: recoveryRule_place_def parts_valid_root split: if_splits)
qed simp

lemma placeApplication_qualified:
  assumes "rule_ok r" "placeApplication ft h queueFn app r = Inr name" "name \<noteq> []"
  shows "qualified_name name"
proof -
  have chain: "\<And>p n. parentRule r = Some p \<Longrightarrow> placeApplication ft h queueFn app p = Inr n \<Longrightarrow> n \<noteq> [] \<Longrightarrow> r \<noteq> RecoveryRule \<Longrightarrow>
      parts_valid n"
    using assms(1) placeApplication_valid by (cases r) (auto simp: rule_ok_def)
  show ?thesis
    using assms chain
    by (cases r) (auto simp: rule_ok_def providedRule_place_def userRule_place_def fixedRule_place_def
        createCheck_def tagRule_place_def recoveryRule_place_def Let_def parts_valid_name
        qualified_name_def RecoveryQueueFull_def HasPrefix_def split: if_splits option.splits
        dest!: placeNamed_valid placeBelow_valid)
qed

section \<open>Rules that are built from the configuration\<close>

lemma newRule_chain_ok:
  assumes "newRule regexp conf = Inr r" "list_all (\<lambda>r. normalise (ruleName r) \<noteq> ''test'') (getRuleChain conf)"
  shows "chain_ok r"
  using assms
proof (induction regexp conf arbitrary: r rule: newRule.induct)
  case (1 regexp name create filt par val)
  have fixed: "List.find (\<lambda>part. \<not> IsQueueNameValid part) (Split s CHR ''.'') = None \<longleftrightarrow> parts_valid s" for s
    using invalidPart_None by (simp add: invalidPart_def)
  show ?case
    using 1 by (cases par) (auto simp: userRule_initialise_def fixedRule_initialise_def
        providedRule_initialise_def tagRule_initialise_def withParent_def Let_def fixed
        split: if_splits option.splits sum.splits)
qed

lemma newRule_rule_ok:
  assumes "newRule regexp conf = Inr r" "conf_rule_ok conf"
  shows "rule_ok r"
proof -
  have "chain_ok r" using assms newRule_chain_ok by (simp add: conf_rule_ok_def)
  moreover obtain name create filt par val where c: "conf = PlacementRule name create filt par val"
    by (cases conf)
  ultimately show ?thesis
    using assms unfolding c
    by (auto simp: conf_rule_ok_def rule_ok_def userRule_initialise_def fixedRule_initialise_def
        providedRule_initialise_def tagRule_initialise_def testRule_initialise_def withParent_def Let_def
        split: if_splits option.splits sum.splits)
qed

lemma newRules_ok:
  "newRules regexp confs = Inr rs \<Longrightarrow> list_all conf_rule_ok confs \<Longrightarrow> list_all rule_ok rs"
  by (induction confs arbitrary: rs) (auto dest: newRule_rule_ok split: sum.splits)

lemma buildRules_ok:
  assumes "buildRules regexp confs = Inr rs" "list_all conf_rule_ok confs"
  shows "list_all rule_ok rs"
proof -
  have "list_all conf_rule_ok (if confs = [] then [providedOnly] else confs)"
    using assms(2) by (simp add: conf_rule_ok_def providedOnly_def normalise_def ToLower_def lower_char_def is_upper_def)
  then show ?thesis
    using assms(1) newRules_ok
    by (auto simp: buildRules_def rule_ok_def split: sum.splits)
qed

section \<open>Placement with the queues of a partition\<close>

text \<open>What the placement manager relies on: the partition has a root queue.\<close>

locale queue_lookup =
  fixes queueFn :: "string \<Rightarrow> qpath option"
  assumes root_found: "queueFn RootQueue \<noteq> None"
begin

lemma nearest_returns:
  "HasPrefix s ''root.'' \<Longrightarrow> nearestQueue queueFn s \<noteq> None"
proof (induction s rule: measure_induct_rule [of length])
  case (less s)
  then obtain t where s: "s = ''root'' @ CHR ''.'' # t" by (auto simp: HasPrefix_def prefix_def)
  then obtain i where i: "LastIndex s CHR ''.'' = Some i"
    using LastIndex_None [of s "CHR ''.''"] by (cases "LastIndex s CHR ''.''") auto
  note last = LastIndex_Some [OF i]
  have "\<not> i < 4"
  proof
    assume "i < 4"
    then have "drop (Suc i) s = drop (Suc i) ''root'' @ CHR ''.'' # t"
      by (subst s, subst drop_append) simp
    then show False using last(3) by auto
  qed
  then consider "i = 4" | "i \<ge> 5" by linarith
  then show ?case
  proof cases
    case 1
    then have "take i s = RootQueue" by (simp add: s RootQueue_def)
    then show ?thesis using root_found i by (auto simp: nearestQueue.simps [of _ s] split: option.split)
  next
    case 2
    then have "HasPrefix (take i s) ''root.''"
      by (simp add: s HasPrefix_def take_Cons' numeral_eq_Suc)
    then show ?thesis
      using less.IH [of "take i s"] last(1) i by (auto simp: nearestQueue.simps [of _ s] split: option.split)
  qed
qed

lemma nearest_qualified: "qualified_name s \<Longrightarrow> queueFn s = None \<Longrightarrow> nearestQueue queueFn s \<noteq> None"
  using nearest_returns root_found by (auto simp: qualified_name_def)

lemma loop_returns:
  assumes "list_all rule_ok rules"
  shows "\<exists>r. placeLoop ft h queueFn app rules = Some r \<and>
    (\<forall>name. r = Inr name \<longrightarrow> name \<noteq> [] \<longrightarrow> qualified_name name \<and> parts_valid name)"
  using assms
proof (induction rules)
  case (Cons r rules)
  obtain r' where IH: "placeLoop ft h queueFn app rules = Some r'"
    "\<And>name. r' = Inr name \<Longrightarrow> name \<noteq> [] \<Longrightarrow> qualified_name name \<and> parts_valid name"
    using Cons by auto
  have ok: "rule_ok r" "chain_ok r" using Cons.prems by (auto simp: rule_ok_def)
  show ?case
  proof (cases "placeApplication ft h queueFn app r")
    case (Inr name)
    define qname where qname: "qname =
      (if rules = [] \<and> name = [] \<and> queueFn DefaultPlacementQueue \<noteq> None then DefaultPlacementQueue else name)"
    have valid: "qname \<noteq> [] \<Longrightarrow> qualified_name qname \<and> parts_valid qname"
      using placeApplication_qualified [OF ok(1) Inr] placeApplication_valid [OF ok(2) Inr] parts_valid_root(3)
      by (auto simp: qname qualified_name_def HasPrefix_def DefaultPlacementQueue_def)
    have "qname \<noteq> [] \<Longrightarrow> acceptsQueue h queueFn (saUser app) qname \<noteq> None"
      using valid nearest_qualified by (auto simp: acceptsQueue_def split: option.split)
    then show ?thesis
      using IH valid unfolding placeLoop.simps Inr sum.case Let_def qname [symmetric]
      by (cases "acceptsQueue h queueFn (saUser app) qname") (auto split: bool.split)
  qed simp
qed simp

end

interpretation partition_lookup: queue_lookup "getQueueInternal h" for h
  by unfold_locales (simp add: getQueueInternal_def RootQueue_def ToLower_def lower_char_def is_upper_def)

section \<open>Properties of the placement\<close>

text \<open>C12. The placement of an application always returns. The walk up the tree from the name that a rule
  returned ends at a queue of the partition, it never runs past the root queue, for the rules of every
  configuration without the test rule whose qualified fixed queues are the root queue or start with
  \<open>root.\<close>. A placed application has a qualified queue path with valid parts, an application that is not
  placed has no queue path.\<close>

theorem placement_returns:
  assumes "buildRules regexp confs = Inr rules" "list_all conf_rule_ok confs"
  shows "\<exists>app' err. PlaceApplication ft h (getQueueInternal h) \<lparr>pmRules = rules\<rparr> app = Some (app', err) \<and>
    (case err of
       None \<Rightarrow> qualified_name (saQueuePath app') \<and> parts_valid (saQueuePath app')
     | Some _ \<Rightarrow> saQueuePath app' = [])"
proof -
  obtain r where "placeLoop ft h (getQueueInternal h) app rules = Some r"
    "\<And>name. r = Inr name \<Longrightarrow> name \<noteq> [] \<Longrightarrow> qualified_name name \<and> parts_valid name"
    using partition_lookup.loop_returns [OF buildRules_ok [OF assms], where app = app] by blast
  then show ?thesis by (cases r) (auto simp: PlaceApplication_def)
qed

theorem placement_returns_witness:
  "\<exists>rules. buildRules (\<lambda>_. None) exampleRules = Inr rules \<and> length rules = 3 \<and>
   (\<exists>app' err. PlaceApplication ''force'' placementHeap (getQueueInternal placementHeap) \<lparr>pmRules = rules\<rparr>
        (submitted ''alice'' ''sandbox'') = Some (app', err) \<and>
      (case err of
         None \<Rightarrow> qualified_name (saQueuePath app') \<and> parts_valid (saQueuePath app')
       | Some _ \<Rightarrow> saQueuePath app' = []))"
proof -
  have "(case buildRules (\<lambda>_. None) exampleRules of Inr rules \<Rightarrow> length rules = 3 | Inl _ \<Rightarrow> False)"
    by code_simp
  then obtain rules where b: "buildRules (\<lambda>_. None) exampleRules = Inr rules" "length rules = 3"
    by (auto split: sum.splits)
  have "list_all conf_rule_ok exampleRules" by code_simp
  then show ?thesis using b placement_returns [OF b(1)] by blast
qed

text \<open>The queues that an application may be placed in: the recovery queue for a forced application, an
  active or stopped leaf queue where the user may submit, or a new queue below the lowest queue of the
  path that exists, where the user may submit too.\<close>

definition admitted :: "string \<Rightarrow> qheap \<Rightarrow> Application \<Rightarrow> string \<Rightarrow> bool" where
  "admitted ft h app name \<longleftrightarrow>
     name = RecoveryQueueFull \<and> IsAppCreationForced ft (saTags app) \<or>
     (\<exists>q. getQueueInternal h name = Some q \<and> isLeaf (h q) \<and> CheckSubmitAccess h q (saUser app) \<and>
        stateMachine (h q) \<noteq> Draining) \<or>
     (\<exists>ws part vs. Split (ToLower name) CHR ''.'' = ws @ part # vs \<and> ws \<noteq> [] \<and>
        lookupParts h ws = Some (rev ws) \<and> part \<notin> set (children (h (rev ws))) \<and>
        CheckSubmitAccess h (rev ws) (saUser app))"

lemma acceptsQueue_admits:
  assumes "acceptsQueue h (getQueueInternal h) (saUser app) name = Some True"
  shows "admitted ft h app name"
proof (cases "getQueueInternal h name")
  case None
  then obtain q where q: "nearestQueue (getQueueInternal h) name = Some q" "CheckSubmitAccess h q (saUser app)"
    using assms by (auto simp: acceptsQueue_def)
  then show ?thesis
    using nearestQueue_parts [OF q(1) None] lookupParts_Some unfolding admitted_def by metis
qed (use assms in \<open>auto simp: acceptsQueue_def admitted_def split: if_splits\<close>)

lemma placeLoop_admits:
  "placeLoop ft h (getQueueInternal h) app rules = Some (Inr name) \<Longrightarrow> name \<noteq> [] \<Longrightarrow> admitted ft h app name"
proof (induction rules)
  case (Cons r rules)
  obtain n where n: "placeApplication ft h (getQueueInternal h) app r = Inr n"
    using Cons.prems(1) by (auto split: sum.splits)
  define qname where qname: "qname =
      (if rules = [] \<and> n = [] \<and> getQueueInternal h DefaultPlacementQueue \<noteq> None then DefaultPlacementQueue else n)"
  have "placeLoop ft h (getQueueInternal h) app rules = Some (Inr name) \<or>
      name = qname \<and> (qname = RecoveryQueueFull \<and> IsAppCreationForced ft (saTags app) \<or>
        acceptsQueue h (getQueueInternal h) (saUser app) qname = Some True)"
    using Cons.prems(1) unfolding placeLoop.simps n sum.case Let_def qname [symmetric]
    by (auto split: if_splits option.splits bool.splits)
  then show ?case
    using Cons acceptsQueue_admits by (auto simp: admitted_def)
qed simp

text \<open>C9. An application is only placed where its user may submit. A successful placement is in the
  recovery queue, for a forced application only, in an existing leaf queue that is not draining and
  where the user has submit access, or in a queue that does not exist yet below the lowest existing
  queue of its path, where the user has submit access.\<close>

theorem placed_application_admitted:
  assumes "PlaceApplication ft h (getQueueInternal h) m app = Some (app', None)"
  shows "admitted ft h app (saQueuePath app') \<and> app' = app\<lparr>saQueuePath := saQueuePath app'\<rparr>"
  using assms placeLoop_admits [of ft h app "pmRules m"]
  by (auto simp: PlaceApplication_def split: option.splits sum.splits if_splits)

theorem placed_application_admitted_witness:
  "\<exists>app'. PlaceApplication ''force'' placementHeap (getQueueInternal placementHeap)
       (NewPlacementManager (\<lambda>_. None) exampleRules) (submitted ''alice'' ''sandbox'') = Some (app', None) \<and>
     saQueuePath app' = ''root.teams.alice'' \<and>
     admitted ''force'' placementHeap (submitted ''alice'' ''sandbox'') (saQueuePath app')"
proof -
  have "map_option (\<lambda>(app, err). (saQueuePath app, err))
      (PlaceApplication ''force'' placementHeap (getQueueInternal placementHeap)
        (NewPlacementManager (\<lambda>_. None) exampleRules) (submitted ''alice'' ''sandbox'')) =
    Some (''root.teams.alice'', None)"
    by code_simp
  then obtain app' where "PlaceApplication ''force'' placementHeap (getQueueInternal placementHeap)
      (NewPlacementManager (\<lambda>_. None) exampleRules) (submitted ''alice'' ''sandbox'') = Some (app', None)"
    "saQueuePath app' = ''root.teams.alice''"
    by auto
  with placed_application_admitted [OF this(1)] show ?thesis by blast
qed

section \<open>Rules that do not do what they say\<close>

text \<open>A fixed rule takes every name that starts with the letters of the root queue as qualified. The
  checks of the configuration accept such a rule, and the placement with it panics.\<close>

definition rootedRules :: "PlacementRule list" where
  "rootedRules = [PlacementRule ''fixed'' True noFilter None ''rooted'']"

lemma fixed_rule_panics:
  "checkPlacementRules (\<lambda>_. True)
     \<lparr>pcName = ''default'', pcQueues = Some [newRoot []], pcPlacementRules = rootedRules, pcLimits = [],
      pcNodeSortPolicy = \<lparr>nspType = [], nspResourceWeights = []\<rparr>\<rparr> = None"
  "Option.is_none (PlaceApplication ''force'' placementHeap (getQueueInternal placementHeap)
     (NewPlacementManager (\<lambda>_. None) rootedRules) (submitted ''alice'' ''sandbox''))"
  by code_simp+

text \<open>The checks of the configuration accept the type of a filter in any case; the filter compares it with
  the case, so that a filter that should deny a user allows that user only.\<close>

lemma deny_filter_allows:
  fixes filt :: ruleFilter
  defines "filt \<equiv> \<lparr>filterType = ''Deny'', filterUsers = [''bob''], filterGroups = []\<rparr>"
  shows "checkPlacementFilter (\<lambda>_. True) filt = None"
    "allowUser (newFilter (\<lambda>_. None) filt) \<lparr>User = ''bob'', Groups = []\<rparr>"
    "\<not> allowUser (newFilter (\<lambda>_. None) filt) \<lparr>User = ''alice'', Groups = []\<rparr>"
  unfolding filt_def by code_simp+

text \<open>A rule of the configuration can return the recovery queue, for an application that is not forced.\<close>

lemma recovery_queue_by_user:
  "map_option (\<lambda>(app, err). (saQueuePath app, err))
     (PlaceApplication ''force'' placementHeap (getQueueInternal placementHeap)
       (NewPlacementManager (\<lambda>_. None) [PlacementRule ''provided'' True noFilter None []])
       (submitted ''alice'' ''root.@recovery@'')) = Some (RecoveryQueueFull, None)"
  by code_simp

end
