(* ===== verification/Partition.thy ===== *)
theory Partition
  imports Placement
begin

text \<open>
  A partition of the scheduler (\<open>pkg/scheduler/partition.go\<close>) with the handlers of
  \<open>pkg/scheduler/context.go\<close> that change it. The partition owns the queues, the nodes, the applications
  and the placement manager; an operation on an application loads it together with what it shares into a
  world of the theory \<open>Applications\<close> and writes the result back.

  Nodes are objects in a heap that is indexed by their identifier; the collection of nodes is the list of
  the identifiers that are registered, its order by score is not part of the model. A reservation of a
  node names its application and its ask by their keys, where the code holds pointers. Calls through a nil
  pointer and slice expressions out of range have the value \<open>None\<close>. Metrics, logs and events are left out.
  The names of tags come from the scheduler interface and are arguments, like the decoder of JSON values
  and the type of a node instance.
\<close>

section \<open>Data\<close>

record PartitionContext =
  ptState :: ObjectState
  ptApps :: "Application gomap"
  ptCompleted :: "Application gomap"
  ptRejected :: "Application gomap"
  ptNodeIDs :: "string list"
  ptNodes :: "string \<Rightarrow> node"
  ptPlacement :: AppPlacementManager
  ptTotal :: "resource option"
  ptAllocations :: int
  ptReservations :: int
  ptPlaceholders :: int
  ptPreemption :: bool
  ptQuotaPreemption :: bool
  ptForeign :: "alloc gomap"
  ptMapping :: "qpath gomap"
  ptStore :: "nat \<Rightarrow> alloc"
  ptHeap :: qheap
  ptUsers :: Manager
  ptReleases :: "(string list \<times> TerminationType) list"
  ptClock :: int

datatype create_error =
    IllegalQueueName string
  | SubmitDenied string string
  | ParentIsLeaf string
  | CreateFailed conf_error

datatype partition_error =
    NodeIsNil
  | PartitionStopped
  | NodeExists string
  | ApplicationExists string
  | PlacementError placement_error
  | QueueError create_error
  | NotALeaf string
  | UnsupportedSortType string
  | TaskGroupTooLarge string
  | ApplicationNotFound string
  | NodeNotFound string
  | EmptyAllocation
  | NegativeAllocation
  | ApplicationError app_error
  | ForeignRequest string
  | ForeignWithoutNode string

record si_tags =
  tagCreateForce :: string
  tagGuaranteed :: string
  tagQuota :: string
  tagMaxApps :: string

text \<open>An application with what it shares with the partition, and the way back. The application is
  only written back when it is still registered.\<close>

definition load :: "PartitionContext \<Rightarrow> Application \<Rightarrow> world" where
  "load pt app =
     Application.extend app
       (world.fields (ptStore pt) (ptHeap pt) (ptUsers pt) (ptNodes pt) (ptReleases pt) (ptClock pt))"

definition flush :: "world \<Rightarrow> PartitionContext \<Rightarrow> PartitionContext" where
  "flush w pt =
     pt\<lparr>ptStore := store w, ptHeap := heap w, ptUsers := users w, ptNodes := nodes w,
        ptReleases := releasesSent w\<rparr>"

definition save :: "string \<Rightarrow> world \<Rightarrow> PartitionContext \<Rightarrow> PartitionContext" where
  "save appID w pt =
     (flush w pt)\<lparr>ptApps := AList.update appID (Application.truncate w) (ptApps pt)\<rparr>"

definition rootPath :: qpath where
  "rootPath = [RootQueue]"

section \<open>State\<close>

definition handlePartitionEvent ::
    "(ObjectState, ObjectEvent) fsm_event \<Rightarrow> ObjectEvent \<Rightarrow> PartitionContext \<Rightarrow> PartitionContext" where
  "handlePartitionEvent fsm event pt = pt\<lparr>ptState := fst (handleQueueEvent fsm (ptState pt) event)\<rparr>"

definition markPartitionForRemoval ::
    "(ObjectState, ObjectEvent) fsm_event \<Rightarrow> PartitionContext \<Rightarrow> PartitionContext" where
  "markPartitionForRemoval fsm pt = handlePartitionEvent fsm Remove pt"

definition updateAllocationCount :: "int \<Rightarrow> PartitionContext \<Rightarrow> PartitionContext" where
  "updateAllocationCount n pt = pt\<lparr>ptAllocations := ptAllocations pt + n\<rparr>"

definition incPhAllocationCount :: "PartitionContext \<Rightarrow> PartitionContext" where
  "incPhAllocationCount pt = pt\<lparr>ptPlaceholders := ptPlaceholders pt + 1\<rparr>"

definition decPhAllocationCount :: "int \<Rightarrow> PartitionContext \<Rightarrow> PartitionContext" where
  "decPhAllocationCount n pt = pt\<lparr>ptPlaceholders := ptPlaceholders pt - n\<rparr>"

definition incReservationCount :: "PartitionContext \<Rightarrow> PartitionContext" where
  "incReservationCount pt = pt\<lparr>ptReservations := ptReservations pt + 1\<rparr>"

definition decReservationCount :: "int \<Rightarrow> PartitionContext \<Rightarrow> PartitionContext" where
  "decReservationCount n pt = pt\<lparr>ptReservations := ptReservations pt - n\<rparr>"

section \<open>Nodes\<close>

definition GetNode :: "PartitionContext \<Rightarrow> string \<Rightarrow> bool" where
  "GetNode pt nodeID \<longleftrightarrow> nodeID \<in> set (ptNodeIDs pt)"

definition updatePartitionResource :: "resource option \<Rightarrow> PartitionContext \<Rightarrow> PartitionContext" where
  "updatePartitionResource delta pt =
     (if delta = None then pt
      else
        let tot = Prune (if ptTotal pt = None then Clone delta else AddTo (ptTotal pt) delta)
        in pt\<lparr>ptTotal := tot, ptHeap := SetMaxResource (ptHeap pt) rootPath tot\<rparr>)"

definition addNodeToList :: "node \<Rightarrow> PartitionContext \<Rightarrow> PartitionContext \<times> partition_error option" where
  "addNodeToList sn pt =
     (if GetNode pt (NodeID sn) then (pt, Some (NodeExists (NodeID sn)))
      else
        (updatePartitionResource (Clone (totalResource sn))
           (pt\<lparr>ptNodeIDs := ptNodeIDs pt @ [NodeID sn], ptNodes := (ptNodes pt)(NodeID sn := sn)\<rparr>), None))"

definition pt_AddNode :: "node option \<Rightarrow> PartitionContext \<Rightarrow> PartitionContext \<times> partition_error option" where
  "pt_AddNode sn pt =
     (case sn of
        None \<Rightarrow> (pt, Some NodeIsNil)
      | Some sn \<Rightarrow>
          if ptState pt = Draining \<or> ptState pt = Stopped then (pt, Some PartitionStopped)
          else addNodeToList sn pt)"

definition removeNodeFromList :: "string \<Rightarrow> PartitionContext \<Rightarrow> PartitionContext \<times> bool" where
  "removeNodeFromList nodeID pt =
     (if GetNode pt nodeID then (pt\<lparr>ptNodeIDs := removeAll nodeID (ptNodeIDs pt)\<rparr>, True) else (pt, False))"

text \<open>A change of a node object.\<close>

definition onNode :: "string \<Rightarrow> (node \<Rightarrow> node) \<Rightarrow> PartitionContext \<Rightarrow> PartitionContext" where
  "onNode nodeID f pt = pt\<lparr>ptNodes := (ptNodes pt)(nodeID := f (ptNodes pt nodeID))\<rparr>"

section \<open>Reservations\<close>

definition pt_unReserve :: "string \<Rightarrow> string \<Rightarrow> nat \<Rightarrow> PartitionContext \<Rightarrow> PartitionContext" where
  "pt_unReserve appID nodeID r pt =
     (case map_of (ptApps pt) appID of
        None \<Rightarrow> pt
      | Some app \<Rightarrow>
          (case app_UnReserve nodeID r (load pt app) of
             (w, num) \<Rightarrow> decReservationCount num (save appID (queue_UnReserve num w) pt)))"

definition NodeReservedForAsk :: "Application \<Rightarrow> string \<Rightarrow> string" where
  "NodeReservedForAsk app askKey =
     (case map_of (saReservations app) askKey of Some res \<Rightarrow> resNodeID res | None \<Rightarrow> [])"

text \<open>The part of \<open>reserve\<close> after the check for another reservation.\<close>

definition reserveAsk :: "string \<Rightarrow> string \<Rightarrow> nat \<Rightarrow> PartitionContext \<Rightarrow> PartitionContext" where
  "reserveAsk appID nodeID r pt =
     (case map_of (ptApps pt) appID of
        None \<Rightarrow> pt
      | Some app \<Rightarrow>
          (case reserveInternal nodeID r (load pt app) of
             (w, Some err) \<Rightarrow> pt
           | (w, None) \<Rightarrow>
               incReservationCount
                 (save appID (w\<lparr>heap := (heap w)(saQueue w := Reserve (heap w (saQueue w)) appID)\<rparr>) pt)))"

definition pt_reserve :: "string \<Rightarrow> string \<Rightarrow> nat \<Rightarrow> PartitionContext \<Rightarrow> PartitionContext option" where
  "pt_reserve appID nodeID r pt =
     (case map_of (ptApps pt) appID of
        None \<Rightarrow> Some pt
      | Some app \<Rightarrow>
          let reserved = NodeReservedForAsk app (allocationKey (ptStore pt r))
          in if reserved = [] then Some (reserveAsk appID nodeID r pt)
             else if reserved = nodeID then Some pt
             else if GetNode pt reserved
             then Some (reserveAsk appID nodeID r (pt_unReserve appID reserved r pt))
             else None)"

section \<open>Processing an allocation\<close>

definition allocateOnNode ::
    "(string \<Rightarrow> string) \<Rightarrow> AllocationResult \<Rightarrow> PartitionContext \<Rightarrow> PartitionContext \<times> AllocationResult option" where
  "allocateOnNode instanceType result pt =
     (let r = Request result; nodeID = resultNodeID result;
          pt = pt\<lparr>ptStore := (ptStore pt)(r := (ptStore pt r)\<lparr>bindTime := Some (ptClock pt),
                     allocNodeID := nodeID, instType := instanceType nodeID\<rparr>)\<rparr>;
          pt = updateAllocationCount 1 pt;
          pt = (if placeholder (ptStore pt r) then incPhAllocationCount pt else pt)
      in (pt, Some result))"

definition pt_allocate ::
    "(string \<Rightarrow> string) \<Rightarrow> AllocationResult \<Rightarrow> PartitionContext \<Rightarrow>
     (PartitionContext \<times> AllocationResult option) option" where
  "pt_allocate instanceType result pt =
     (let r = Request result; appID = applicationID (ptStore pt r)
      in case map_of (ptApps pt) appID of
           None \<Rightarrow> Some (pt, None)
         | Some app \<Rightarrow>
             if \<not> GetNode pt (resultNodeID result)
             then
               Some (if allocated (ptStore pt r)
                     then save appID (fst (DeallocateAsk (allocationKey (ptStore pt r)) (load pt app))) pt
                     else pt, None)
             else
               let pt = decReservationCount (CancelledReservations result) pt
               in if ResultType result = Reserved
                  then map_option (\<lambda>pt. (pt, None)) (pt_reserve appID (resultNodeID result) r pt)
                  else if ResultType result = Unreserved \<or> ResultType result = AllocatedReserved
                  then
                    let reservedNodeID =
                          (if ReservedNodeID result = [] then resultNodeID result else ReservedNodeID result);
                        pt = (if GetNode pt reservedNodeID then pt_unReserve appID reservedNodeID r pt else pt)
                    in if ResultType result = Unreserved then Some (pt, None)
                       else Some (allocateOnNode instanceType (result\<lparr>ReservedNodeID := []\<rparr>) pt)
                  else Some (allocateOnNode instanceType result pt))"

section \<open>Removing a node\<close>

text \<open>The object that a node holds under a key, found through the application: an allocation, or an ask
  whose replacement is in flight.\<close>

definition objectOf :: "Application \<Rightarrow> string \<Rightarrow> nat option" where
  "objectOf app key =
     (case map_of (saAllocations app) key of Some r \<Rightarrow> Some r | None \<Rightarrow> map_of (saRequests app) key)"

text \<open>A placeholder whose replacement is on another node: the replacement is confirmed.\<close>

definition confirmReplacement :: "string \<Rightarrow> nat \<Rightarrow> nat \<Rightarrow> world \<Rightarrow> world" where
  "confirmReplacement key r real w =
     (let queue = saQueue w;
          delta = Sub (resource_of w real) (resource_of w r);
          w = fst (app_ReplaceAllocation key w)
      in if HasNegativeValue delta
         then w\<lparr>heap := fst (TryIncAllocatedResource (heap w) queue delta)\<rparr> else w)"

text \<open>A replacement that is reversed: the ask is pending again.\<close>

definition reverseReplacement :: "nat \<Rightarrow> nat \<Rightarrow> nat \<Rightarrow> world \<Rightarrow> world" where
  "reverseReplacement r other askAlloc w =
     (let w = mutate r ClearRelease (mutate other ClearRelease w)
      in fst (DeallocateAsk (allocationKey (store w askAlloc)) w))"

text \<open>The end of the loop body: the allocation is removed from the application and the queue. The result
  says whether the application knew the allocation.\<close>

definition releaseFromApp :: "string \<Rightarrow> nat \<Rightarrow> qpath \<Rightarrow> world \<Rightarrow> world \<times> bool" where
  "releaseFromApp key r queue w =
     (case removeAllocationInternal key UnknownTermination w of
        (w, None) \<Rightarrow> (w, False)
      | (w, Some _) \<Rightarrow>
          let w = w\<lparr>heap := fst (DecAllocatedResource (heap w) queue (resource_of w r))\<rparr>;
              w = (if preempted (store w r)
                   then w\<lparr>heap := DecPreemptingResource (heap w) queue (resource_of w r)\<rparr> else w)
          in (w, True))"

definition removeNodeAllocation ::
    "alloc \<Rightarrow> PartitionContext \<times> nat list \<times> nat list \<Rightarrow> PartitionContext \<times> nat list \<times> nat list" where
  "removeNodeAllocation a st =
     (case st of
        (pt, rel, conf) \<Rightarrow>
          let appID = applicationID a; key = allocationKey a
          in (case map_of (ptApps pt) appID of
               None \<Rightarrow> (pt, rel, conf)
             | Some app \<Rightarrow>
                 (case objectOf app key of
                    None \<Rightarrow> (pt, rel, conf)
                  | Some r \<Rightarrow>
                      let w = load pt app; al = store w r; queue = saQueue w
                      in (case release al of
                           Some other \<Rightarrow>
                             if placeholder al \<and> allocNodeID al \<noteq> allocNodeID (store w other)
                             then (save appID (confirmReplacement key r other w) pt, rel @ [r], conf @ [other])
                             else
                               let w = reverseReplacement r other (if placeholder al then other else r) w
                               in (case releaseFromApp key r queue w of
                                     (w, False) \<Rightarrow> (save appID w pt, rel, conf)
                                   | (w, True) \<Rightarrow>
                                       (let pt = save appID w pt
                                        in if placeholder al then decPhAllocationCount 1 pt else pt,
                                        rel @ [r], conf))
                         | None \<Rightarrow>
                             (case releaseFromApp key r queue w of
                                (w, False) \<Rightarrow> (save appID w pt, rel, conf)
                              | (w, True) \<Rightarrow>
                                  (let pt = save appID w pt
                                   in if placeholder al then decPhAllocationCount 1 pt else pt,
                                   rel @ [r], conf))))))"

definition removeNodeAllocations :: "string \<Rightarrow> PartitionContext \<Rightarrow> PartitionContext \<times> nat list \<times> nat list" where
  "removeNodeAllocations nodeID pt =
     (case fold removeNodeAllocation (getAllocations (ptNodes pt nodeID) False) (pt, [], []) of
        (pt, rel, conf) \<Rightarrow>
          (updateAllocationCount (int (length conf) - int (length rel)) pt, rel, conf))"

definition unReserveNode :: "string \<Rightarrow> PartitionContext \<Rightarrow> PartitionContext" where
  "unReserveNode nodeID pt =
     fold (\<lambda>(key, res) pt.
             case map_of (ptApps pt) (resAppID res) of
               None \<Rightarrow> pt
             | Some app \<Rightarrow>
                 (case objectOf app (resAllocKey res) of
                    None \<Rightarrow> pt
                  | Some r \<Rightarrow> pt_unReserve (resAppID res) nodeID r pt))
       (Nodes.reservations (ptNodes pt nodeID)) pt"

definition removeNode :: "string \<Rightarrow> PartitionContext \<Rightarrow> PartitionContext \<times> nat list \<times> nat list" where
  "removeNode nodeID pt =
     (case removeNodeFromList nodeID pt of
        (pt, False) \<Rightarrow> (pt, [], [])
      | (pt, True) \<Rightarrow>
          (case removeNodeAllocations nodeID (unReserveNode nodeID pt) of
             (pt, rel, conf) \<Rightarrow>
               (updatePartitionResource (Multiply (totalResource (ptNodes pt nodeID)) (Quantity (- 1))) pt, rel, conf)))"

text \<open>The node requests of the resource manager. The partition of a node is found by its name; a request for
  a partition that does not exist changes nothing.\<close>

datatype NodeAction = CREATE | CREATE_DRAIN | UPDATE | DRAIN_NODE | DRAIN_TO_SCHEDULABLE | DECOMISSION

record NodeInfo =
  niNodeID :: string
  niAction :: NodeAction
  niResource :: "resource option"

definition cc_addNode :: "NodeInfo \<Rightarrow> bool \<Rightarrow> PartitionContext \<Rightarrow> PartitionContext \<times> partition_error option" where
  "cc_addNode info sched pt =
     (case NewNode (Some (niNodeID info, niResource info)) of
        None \<Rightarrow> (pt, Some NodeIsNil)
      | Some sn \<Rightarrow> pt_AddNode (Some (SetSchedulable sn sched)) pt)"

definition cc_updateNode :: "NodeInfo \<Rightarrow> PartitionContext \<Rightarrow> PartitionContext \<times> nat list \<times> nat list" where
  "cc_updateNode info pt =
     (let nodeID = niNodeID info
      in if \<not> GetNode pt nodeID then (pt, [], [])
         else case niAction info of
                UPDATE \<Rightarrow>
                  (case niResource info of
                     None \<Rightarrow> (pt, [], [])
                   | Some sr \<Rightarrow>
                       (case SetCapacity (ptNodes pt nodeID) (Some sr) of
                          (sn, delta) \<Rightarrow> (updatePartitionResource delta (onNode nodeID (\<lambda>_. sn) pt), [], [])))
              | DRAIN_NODE \<Rightarrow> (onNode nodeID (\<lambda>sn. SetSchedulable sn False) pt, [], [])
              | DRAIN_TO_SCHEDULABLE \<Rightarrow> (onNode nodeID (\<lambda>sn. SetSchedulable sn True) pt, [], [])
              | DECOMISSION \<Rightarrow> removeNode nodeID (onNode nodeID (\<lambda>sn. SetSchedulable sn False) pt)
              | _ \<Rightarrow> (pt, [], []))"

definition processNode :: "NodeInfo \<Rightarrow> PartitionContext \<Rightarrow> PartitionContext" where
  "processNode info pt =
     (if niAction info = CREATE then fst (cc_addNode info True pt)
      else if niAction info = CREATE_DRAIN then fst (cc_addNode info False pt)
      else fst (cc_updateNode info pt))"

section \<open>Applications\<close>

text \<open>The queue furthest down the path that exists, and the names of the queues below it that are to be
  created, from the last one up.\<close>

function existingQueue ::
    "(string \<Rightarrow> qpath option) \<Rightarrow> string \<Rightarrow> string list \<Rightarrow> (string \<times> qpath \<times> string list) option" where
  "existingQueue queueFn current toCreate =
     (case queueFn current of
        Some q \<Rightarrow> Some (current, q, toCreate)
      | None \<Rightarrow>
          (case LastIndex current CHR ''.'' of
             None \<Rightarrow> None
           | Some i \<Rightarrow> existingQueue queueFn (take i current) (toCreate @ [drop (Suc i) current])))"
  by pat_completeness auto
termination
  by (relation "measure (\<lambda>(_, current, _). length current)")
    (auto simp: LastIndex_def find_Some_iff rev_nth)

declare existingQueue.simps [simp del]

text \<open>The queues are created from the top down, the last one is a leaf.\<close>

fun createQueues :: "int \<Rightarrow> string list \<Rightarrow> qheap \<Rightarrow> qpath \<Rightarrow> qheap \<times> (create_error + qpath)" where
  "createQueues now [] h queue = (h, Inr queue)"
| "createQueues now (name # names) h queue =
     (case NewDynamicQueue now name (names = []) h queue of
        (h, Inl err) \<Rightarrow> (h, Inl (CreateFailed err))
      | (h, Inr queue) \<Rightarrow> createQueues now names h queue)"

definition createQueue ::
    "int \<Rightarrow> qheap \<Rightarrow> string \<Rightarrow> UserGroup \<Rightarrow> (qheap \<times> (create_error + qpath)) option" where
  "createQueue now h name user =
     (if \<not> HasPrefix name RootQueue \<or> CHR ''.'' \<notin> set name then Some (h, Inl (IllegalQueueName name))
      else case existingQueue (getQueueInternal h) name [] of
             None \<Rightarrow> None
           | Some (current, queue, toCreate) \<Rightarrow>
               if \<not> CheckSubmitAccess h queue user then Some (h, Inl (SubmitDenied current name))
               else if isLeaf (h queue) then Some (h, Inl (ParentIsLeaf current))
               else Some (createQueues now (rev toCreate) h queue))"

definition createRecoveryQueue :: "int \<Rightarrow> qheap \<Rightarrow> qheap \<times> (create_error + qpath)" where
  "createRecoveryQueue now h =
     (case NewRecoveryQueue now h rootPath of
        (h, Inl err) \<Rightarrow> (h, Inl (CreateFailed err))
      | (h, Inr q) \<Rightarrow> (h, Inr q))"

text \<open>The queue of a placed application, created when it does not exist.\<close>

definition queueForApp ::
    "int \<Rightarrow> qheap \<Rightarrow> string \<Rightarrow> UserGroup \<Rightarrow> (qheap \<times> (create_error + qpath)) option" where
  "queueForApp now h name user =
     (case getQueueInternal h name of
        Some q \<Rightarrow> Some (h, Inr q)
      | None \<Rightarrow>
          if IsRecoveryQueue name then Some (createRecoveryQueue now h)
          else createQueue now h name user)"

text \<open>Resources and counts in the tags of an application; the argument decodes a JSON value.\<close>

definition getResourceFromTags ::
    "(string \<Rightarrow> resource option) \<Rightarrow> Application \<Rightarrow> string \<Rightarrow> resource option" where
  "getResourceFromTags unmarshal app tag =
     (let val = GetTag (saTags app) tag
      in if val = [] then None
         else case unmarshal val of
                None \<Rightarrow> None
              | Some res \<Rightarrow> if StrictlyGreaterThanZero (Some res) then Some res else None)"

definition getUint64Tag :: "Application \<Rightarrow> string \<Rightarrow> nat" where
  "getUint64Tag app tag =
     (let val = GetTag (saTags app) tag
      in if val = [] then 0 else case ParseUint val of Some n \<Rightarrow> n | None \<Rightarrow> 0)"

definition setQueueFromTags :: "resource option \<Rightarrow> resource option \<Rightarrow> nat \<Rightarrow> queue \<Rightarrow> queue" where
  "setQueueFromTags guaranteedRes maxRes maxApps sq =
     (if isManaged sq then sq
      else
        let sq = (if maxApps \<noteq> 0 then SetMaxRunningApps sq maxApps else sq)
        in if guaranteedRes \<noteq> None \<or> maxRes \<noteq> None then setResources sq guaranteedRes maxRes else sq)"

definition SupportTaskGroup :: "queue \<Rightarrow> bool" where
  "SupportTaskGroup sq \<longleftrightarrow> isLeaf sq \<and> sortType sq = FifoSortPolicy"

text \<open>The checks for an application with placeholders.\<close>

definition checkGang :: "qheap \<Rightarrow> qpath \<Rightarrow> Application \<Rightarrow> partition_error option" where
  "checkGang h q app =
     (if IsZero (saPlaceholderAsk app) then None
      else if \<not> SupportTaskGroup (h q) then Some (UnsupportedSortType (saID app))
      else if GetMaxQueueSet h q \<noteq> None \<and> \<not> FitInMaxUndef (GetMaxQueueSet h q) (saPlaceholderAsk app)
      then Some (TaskGroupTooLarge (saID app))
      else None)"

text \<open>The part of \<open>AddApplication\<close> that runs under the lock of the partition, for the queue at \<open>q\<close>.\<close>

definition addToQueue ::
    "si_tags \<Rightarrow> (string \<Rightarrow> resource option) \<Rightarrow> Application \<Rightarrow> qpath \<Rightarrow> PartitionContext \<Rightarrow>
     PartitionContext \<times> Application \<times> partition_error option" where
  "addToQueue si unmarshal app q pt =
     (let h = ptHeap pt; qname = saQueuePath app
      in if \<not> isLeaf (h q) then (pt, app, Some (NotALeaf qname))
         else
           let guaranteedRes = getResourceFromTags unmarshal app (tagGuaranteed si);
               maxRes = getResourceFromTags unmarshal app (tagQuota si);
               maxApps = getUint64Tag app (tagMaxApps si);
               h = (if \<not> IsRecoveryQueue qname \<and> (guaranteedRes \<noteq> None \<or> maxRes \<noteq> None \<or> maxApps \<noteq> 0)
                    then h(q := setQueueFromTags guaranteedRes maxRes maxApps (h q)) else h);
               pt = pt\<lparr>ptHeap := h\<rparr>
           in case checkGang h q app of
                Some err \<Rightarrow> (pt, app, Some err)
              | None \<Rightarrow>
                  let app = app\<lparr>saQueuePath := QueuePath q, saQueue := q\<rparr>
                  in (pt\<lparr>ptHeap := h(q := AddApplication (h q) (saID app)),
                         ptApps := AList.update (saID app) app (ptApps pt),
                         ptMapping := AList.update (saID app) q (ptMapping pt)\<rparr>, app, None))"

definition pt_AddApplication ::
    "si_tags \<Rightarrow> (string \<Rightarrow> resource option) \<Rightarrow> Application \<Rightarrow> PartitionContext \<Rightarrow>
     (PartitionContext \<times> Application \<times> partition_error option) option" where
  "pt_AddApplication si unmarshal app pt =
     (if ptState pt = Draining \<or> ptState pt = Stopped then Some (pt, app, Some PartitionStopped)
      else if map_of (ptApps pt) (saID app) \<noteq> None then Some (pt, app, Some (ApplicationExists (saID app)))
      else case PlaceApplication (tagCreateForce si) (ptHeap pt) (getQueueInternal (ptHeap pt)) (ptPlacement pt) app of
             None \<Rightarrow> None
           | Some (app, Some err) \<Rightarrow> Some (pt, app, Some (PlacementError err))
           | Some (app, None) \<Rightarrow>
               (case queueForApp (ptClock pt) (ptHeap pt) (saQueuePath app) (saUser app) of
                  None \<Rightarrow> None
                | Some (h, Inl err) \<Rightarrow> Some (pt\<lparr>ptHeap := h\<rparr>, app, Some (QueueError err))
                | Some (h, Inr q) \<Rightarrow> Some (addToQueue si unmarshal app q (pt\<lparr>ptHeap := h\<rparr>))))"

text \<open>What the queue reads of an application.\<close>

definition usageOf :: "world \<Rightarrow> app_usage" where
  "usageOf w =
     \<lparr>ApplicationID = saID w, appPending = saPending w, appAllocated = saAllocated w,
      appPlaceholder = saAllocatedPlaceholder w,
      appAllocations = map (\<lambda>(_, r). (preempted (store w r), resource_of w r)) (saAllocations w)\<rparr>"

text \<open>Taking an allocation off its node, when the partition knows the node.\<close>

definition removeFromNode :: "nat \<Rightarrow> PartitionContext \<Rightarrow> PartitionContext" where
  "removeFromNode r pt =
     (let a = ptStore pt r
      in if GetNode pt (allocNodeID a)
         then onNode (allocNodeID a) (\<lambda>sn. fst (RemoveAllocation sn (allocationKey a))) pt
         else pt)"

definition removeApplication :: "string \<Rightarrow> PartitionContext \<Rightarrow> PartitionContext \<times> nat list" where
  "removeApplication appID pt =
     (case map_of (ptApps pt) appID of
        None \<Rightarrow> (pt, [])
      | Some app \<Rightarrow>
          let pt = pt\<lparr>ptApps := AList.delete appID (ptApps pt)\<rparr>
          in case removeAsksInternal [] (load pt app) of
               (w, num) \<Rightarrow>
                 let pt = decReservationCount num pt;
                     w = (if saQueue w \<noteq> []
                          then w\<lparr>heap := RemoveApplication (heap w) (saQueue w) (usageOf w)\<rparr> else w);
                     pt = pt\<lparr>ptMapping := AList.delete appID (ptMapping pt)\<rparr>
                 in case RemoveAllAllocations w of
                      (w, allocs) \<Rightarrow>
                        (fold removeFromNode allocs (updateAllocationCount (- int (length allocs)) (flush w pt)),
                         allocs))"

definition show_int :: "int \<Rightarrow> string" where
  "show_int n = (if n < 0 then CHR ''-'' # show_nat (nat (- n)) else show_nat (nat n))"

definition moveTerminatedApp :: "string \<Rightarrow> PartitionContext \<Rightarrow> PartitionContext" where
  "moveTerminatedApp appID pt =
     (case map_of (ptApps pt) appID of
        None \<Rightarrow> pt
      | Some app \<Rightarrow>
          let w = UnSetQueue (load pt app);
              newID = appID @ show_int (- (ptClock pt div 10 ^ 9));
              pt = flush w pt
          in pt\<lparr>ptApps := AList.delete appID (ptApps pt),
                ptCompleted := AList.update newID (Application.truncate w) (ptCompleted pt)\<rparr>)"

definition AddRejectedApplication :: "Application \<Rightarrow> string \<Rightarrow> PartitionContext \<Rightarrow> PartitionContext" where
  "AddRejectedApplication app msg pt =
     (let w = fst (app_RejectApplication msg (load pt app)); pt = flush w pt
      in pt\<lparr>ptRejected := AList.update (saID app) (Application.truncate w) (ptRejected pt)\<rparr>)"

definition cleanupExpiredApps :: "PartitionContext \<Rightarrow> PartitionContext" where
  "cleanupExpiredApps pt =
     pt\<lparr>ptApps := filter (\<lambda>(_, app). saState app \<noteq> Expired) (ptApps pt),
        ptRejected := filter (\<lambda>(_, app). saState app \<noteq> Expired) (ptRejected pt),
        ptCompleted := filter (\<lambda>(_, app). saState app \<noteq> Expired) (ptCompleted pt)\<rparr>"

section \<open>Adding and updating allocations\<close>

definition getOrStoreForeignAlloc :: "alloc \<Rightarrow> PartitionContext \<Rightarrow> PartitionContext \<times> bool" where
  "getOrStoreForeignAlloc a pt =
     (if map_of (ptForeign pt) (allocationKey a) = None
      then (pt\<lparr>ptForeign := AList.update (allocationKey a) a (ptForeign pt)\<rparr>, False)
      else (pt, True))"

definition handleForeignAllocation ::
    "alloc \<Rightarrow> PartitionContext \<Rightarrow> PartitionContext \<times> (partition_error + bool \<times> bool)" where
  "handleForeignAllocation a pt =
     (let nodeID = allocNodeID a
      in if \<not> allocated a then (pt, Inl (ForeignRequest (allocationKey a)))
         else if nodeID = [] then (pt, Inl (ForeignWithoutNode (allocationKey a)))
         else if \<not> GetNode pt nodeID then (pt, Inl (NodeNotFound nodeID))
         else case getOrStoreForeignAlloc a pt of
                (pt, False) \<Rightarrow> (onNode nodeID (\<lambda>sn. AddAllocation sn (Some a)) pt, Inr (False, True))
              | (pt, True) \<Rightarrow> (onNode nodeID (\<lambda>sn. fst (UpdateForeignAllocation sn a)) pt, Inr (False, False)))"

text \<open>An allocation that the resource manager reports as bound already: the queue usage goes up at any
  cost, the node and the application take the allocation.\<close>

definition bindAllocation ::
    "(string \<Rightarrow> string) \<Rightarrow> bool \<Rightarrow> resource option \<Rightarrow> string \<Rightarrow> nat \<Rightarrow> (world \<Rightarrow> world) \<Rightarrow> world \<Rightarrow> world" where
  "bindAllocation instanceType quota res nodeID r recover w =
     (let w = w\<lparr>heap := IncAllocatedResource (heap w) (saQueue w) res quota (clock w)\<rparr>;
          w = w\<lparr>nodes := (nodes w)(nodeID := AddAllocation (nodes w nodeID) (Some (store w r)))\<rparr>;
          w = mutate r (\<lambda>a. a\<lparr>instType := instanceType nodeID\<rparr>) w
      in app_AddAllocation r (recover w))"

definition countAllocation :: "bool \<Rightarrow> PartitionContext \<Rightarrow> PartitionContext" where
  "countAllocation ph pt =
     (let pt = updateAllocationCount 1 pt in if ph then incPhAllocationCount pt else pt)"

definition addNewAllocation ::
    "(string \<Rightarrow> string) \<Rightarrow> string \<Rightarrow> nat \<Rightarrow> world \<Rightarrow> PartitionContext \<Rightarrow>
     PartitionContext \<times> (partition_error + bool \<times> bool)" where
  "addNewAllocation instanceType appID r w pt =
     (let a = store w r; nodeID = allocNodeID a
      in if \<not> GetNode pt nodeID
         then case AddAllocationAsk (Some r) w of
                (w, Some err) \<Rightarrow> (pt, Inl (ApplicationError err))
              | (w, None) \<Rightarrow> (save appID w pt, Inr (True, False))
         else
           let w = bindAllocation instanceType (ptQuotaPreemption pt) (allocRes a) nodeID r
                     (RecoverAllocationAsk (Some r)) w
           in (countAllocation (placeholder a) (save appID w pt), Inr (False, True)))"

text \<open>The change of the resources of an ask or allocation that exists.\<close>

definition updateResources ::
    "alloc \<Rightarrow> nat \<Rightarrow> bool \<Rightarrow> world \<Rightarrow> world \<times> app_error option" where
  "updateResources a e quota w =
     (let newResource = Clone (allocRes a);
          delta = Prune (Sub newResource (Clone (resource_of w e)));
          nodeID = allocNodeID (store w e);
          bound = allocated (store w e)
      in if IsZero delta \<or> IsZero newResource then (w, None)
         else case UpdateAllocationResources (Some a) quota w of
                (w, Some err) \<Rightarrow> (w, Some err)
              | (w, None) \<Rightarrow>
                  (if bound
                   then w\<lparr>nodes := (nodes w)(nodeID := UpdateAllocatedResource (nodes w nodeID) delta)\<rparr>
                   else w, None))"

definition updateExisting ::
    "(string \<Rightarrow> string) \<Rightarrow> string \<Rightarrow> alloc \<Rightarrow> nat \<Rightarrow> world \<Rightarrow> PartitionContext \<Rightarrow>
     PartitionContext \<times> (partition_error + bool \<times> bool)" where
  "updateExisting instanceType appID a e w pt =
     (if allocated (store w e) \<and> \<not> GetNode pt (allocNodeID (store w e))
      then (pt, Inl (NodeNotFound (allocNodeID (store w e))))
      else case updateResources a e (ptQuotaPreemption pt) w of
             (w, Some err) \<Rightarrow> (pt, Inl (ApplicationError err))
           | (w, None) \<Rightarrow>
               if \<not> allocated (store w e) \<and> allocated a
               then
                 let w = mutate e (\<lambda>x. x\<lparr>allocNodeID := allocNodeID a, bindTime := bindTime a\<rparr>) w
                 in case AllocateAsk (allocationKey a) w of
                      (w, Inl err) \<Rightarrow> (save appID w pt, Inl (ApplicationError err))
                    | (w, Inr _) \<Rightarrow>
                        let w = bindAllocation instanceType (ptQuotaPreemption pt) (allocRes a) (allocNodeID a) e
                                  (\<lambda>w. w) w
                        in (countAllocation (placeholder (store w e)) (save appID w pt), Inr (False, True))
               else (save appID w pt, Inr (False, False)))"

definition pt_UpdateAllocation ::
    "(string \<Rightarrow> string) \<Rightarrow> nat option \<Rightarrow> PartitionContext \<Rightarrow>
     PartitionContext \<times> (partition_error + bool \<times> bool)" where
  "pt_UpdateAllocation instanceType al pt =
     (case al of
        None \<Rightarrow> (pt, Inr (False, False))
      | Some r \<Rightarrow>
          let a = ptStore pt r; appID = applicationID a
          in if ptState pt = Stopped then (pt, Inl PartitionStopped)
             else if foreign a then handleForeignAllocation a pt
             else (case map_of (ptApps pt) appID of
                    None \<Rightarrow> (pt, Inl (ApplicationNotFound appID))
                  | Some app \<Rightarrow>
                      if allocated a \<and> \<not> GetNode pt (allocNodeID a) then (pt, Inl (NodeNotFound (allocNodeID a)))
                      else if IsZero (allocRes a) then (pt, Inl EmptyAllocation)
                      else if \<not> StrictlyGreaterThanZero (allocRes a) then (pt, Inl NegativeAllocation)
                      else (case map_of (saRequests app) (allocationKey a) of
                             None \<Rightarrow> addNewAllocation instanceType appID r (load pt app) pt
                           | Some e \<Rightarrow> updateExisting instanceType appID a e (load pt app) pt)))"

section \<open>Releasing allocations\<close>

record AllocationRelease =
  relAppID :: string
  relKey :: string
  relType :: TerminationType

definition processAllocationRelease :: "AllocationRelease \<Rightarrow> world \<Rightarrow> world \<times> nat list" where
  "processAllocationRelease rel w =
     (if relKey rel = [] then RemoveAllAllocations w
      else
        case (if relType rel = PlaceholderReplaced then app_ReplaceAllocation (relKey rel) w
              else removeAllocationInternal (relKey rel) (relType rel) w) of
          (w, Some r) \<Rightarrow> (w, [r])
        | (w, None) \<Rightarrow> (w, []))"

definition updatePhAllocationCount :: "nat list \<Rightarrow> PartitionContext \<Rightarrow> PartitionContext" where
  "updatePhAllocationCount rel pt =
     (let n = int (length (filter (\<lambda>r. placeholder (ptStore pt r)) rel))
      in if n > 0 then decPhAllocationCount n pt else pt)"

text \<open>The placeholder is swapped for the real allocation, on its node or off its node.\<close>

definition replacePlaceholderOnNode ::
    "nat \<Rightarrow> string \<Rightarrow> resource option \<Rightarrow> PartitionContext \<Rightarrow> (PartitionContext \<times> nat \<times> resource option) option" where
  "replacePlaceholderOnNode r nodeID tot pt =
     (let a = ptStore pt r
      in case release a of
           None \<Rightarrow> None
         | Some c \<Rightarrow>
             let confirmed = ptStore pt c;
                 delta = Sub (allocRes confirmed) (allocRes a);
                 tot = (if HasNegativeValue delta then SubFrom tot delta else tot)
             in if allocNodeID confirmed = allocNodeID a
                then case node_ReplaceAllocation (ptNodes pt nodeID) (allocationKey a) confirmed delta of
                       None \<Rightarrow> None
                     | Some (sn, confirmed) \<Rightarrow>
                         Some ((onNode nodeID (\<lambda>_. sn) pt)\<lparr>ptStore := (ptStore pt)(c := confirmed)\<rparr>, c, tot)
                else Some (onNode nodeID (\<lambda>sn. fst (RemoveAllocation sn (allocationKey a))) pt, c, tot))"

text \<open>The loop over the released allocations: the total to release from the queue, the preempting total
  and the confirmed allocation.\<close>

fun releaseOnNodes ::
    "TerminationType \<Rightarrow> nat list \<Rightarrow> resource option \<Rightarrow> resource option \<Rightarrow> nat option \<Rightarrow> PartitionContext \<Rightarrow>
     (PartitionContext \<times> resource option \<times> resource option \<times> nat option) option" where
  "releaseOnNodes t [] tot totalPreempting confirmed pt = Some (pt, tot, totalPreempting, confirmed)"
| "releaseOnNodes t (r # rs) tot totalPreempting confirmed pt =
     (let a = ptStore pt r; nodeID = allocNodeID a
      in if \<not> GetNode pt nodeID then releaseOnNodes t rs tot totalPreempting confirmed pt
         else
           let totalPreempting' = (if preempted a then AddTo totalPreempting (allocRes a) else totalPreempting)
           in if t = PlaceholderReplaced
              then case replacePlaceholderOnNode r nodeID tot pt of
                     None \<Rightarrow> None
                   | Some (pt, c, tot) \<Rightarrow> releaseOnNodes t rs tot totalPreempting' (Some c) pt
              else case RemoveAllocation (ptNodes pt nodeID) (allocationKey a) of
                     (sn, removed) \<Rightarrow>
                       releaseOnNodes t rs (if removed \<noteq> None then AddTo tot (allocRes a) else tot)
                         totalPreempting' confirmed (onNode nodeID (\<lambda>_. sn) pt))"

definition rollbackAllocation :: "string \<Rightarrow> string \<Rightarrow> Application \<Rightarrow> PartitionContext \<Rightarrow> PartitionContext" where
  "rollbackAllocation appID key app pt =
     (let w = load pt app; queue = saQueue w;
          nodeID = (case map_of (saAllocations w) key of Some r \<Rightarrow> allocNodeID (store w r) | None \<Rightarrow> [])
      in case RollbackAllocation key w of
           (w, Inl err) \<Rightarrow> pt
         | (w, Inr res) \<Rightarrow>
             let pt = save appID w pt;
                 pt = (if GetNode pt nodeID
                       then onNode nodeID (\<lambda>sn. fst (RemoveAllocation sn key)) pt else pt);
                 pt = pt\<lparr>ptHeap := fst (DecAllocatedResource (ptHeap pt) queue res)\<rparr>
             in updateAllocationCount (- 1) pt)"

definition removeForeignAllocation :: "string \<Rightarrow> PartitionContext \<Rightarrow> PartitionContext" where
  "removeForeignAllocation allocID pt =
     (case map_of (ptForeign pt) allocID of
        None \<Rightarrow> pt
      | Some a \<Rightarrow>
          let pt = pt\<lparr>ptForeign := AList.delete allocID (ptForeign pt)\<rparr>
          in if GetNode pt (allocNodeID a)
             then onNode (allocNodeID a) (\<lambda>sn. fst (RemoveAllocation sn allocID)) pt else pt)"

text \<open>The update of the queue after the nodes.\<close>

definition releaseFromQueue ::
    "qpath \<Rightarrow> resource option \<Rightarrow> resource option \<Rightarrow> PartitionContext \<Rightarrow> PartitionContext" where
  "releaseFromQueue queue tot totalPreempting pt =
     (let pt = (if StrictlyGreaterThanZero tot
                then pt\<lparr>ptHeap := fst (DecAllocatedResource (ptHeap pt) queue tot)\<rparr> else pt)
      in if StrictlyGreaterThanZero totalPreempting
         then pt\<lparr>ptHeap := DecPreemptingResource (ptHeap pt) queue totalPreempting\<rparr> else pt)"

definition releaseAsks :: "string \<Rightarrow> string \<Rightarrow> PartitionContext \<Rightarrow> PartitionContext" where
  "releaseAsks appID key pt =
     (case map_of (ptApps pt) appID of
        None \<Rightarrow> pt
      | Some app \<Rightarrow>
          (case removeAsksInternal key (load pt app) of (w, num) \<Rightarrow> decReservationCount num (save appID w pt)))"

definition pt_removeAllocation ::
    "AllocationRelease option \<Rightarrow> PartitionContext \<Rightarrow> (PartitionContext \<times> nat list \<times> nat option) option" where
  "pt_removeAllocation rel pt =
     (case rel of
        None \<Rightarrow> Some (pt, [], None)
      | Some rel \<Rightarrow>
          let appID = relAppID rel; key = relKey rel; t = relType rel
          in if appID = [] then Some (removeForeignAllocation key pt, [], None)
             else (case map_of (ptApps pt) appID of
                    None \<Rightarrow> Some (pt, [], None)
                  | Some app \<Rightarrow>
                      if t = SchedulingFailedOnRM then Some (rollbackAllocation appID key app pt, [], None)
                      else
                        (case processAllocationRelease rel (load pt app) of
                           (w, rs) \<Rightarrow>
                             let pt = updatePhAllocationCount rs (save appID w pt)
                             in (case releaseOnNodes t rs (Some NewResource) (Some NewResource) None pt of
                                  None \<Rightarrow> None
                                | Some (pt, tot, totalPreempting, confirmed) \<Rightarrow>
                                    let pt = releaseFromQueue (saQueue app) tot totalPreempting pt;
                                        rs = (if confirmed \<noteq> None then [] else rs);
                                        pt = (if rs \<noteq> [] then updateAllocationCount (- int (length rs)) pt else pt);
                                        pt = (if t \<noteq> Timeout then releaseAsks appID key pt else pt)
                                    in Some (pt, if t = Timeout \<or> t = PreemptedByScheduler then [] else rs, confirmed)))))"

section \<open>Queues and configuration\<close>

text \<open>The queues of the configuration below a parent. An error stops; what was created before stays.\<close>

fun addQueue ::
    "string \<Rightarrow> (ObjectState, ObjectEvent) fsm_event \<Rightarrow> int \<Rightarrow> queueConfig list \<Rightarrow> qpath \<Rightarrow> qheap \<Rightarrow>
     qheap \<times> conf_error option"
  and addQueueConf ::
    "string \<Rightarrow> (ObjectState, ObjectEvent) fsm_event \<Rightarrow> int \<Rightarrow> queueConfig \<Rightarrow> qpath \<Rightarrow> qheap \<Rightarrow>
     qheap \<times> conf_error option" where
  "addQueue cpuName fsm now [] parent h = (h, None)"
| "addQueue cpuName fsm now (conf # confs) parent h =
     (case addQueueConf cpuName fsm now conf parent h of
        (h, Some err) \<Rightarrow> (h, Some err)
      | (h, None) \<Rightarrow> addQueue cpuName fsm now confs parent h)"
| "addQueueConf cpuName fsm now (QueueConfig name par res maxApps props adm sub tmpl queues limits) parent h =
     (case NewConfiguredQueue cpuName fsm now
             (QueueConfig name par res maxApps props adm sub tmpl queues limits) h parent of
        (h, Inl err) \<Rightarrow> (h, Some err)
      | (h, Inr thisQueue) \<Rightarrow> addQueue cpuName fsm now queues thisQueue h)"

text \<open>The update of one queue: created when it does not exist, otherwise changed to the configuration.\<close>

definition updateQueue ::
    "string \<Rightarrow> (ObjectState, ObjectEvent) fsm_event \<Rightarrow> int \<Rightarrow> queueConfig \<Rightarrow> qpath \<Rightarrow> qheap \<Rightarrow>
     qheap \<times> (conf_error + qpath)" where
  "updateQueue cpuName fsm now conf parent h =
     (case (case getQueueInternal h (QueuePath parent @ ''.'' @ confName conf) of
              None \<Rightarrow>
                (case NewConfiguredQueue cpuName fsm now conf h parent of
                   (h, Inl err) \<Rightarrow> (h, Inl err)
                 | (h, Inr q) \<Rightarrow> (h, Inr (q, None)))
            | Some q \<Rightarrow>
                (case applyConf cpuName fsm (hd q) conf (h q) of
                   (sq, Inl err) \<Rightarrow> (h(q := sq), Inl err)
                 | (sq, Inr oldMax) \<Rightarrow>
                     (h(q := mergeProperties sq (properties (h (tl q)))), Inr (q, oldMax)))) of
        (h, Inl err) \<Rightarrow> (h, Inl err)
      | (h, Inr (q, oldMax)) \<Rightarrow> (h(q := UpdateQueueProperties now q (h q) oldMax), Inr q))"

text \<open>The children that the configuration does not name are marked for removal. The argument \<open>depth\<close> bounds
  the depth of the hierarchy.\<close>

definition removeUnvisited ::
    "nat \<Rightarrow> (ObjectState, ObjectEvent) fsm_event \<Rightarrow> string list \<Rightarrow> qpath \<Rightarrow> qheap \<Rightarrow> qheap" where
  "removeUnvisited depth fsm visited parent h =
     fold (\<lambda>c h. if c \<in> set visited then h else MarkQueueForRemoval depth fsm h (c # parent))
       (children (h parent)) h"

fun updateQueues ::
    "nat \<Rightarrow> string \<Rightarrow> (ObjectState, ObjectEvent) fsm_event \<Rightarrow> int \<Rightarrow> queueConfig list \<Rightarrow> qpath \<Rightarrow> string list \<Rightarrow>
     qheap \<Rightarrow> qheap \<times> conf_error option"
  and updateQueueConf ::
    "nat \<Rightarrow> string \<Rightarrow> (ObjectState, ObjectEvent) fsm_event \<Rightarrow> int \<Rightarrow> queueConfig \<Rightarrow> qpath \<Rightarrow>
     qheap \<Rightarrow> qheap \<times> (conf_error + string)" where
  "updateQueues depth cpuName fsm now [] parent visited h =
     (removeUnvisited depth fsm visited parent h, None)"
| "updateQueues depth cpuName fsm now (conf # confs) parent visited h =
     (case updateQueueConf depth cpuName fsm now conf parent h of
        (h, Inl err) \<Rightarrow> (h, Some err)
      | (h, Inr name) \<Rightarrow> updateQueues depth cpuName fsm now confs parent (name # visited) h)"
| "updateQueueConf depth cpuName fsm now (QueueConfig name par res maxApps props adm sub tmpl queues limits) parent h =
     (case updateQueue cpuName fsm now (QueueConfig name par res maxApps props adm sub tmpl queues limits) parent h of
        (h, Inl err) \<Rightarrow> (h, Inl err)
      | (h, Inr q) \<Rightarrow>
          (case updateQueues depth cpuName fsm now queues q [] h of
             (h, Some err) \<Rightarrow> (h, Inl err)
           | (h, None) \<Rightarrow> (h, Inr (hd q))))"

text \<open>The removal of empty queues that are draining or dynamic, children first; the argument \<open>depth\<close> bounds
  the depth of the hierarchy.\<close>

fun cleanQueues :: "nat \<Rightarrow> qheap \<Rightarrow> qpath \<Rightarrow> qheap option" where
  "cleanQueues depth h q =
     (case (case depth of
              0 \<Rightarrow> Some h
            | Suc d \<Rightarrow>
                fold (\<lambda>c h. case h of None \<Rightarrow> None | Some h \<Rightarrow> cleanQueues d h (c # q)) (children (h q)) (Some h)) of
        None \<Rightarrow> None
      | Some h \<Rightarrow>
          if (stateMachine (h q) = Draining \<or> \<not> isManaged (h q)) \<and> queue_IsEmpty (h q)
          then map_option fst (RemoveQueue h q) else Some h)"

text \<open>The settings of the preemption; a value that is not configured is \<open>None\<close>.\<close>

definition updatePreemption :: "bool option \<Rightarrow> bool option \<Rightarrow> PartitionContext \<Rightarrow> PartitionContext" where
  "updatePreemption enabled quotaEnabled pt =
     pt\<lparr>ptPreemption := (enabled = None \<or> enabled = Some True), ptQuotaPreemption := (quotaEnabled = Some True)\<rparr>"

datatype init_error =
    NoNameOrRM
  | NoRootQueue
  | InitQueue conf_error
  | InitRules placement_error
  | InitLimits ugm_error

text \<open>A partition before it is configured, with the objects of the process around it.\<close>

definition emptyPartition :: "(nat \<Rightarrow> alloc) \<Rightarrow> (string \<Rightarrow> node) \<Rightarrow> Manager \<Rightarrow> int \<Rightarrow> PartitionContext" where
  "emptyPartition st ns m now =
     \<lparr>ptState = Active, ptApps = [], ptCompleted = [], ptRejected = [], ptNodeIDs = [], ptNodes = ns,
      ptPlacement = \<lparr>pmRules = []\<rparr>, ptTotal = None, ptAllocations = 0, ptReservations = 0,
      ptPlaceholders = 0, ptPreemption = False, ptQuotaPreemption = False, ptForeign = [], ptMapping = [],
      ptStore = st, ptHeap = (\<lambda>_. newBlankQueue), ptUsers = m, ptReleases = [], ptClock = now\<rparr>"

definition hasRoot :: "PartitionConfig \<Rightarrow> bool" where
  "hasRoot conf = (case pcQueues conf of Some (q # _) \<Rightarrow> confName q = RootQueue | _ \<Rightarrow> False)"

definition rootConf :: "PartitionConfig \<Rightarrow> queueConfig" where
  "rootConf conf = hd (the (pcQueues conf))"

definition updateLimits :: "string \<Rightarrow> queueConfig \<Rightarrow> PartitionContext \<Rightarrow> PartitionContext \<times> init_error option" where
  "updateLimits cpuName conf pt =
     (case UpdateConfig cpuName (ptUsers pt) conf (confName conf) of
        (m, err) \<Rightarrow> (pt\<lparr>ptUsers := m\<rparr>, map_option InitLimits err))"

definition initialPartitionFromConfig ::
    "string \<Rightarrow> (ObjectState, ObjectEvent) fsm_event \<Rightarrow> regexp \<Rightarrow> PartitionConfig \<Rightarrow> bool option \<Rightarrow> bool option \<Rightarrow>
     bool \<Rightarrow> PartitionContext \<Rightarrow> PartitionContext \<times> init_error option" where
  "initialPartitionFromConfig cpuName fsm regexp conf enabled quotaEnabled silence pt =
     (if \<not> hasRoot conf then (pt, Some NoRootQueue)
      else
        let queueConf = rootConf conf
        in (case NewConfiguredQueue cpuName fsm (ptClock pt) queueConf (ptHeap pt) [] of
              (h, Inl err) \<Rightarrow> (pt, Some (InitQueue err))
            | (h, Inr root) \<Rightarrow>
                (case addQueue cpuName fsm (ptClock pt) (confQueues queueConf) root h of
                   (h, Some err) \<Rightarrow> (pt\<lparr>ptHeap := h\<rparr>, Some (InitQueue err))
                 | (h, None) \<Rightarrow>
                     let pt = pt\<lparr>ptHeap := h, ptPlacement := NewPlacementManager regexp (pcPlacementRules conf)\<rparr>;
                         pt = updatePreemption enabled quotaEnabled pt
                     in if silence then (pt, None) else updateLimits cpuName queueConf pt)))"

definition newPartitionContext ::
    "string \<Rightarrow> (ObjectState, ObjectEvent) fsm_event \<Rightarrow> regexp \<Rightarrow> PartitionConfig \<Rightarrow> string \<Rightarrow> bool option \<Rightarrow> bool option \<Rightarrow>
     bool \<Rightarrow> PartitionContext \<Rightarrow> init_error + PartitionContext" where
  "newPartitionContext cpuName fsm regexp conf rmID enabled quotaEnabled silence pt0 =
     (if pcName conf = [] \<or> rmID = [] then Inl NoNameOrRM
      else case initialPartitionFromConfig cpuName fsm regexp conf enabled quotaEnabled silence pt0 of
             (pt, Some err) \<Rightarrow> Inl err
           | (pt, None) \<Rightarrow> Inr pt)"

definition updatePartitionDetails ::
    "nat \<Rightarrow> string \<Rightarrow> (ObjectState, ObjectEvent) fsm_event \<Rightarrow> regexp \<Rightarrow> PartitionConfig \<Rightarrow> bool option \<Rightarrow> bool option \<Rightarrow>
     PartitionContext \<Rightarrow> PartitionContext \<times> init_error option" where
  "updatePartitionDetails depth cpuName fsm regexp conf enabled quotaEnabled pt =
     (if \<not> hasRoot conf then (pt, Some NoRootQueue)
      else
        (case UpdateRules regexp (ptPlacement pt) (pcPlacementRules conf) of
           (m, Some err) \<Rightarrow> (pt, Some (InitRules err))
         | (m, None) \<Rightarrow>
             let pt = updatePreemption enabled quotaEnabled (pt\<lparr>ptPlacement := m\<rparr>);
                 queueConf = rootConf conf; h = ptHeap pt
             in (case applyConf cpuName fsm RootQueue queueConf (h rootPath) of
                   (sq, Inl err) \<Rightarrow> (pt\<lparr>ptHeap := h(rootPath := sq)\<rparr>, Some (InitQueue err))
                 | (sq, Inr _) \<Rightarrow>
                     let h = h(rootPath := UpdateQueueProperties (ptClock pt) rootPath sq None)
                     in (case updateQueues depth cpuName fsm (ptClock pt) (confQueues queueConf) rootPath [] h of
                           (h, Some err) \<Rightarrow> (pt\<lparr>ptHeap := h\<rparr>, Some (InitQueue err))
                         | (h, None) \<Rightarrow> updateLimits cpuName queueConf (pt\<lparr>ptHeap := h\<rparr>)))))"

text \<open>The clean up of a partition that is removed from the configuration.\<close>

definition removePartition ::
    "nat \<Rightarrow> (ObjectState, ObjectEvent) fsm_event \<Rightarrow> PartitionContext \<Rightarrow> PartitionContext" where
  "removePartition depth fsm pt =
     (let pt = pt\<lparr>ptHeap := MarkQueueForRemoval depth fsm (ptHeap pt) rootPath\<rparr>;
          pt = fold (\<lambda>appID pt.
                  case map_of (ptApps pt) appID of
                    None \<Rightarrow> pt
                  | Some app \<Rightarrow>
                      fst (removeApplication appID
                        (save appID (fst (app_FailApplication ''PartitionRemoved'' (load pt app))) pt)))
                (map fst (ptApps pt)) pt
      in fold (\<lambda>nodeID pt. fst (removeNode nodeID pt)) (ptNodeIDs pt) pt)"

end
