(* ===== verification/PartitionBooks.thy ===== *)
theory PartitionBooks
  imports Partition ApplicationSteps
begin

text \<open>
  The total resource of a partition is the sum of the capacities of its nodes and the maximum of the root
  queue. What an operation on an application leaves alone is its \<open>frame\<close>: the shape of the queues and the
  capacities of the nodes.
\<close>

section \<open>Loading and saving\<close>

lemma load_fields [simp]:
  "store (load pt app) = ptStore pt" "heap (load pt app) = ptHeap pt" "users (load pt app) = ptUsers pt"
  "nodes (load pt app) = ptNodes pt" "clock (load pt app) = ptClock pt"
  "releasesSent (load pt app) = ptReleases pt"
  "saID (load pt app) = saID app" "saQueue (load pt app) = saQueue app"
  "saAllocations (load pt app) = saAllocations app" "saRequests (load pt app) = saRequests app"
  "saReservations (load pt app) = saReservations app" "saState (load pt app) = saState app"
  "saMachine (load pt app) = saMachine app" "saPending (load pt app) = saPending app"
  "saAllocated (load pt app) = saAllocated app"
  "saAllocatedPlaceholder (load pt app) = saAllocatedPlaceholder app"
  "saUser (load pt app) = saUser app" "saQueuePath (load pt app) = saQueuePath app"
  by (simp_all add: load_def Application.defs world.defs)

lemma truncate_fields [simp]:
  "saAllocations (Application.truncate w) = saAllocations w"
  "saRequests (Application.truncate w) = saRequests w"
  "saReservations (Application.truncate w) = saReservations w"
  "saQueue (Application.truncate w) = saQueue w" "saID (Application.truncate w) = saID w"
  "saState (Application.truncate w) = saState w"
  by (simp_all add: Application.defs)

lemma flush_fields [simp]:
  "ptStore (flush w pt) = store w" "ptHeap (flush w pt) = heap w" "ptUsers (flush w pt) = users w"
  "ptNodes (flush w pt) = nodes w" "ptReleases (flush w pt) = releasesSent w"
  "ptApps (flush w pt) = ptApps pt" "ptNodeIDs (flush w pt) = ptNodeIDs pt"
  "ptTotal (flush w pt) = ptTotal pt" "ptAllocations (flush w pt) = ptAllocations pt"
  "ptReservations (flush w pt) = ptReservations pt" "ptPlaceholders (flush w pt) = ptPlaceholders pt"
  "ptMapping (flush w pt) = ptMapping pt" "ptClock (flush w pt) = ptClock pt"
  "ptState (flush w pt) = ptState pt" "ptPlacement (flush w pt) = ptPlacement pt"
  "ptForeign (flush w pt) = ptForeign pt" "ptQuotaPreemption (flush w pt) = ptQuotaPreemption pt"
  by (simp_all add: flush_def)

lemma save_fields [simp]:
  "ptStore (save appID w pt) = store w" "ptHeap (save appID w pt) = heap w"
  "ptUsers (save appID w pt) = users w" "ptNodes (save appID w pt) = nodes w"
  "ptApps (save appID w pt) = AList.update appID (Application.truncate w) (ptApps pt)"
  "ptNodeIDs (save appID w pt) = ptNodeIDs pt" "ptTotal (save appID w pt) = ptTotal pt"
  "ptAllocations (save appID w pt) = ptAllocations pt"
  "ptReservations (save appID w pt) = ptReservations pt"
  "ptPlaceholders (save appID w pt) = ptPlaceholders pt" "ptMapping (save appID w pt) = ptMapping pt"
  "ptClock (save appID w pt) = ptClock pt" "ptState (save appID w pt) = ptState pt"
  "ptPlacement (save appID w pt) = ptPlacement pt" "ptForeign (save appID w pt) = ptForeign pt"
  "ptQuotaPreemption (save appID w pt) = ptQuotaPreemption pt"
  by (simp_all add: save_def)

lemma counter_fields [simp]:
  "ptApps (updateAllocationCount n pt) = ptApps pt" "ptApps (incPhAllocationCount pt) = ptApps pt"
  "ptApps (decPhAllocationCount n pt) = ptApps pt" "ptApps (incReservationCount pt) = ptApps pt"
  "ptApps (decReservationCount n pt) = ptApps pt"
  "ptAllocations (updateAllocationCount n pt) = ptAllocations pt + n"
  "ptAllocations (incPhAllocationCount pt) = ptAllocations pt"
  "ptAllocations (decPhAllocationCount n pt) = ptAllocations pt"
  "ptAllocations (incReservationCount pt) = ptAllocations pt"
  "ptAllocations (decReservationCount n pt) = ptAllocations pt"
  "ptApps (onNode nodeID f pt) = ptApps pt" "ptAllocations (onNode nodeID f pt) = ptAllocations pt"
  "ptNodeIDs (onNode nodeID f pt) = ptNodeIDs pt" "ptStore (onNode nodeID f pt) = ptStore pt"
  "ptApps (updatePartitionResource d pt) = ptApps pt"
  "ptAllocations (updatePartitionResource d pt) = ptAllocations pt"
  by (simp_all add: updateAllocationCount_def incPhAllocationCount_def decPhAllocationCount_def
      incReservationCount_def decReservationCount_def onNode_def updatePartitionResource_def Let_def)

section \<open>What accounting leaves alone\<close>

text \<open>The shape of the queues: their maximum, their place in the hierarchy and their applications.\<close>

definition shape :: "qheap \<Rightarrow> qpath \<Rightarrow> resource option \<times> string list \<times> bool \<times> bool \<times> string list" where
  "shape h q = (maxResource (h q), children (h q), isLeaf (h q), isManaged (h q), applications (h q))"

lemma shape_upd: "shape (h(q := sq)) = (if shape (\<lambda>_. sq) q = shape h q then shape h
    else (shape h)(q := shape (\<lambda>_. sq) q))"
  by (auto simp: shape_def fun_eq_iff)

lemma shape_same: "shape (\<lambda>_. sq) q = shape h q \<Longrightarrow> shape (h(q := sq)) = shape h"
  by (simp add: shape_upd)

lemma shape_walk:
  "(\<And>q. h' q = h q \<or> shape h' q = shape h q) \<Longrightarrow> shape h' = shape h"
  unfolding fun_eq_iff shape_def by metis

lemma shape_walks [simp]:
  "shape (incPendingResource h p d) = shape h" "shape (decPendingResource h p d) = shape h"
  "shape (IncAllocatedResource h p d b t) = shape h" "shape (DecPreemptingResource h p d) = shape h"
  "shape (incRunningApps h p a) = shape h" "shape (decRunningApps h p) = shape h"
  by (rule shape_walk; simp add: shape_def inc_pending.walk_apply dec_pending.walk_apply
      inc_allocated.walk_apply dec_preempting.walk_apply inc_running.walk_apply dec_running.walk_apply
      decPendingQueue_def startQuotaClock_def incRunningQueue_def Let_def)+

lemma shape_guarded [simp]:
  "shape (fst (TryIncAllocatedResource h p d)) = shape h" "shape (fst (DecAllocatedResource h p d)) = shape h"
proof -
  show "shape (fst (TryIncAllocatedResource h p d)) = shape h"
  proof (cases "p = []")
    case False
    then show ?thesis
      using try_inc.walk_success_apply [OF False, of h d] try_inc.walk_failure_changes_nothing [OF False, of h d]
      by (cases "snd (TryIncAllocatedResource h p d) = None") (auto simp: shape_def fun_eq_iff)
  qed simp
  show "shape (fst (DecAllocatedResource h p d)) = shape h"
  proof (cases "p = []")
    case False
    then show ?thesis
      using dec_alloc.walk_success_apply [OF False, of h d] dec_alloc.walk_failure_changes_nothing [OF False, of h d]
      by (cases "snd (DecAllocatedResource h p d) = None") (auto simp: shape_def fun_eq_iff)
  qed simp
qed

lemma shape_recalculate: "recalculatePriority sq = (sq', v) \<Longrightarrow> shape (\<lambda>_. sq') q = shape (\<lambda>_. sq) q"
  by (auto simp: recalculatePriority_def Let_def shape_def)

lemma shape_UpdateQueuePriority [simp]: "shape (UpdateQueuePriority h p n v) = shape h"
proof (induction h p n v rule: UpdateQueuePriority.induct)
  case (2 h n p c v)
  obtain sq val where i: "updateQueuePriorityInternal (h (n # p)) c v = (sq, val)" by fastforce
  have "shape (\<lambda>_. sq) (n # p) = shape h (n # p)"
    using i shape_recalculate [of _ sq val]
    by (auto simp: updateQueuePriorityInternal_def shape_def split: if_splits)
  then have same: "shape (h(n # p := sq)) = shape h" by (rule shape_same)
  show ?case
  proof (cases "isLeaf (h (n # p))")
    case False
    then have "shape (UpdateQueuePriority (h(n # p := sq)) p n val) = shape (h(n # p := sq))"
      using 2 i by metis
    then show ?thesis using False i same by simp
  qed simp
qed simp

lemma shape_UpdateApplicationPriority [simp]: "shape (UpdateApplicationPriority h p a v) = shape h"
proof (cases p)
  case (Cons n p')
  obtain sq val where i: "updateApplicationPriorityInternal (h p) a v = (sq, val)" by fastforce
  have "shape (\<lambda>_. sq) p = shape h p"
    using i shape_recalculate [of _ sq val]
    by (auto simp: updateApplicationPriorityInternal_def shape_def split: if_splits)
  then show ?thesis using i Cons by (simp add: UpdateApplicationPriority_def shape_same)
qed (simp add: UpdateApplicationPriority_def)

lemma shape_reserve [simp]:
  "shape (h(q := Reserve (h q) a)) = shape h" "shape (h(q := UnReserve (h q) a n)) = shape h"
  by (rule shape_same; simp add: shape_def Reserve_def UnReserve_def split: option.split)+

text \<open>The identity of the application, the shape of the queues and the capacities of the nodes.\<close>

definition frame where
  "frame w = (saID w, saQueue w, shape (heap w), \<lambda>n. totalResource (nodes w n))"

lemma capacity_same [simp]:
  "totalResource (fst (RemoveAllocation sn key)) = totalResource sn"
  "totalResource (fst (node_unReserve sn a)) = totalResource sn"
  "totalResource (fst (node_Reserve sn i a)) = totalResource sn"
  "totalResource (AddAllocation sn a) = totalResource sn"
  "totalResource (fst (addAllocationInternal sn a b)) = totalResource sn"
  "totalResource (UpdateAllocatedResource sn d) = totalResource sn"
  "totalResource (fst (UpdateForeignAllocation sn a')) = totalResource sn"
  "totalResource (SetSchedulable sn b) = totalResource sn"
  by (simp_all add: RemoveAllocation_def node_unReserve_def node_Reserve_def AddAllocation_def
      addAllocationInternal_def UpdateAllocatedResource_def UpdateForeignAllocation_def SetSchedulable_def
      refreshAvailableResource_def Let_def split: option.split)

lemma frame_updates [simp]:
  "frame (mutate r f w) = frame w" "frame (w\<lparr>saPending := p\<rparr>) = frame w"
  "frame (w\<lparr>saAllocated := p\<rparr>) = frame w" "frame (w\<lparr>saAllocatedPlaceholder := p\<rparr>) = frame w"
  "frame (w\<lparr>saMaxAllocated := p\<rparr>) = frame w" "frame (w\<lparr>saAllocations := m\<rparr>) = frame w"
  "frame (w\<lparr>saRequests := m\<rparr>) = frame w" "frame (w\<lparr>saReservations := rs\<rparr>) = frame w"
  "frame (w\<lparr>saSubmissionTime := t\<rparr>) = frame w" "frame (w\<lparr>saHasPlaceholderAlloc := b\<rparr>) = frame w"
  "frame (w\<lparr>users := m'\<rparr>) = frame w" "frame (w\<lparr>saState := s\<rparr>) = frame w"
  by (simp_all add: frame_def mutate_def)

lemma frame_simple [simp]:
  "frame (incUserResourceUsage res w) = frame w" "frame (decUserResourceUsage res b w) = frame w"
  "frame (queue_UnReserve n w) = frame w" "frame (clearStateTimer w) = frame w"
  "frame (setStateTimer i s e w) = frame w" "frame (clearPlaceholderTimer w) = frame w"
  "frame (initPlaceholderTimer w) = frame w" "frame (insert_request r w) = frame w"
  "frame (remove_request r w) = frame w" "frame (addPlaceholderData r w) = frame w"
  "frame (countPlaceholder f tg w) = frame w" "frame (recordState s w) = frame w"
  "frame (leaveState s s' w) = frame w" "frame (cleanupAsks w) = frame w"
  "frame (addToPriorities p w) = frame w" "frame (removeFromPriorities p w) = frame w"
  by (simp_all add: frame_def incUserResourceUsage_def decUserResourceUsage_def queue_UnReserve_def
      clearStateTimer_def setStateTimer_def clearPlaceholderTimer_def initPlaceholderTimer_def
      insert_request_def remove_request_def addPlaceholderData_def countPlaceholder_def recordState_def
      leaveState_def cleanupAsks_def addToPriorities_def removeFromPriorities_def setAskMaxPriority_def Let_def
      split: option.split)

lemma frame_enter [simp]: "frame (enterState s d i w) = frame w"
  by (simp add: enterState_def frame_def recordState_def setStateTimer_def clearPlaceholderTimer_def
      cleanupAsks_def Let_def split: applicationState.split option.split)

lemma frame_event [simp]:
  "frame (fst (HandleApplicationEventWithInfo e i w)) = frame w" "frame (handleEvent e w) = frame w"
  by (simp_all add: handleEvent_def HandleApplicationEventWithInfo_def split: prod.split)

lemma frame_heap: "shape h = shape (heap w) \<Longrightarrow> frame (w\<lparr>heap := h\<rparr>) = frame w"
  by (simp add: frame_def)

lemma frame_nodes:
  "totalResource sn = totalResource (nodes w n) \<Longrightarrow> frame (w\<lparr>nodes := (nodes w)(n := sn)\<rparr>) = frame w"
  by (auto simp: frame_def)

lemma frameD:
  assumes "frame w' = frame w"
  shows "saID w' = saID w" "saQueue w' = saQueue w" "shape (heap w') = shape (heap w)"
    "totalResource (nodes w' n) = totalResource (nodes w n)"
  using assms by (simp_all add: frame_def fun_eq_iff)

lemmas frame_fields [simp] =
  frame_updates(1) [THEN frameD(1)] frame_updates(1) [THEN frameD(2)] frame_updates(1) [THEN frameD(3)]
  frame_updates(1) [THEN frameD(4)]
  frame_simple [THEN frameD(1)] frame_simple [THEN frameD(2)] frame_simple [THEN frameD(3)]
  frame_simple [THEN frameD(4)]
  frame_event [THEN frameD(1)] frame_event [THEN frameD(2)] frame_event [THEN frameD(3)]
  frame_event [THEN frameD(4)]

lemma frame_asks [simp]:
  "frame (fst (allocateAsk r w)) = frame w" "frame (fst (deallocateAsk r w)) = frame w"
  "frame (fst (AllocateAsk key w)) = frame w" "frame (fst (DeallocateAsk key w)) = frame w"
  "frame (addAllocationAskInternal r w) = frame w" "frame (RecoverAllocationAsk a w) = frame w"
proof -
  show a: "frame (fst (allocateAsk r w)) = frame w" "frame (fst (deallocateAsk r w)) = frame w" for r w
    by (simp_all add: allocateAsk_def deallocateAsk_def frame_def Let_def)
  show "frame (fst (AllocateAsk key w)) = frame w" "frame (fst (DeallocateAsk key w)) = frame w"
    by (simp_all add: AllocateAsk_def DeallocateAsk_def a split: option.split)
  show "frame (addAllocationAskInternal r w) = frame w" "frame (RecoverAllocationAsk a w) = frame w"
    by (simp_all add: addAllocationAskInternal_def RecoverAllocationAsk_def Let_def split: option.split)
qed

lemmas frame_ask_fields [simp] =
  frame_asks [THEN frameD(1)] frame_asks [THEN frameD(2)] frame_asks [THEN frameD(3)] frame_asks [THEN frameD(4)]

lemma frame_AddAllocationAsk [simp]: "frame (fst (AddAllocationAsk a w)) = frame w"
proof (cases a)
  case (Some r)
  define w1 where w1: "w1 = (if createTime (store w r) < saSubmissionTime w
    then w\<lparr>saSubmissionTime := createTime (store w r)\<rparr> else w)"
  obtain old w2 where w2: "(case map_of (saRequests w1) (allocationKey (store w r)) of
      Some old \<Rightarrow> if \<not> allocated (store w1 old)
        then (Clone (resource_of w1 old), removeFromPriorities (priority (store w1 old)) w1) else (None, w1)
    | None \<Rightarrow> (None, w1)) = (old, w2)" by fastforce
  have "frame w1 = frame w" by (simp add: w1)
  moreover have "frame w2 = frame w1" using w2 by (auto split: option.splits if_splits)
  ultimately have f2: "frame w2 = frame w" by simp
  show ?thesis
  proof (cases "allocated (store w r) \<or> IsZero (resource_of w r)")
    case False
    then show ?thesis
      unfolding Some AddAllocationAsk_def option.case
      by (simp add: Let_def w1 [symmetric] w2 frame_def frameD [OF f2])
  qed (simp add: AddAllocationAsk_def Some Let_def)
qed (simp add: AddAllocationAsk_def)

lemma frame_reservations [simp]:
  "frame (fst (unReserveInternal reserve w)) = frame w"
  "frame (fst (app_UnReserve nodeID r w)) = frame w"
  "frame (fst (reserveInternal nodeID r w)) = frame w"
proof -
  show u: "frame (fst (unReserveInternal reserve w)) = frame w" for reserve and w :: world
  proof -
    obtain sn num where n: "node_unReserve (nodes w (resNodeID reserve)) (Some (store w (resAlloc reserve))) = (sn, num)"
      by fastforce
    then have "totalResource sn = totalResource (nodes w (resNodeID reserve))"
      using capacity_same(2) [of "nodes w (resNodeID reserve)" "Some (store w (resAlloc reserve))"] by simp
    then show ?thesis by (simp add: unReserveInternal_def n Let_def frame_nodes)
  qed
  then show "frame (fst (app_UnReserve nodeID r w)) = frame w"
    by (simp add: app_UnReserve_def split: option.split)
  have "node_Reserve (nodes w nodeID) (Some (saID w)) (Some a) = (sn, err) \<Longrightarrow>
      totalResource sn = totalResource (nodes w nodeID)" for a sn err
    using capacity_same(3) [of "nodes w nodeID" "Some (saID w)" "Some a"] by simp
  then show "frame (fst (reserveInternal nodeID r w)) = frame w"
    by (auto simp: reserveInternal_def Let_def frame_nodes split: option.split prod.split)
qed

lemma frame_unReserveAll [simp]: "frame (fst (unReserveAll rs w)) = frame w"
proof -
  have "frame (fst (fold (\<lambda>reserve (w, total). case unReserveInternal reserve w of (w, num) \<Rightarrow> (w, total + num))
      rs (w, t))) = frame w" for t
    by (induction rs arbitrary: w t) (simp_all add: prod.case_eq_if)
  then show ?thesis by (simp add: unReserveAll_def)
qed

lemma frame_removeAllAsks [simp]: "frame (fst (removeAllAsks w)) = frame w"
proof -
  obtain w1 n where w1: "unReserveAll (map snd (saReservations w)) w = (w1, n)" by fastforce
  have f: "frame w1 = frame w"
    using frame_unReserveAll [of "map snd (saReservations w)" w] by (simp add: w1)
  show ?thesis
    unfolding removeAllAsks_def w1 prod.case Let_def
    by (simp add: frame_def frameD [OF f])
qed

lemma frame_removeOneAsk [simp]: "frame (fst (removeOneAsk key w)) = frame w"
proof -
  obtain w1 n where w1: "(case map_of (saReservations w) key of
            Some reserve \<Rightarrow>
              (case unReserveInternal reserve w of (w, releases) \<Rightarrow> (queue_UnReserve releases w, releases))
          | None \<Rightarrow> (w, 0)) = (w1, n)" by fastforce
  have "frame w1 = frame w"
  proof (cases "map_of (saReservations w) key")
    case (Some reserve)
    then show ?thesis
      using w1 frame_reservations(1) [of reserve w] by (cases "unReserveInternal reserve w") auto
  qed (use w1 in simp)
  then show ?thesis
    unfolding removeOneAsk_def w1 prod.case
    by (simp add: Let_def split: option.split)
qed

lemma frame_removeAsksInternal [simp]: "frame (fst (removeAsksInternal key w)) = frame w"
proof -
  obtain w1 d n where w1: "(if key = [] then removeAllAsks w else removeOneAsk key w) = (w1, d, n)"
    by (metis prod_cases3)
  then have f: "frame w1 = frame w"
    using frame_removeAllAsks frame_removeOneAsk by (metis fst_conv)
  define w2 where w2: "w2 = w1\<lparr>heap := decPendingResource (heap w1) (saQueue w1) d\<rparr>"
  have "frame w2 = frame w" using f by (simp add: w2 frame_heap)
  then show ?thesis
    unfolding removeAsksInternal_def w1 prod.case Let_def w2 [symmetric] by simp
qed

lemma frame_allocations [simp]:
  "frame (addAllocationInternal_app t r w) = frame w"
  "frame (fst (removeAllocationInternal key rt w)) = frame w"
  "frame (fst (app_ReplaceAllocation key w)) = frame w"
proof -
  show a: "frame (addAllocationInternal_app t r w) = frame w" for t r w
    by (simp add: addAllocationInternal_app_def Let_def)
  show m: "frame (fst (removeAllocationInternal key rt w)) = frame w" for rt
  proof (cases "map_of (saAllocations w) key")
    case (Some r)
    obtain w1 e where w1: "(if placeholder (store w r) then removePlaceholder r rt w else removeReal r w) = (w1, e)"
      by fastforce
    then have "frame w1 = frame w"
      by (auto simp: removePlaceholder_def removeReal_def Let_def split: if_splits)
    then show ?thesis by (simp add: removeAllocationInternal_def Some w1 Let_def split: option.split)
  qed (simp add: removeAllocationInternal_def)
  obtain w1 ph where "removeAllocationInternal key PlaceholderReplaced w = (w1, ph)" by fastforce
  then show "frame (fst (app_ReplaceAllocation key w)) = frame w"
    using m [of PlaceholderReplaced]
    by (simp add: app_ReplaceAllocation_def Let_def a split: option.split)
qed

lemmas frame_allocation_fields [simp] =
  frame_allocations [THEN frameD(1)] frame_allocations [THEN frameD(2)] frame_allocations [THEN frameD(3)]
  frame_allocations [THEN frameD(4)]
  frame_removeAsksInternal [THEN frameD(1)] frame_removeAsksInternal [THEN frameD(2)]
  frame_removeAsksInternal [THEN frameD(3)] frame_removeAsksInternal [THEN frameD(4)]

lemma countAll_view:
  fixes w :: world and cnt :: "nat \<Rightarrow> world \<Rightarrow> world"
  defines "cnt \<equiv> \<lambda>r w. if placeholder (store w r)
      then countPlaceholder (\<lambda>ph. ph\<lparr>phTimedOut := phTimedOut ph + 1\<rparr>) (taskGroupName (store w r)) w else w"
  shows "book_view (fold cnt rs w) = book_view w" "frame (fold cnt rs w) = frame w"
proof -
  show "book_view (fold cnt rs w) = book_view w"
    unfolding cnt_def by (induction rs arbitrary: w) simp_all
  show "frame (fold cnt rs w) = frame w"
    unfolding cnt_def by (induction rs arbitrary: w) simp_all
qed

lemma RemoveAllAllocations_effect:
  "snd (RemoveAllAllocations w) = map snd (saAllocations w)"
  "saAllocations (fst (RemoveAllAllocations w)) = []"
  "store (fst (RemoveAllAllocations w)) = store w"
  "frame (fst (RemoveAllAllocations w)) = frame w"
proof -
  define w1 where w1: "w1 = fold (\<lambda>r w. if placeholder (store w r)
      then countPlaceholder (\<lambda>ph. ph\<lparr>phTimedOut := phTimedOut ph + 1\<rparr>) (taskGroupName (store w r)) w
      else w) (map snd (saAllocations w)) w"
  have v1: "book_view w1 = book_view w" "frame w1 = frame w" unfolding w1 by (rule countAll_view)+
  show "snd (RemoveAllAllocations w) = map snd (saAllocations w)"
    "saAllocations (fst (RemoveAllAllocations w)) = []"
    "store (fst (RemoveAllAllocations w)) = store w"
    "frame (fst (RemoveAllAllocations w)) = frame w"
    unfolding RemoveAllAllocations_def Let_def w1 [symmetric]
    by (simp_all add: viewD [OF v1(1)] v1(2))
qed

lemma RollbackAllocation_effect:
  "frame (fst (RollbackAllocation key w)) = frame w"
  "saAllocations (fst (RollbackAllocation key w)) =
     (case snd (RollbackAllocation key w) of Inl _ \<Rightarrow> saAllocations w | Inr _ \<Rightarrow> AList.delete key (saAllocations w))"
  "snd (RollbackAllocation key w) = Inr res \<Longrightarrow> map_of (saAllocations w) key \<noteq> None"
proof -
  have d: "frame w1 = frame w" "saAllocations w1 = saAllocations w" if "deallocateAsk r w = (w1, out)" for r w1 out
  proof -
    show "frame w1 = frame w" using that frame_asks(2) by (metis fst_conv)
    have "saAllocations (fst (deallocateAsk r w)) = saAllocations w" by (simp add: deallocateAsk_def Let_def)
    then show "saAllocations w1 = saAllocations w" using that by simp
  qed
  show "frame (fst (RollbackAllocation key w)) = frame w"
    by (auto simp: RollbackAllocation_def Let_def d split: option.split prod.split sum.split)
  show "saAllocations (fst (RollbackAllocation key w)) =
     (case snd (RollbackAllocation key w) of Inl _ \<Rightarrow> saAllocations w | Inr _ \<Rightarrow> AList.delete key (saAllocations w))"
    by (auto simp: RollbackAllocation_def Let_def d split: option.split prod.split sum.split)
  show "snd (RollbackAllocation key w) = Inr res \<Longrightarrow> map_of (saAllocations w) key \<noteq> None"
    by (auto simp: RollbackAllocation_def split: if_splits option.splits)
qed

lemma SetAllocatedResource_effect:
  "frame (SetAllocatedResource r res w) = frame w"
  "saAllocations (SetAllocatedResource r res w) = saAllocations w"
  by (auto simp: SetAllocatedResource_def Let_def frame_def mutate_def split: option.split)

lemma UpdateAllocationResources_effect:
  "frame (fst (UpdateAllocationResources a b w)) = frame w"
  "saAllocations (fst (UpdateAllocationResources a b w)) = saAllocations w"
proof -
  have "frame (fst (UpdateAllocationResources a b w)) = frame w \<and>
    saAllocations (fst (UpdateAllocationResources a b w)) = saAllocations w"
    unfolding UpdateAllocationResources_def Let_def
    by (simp add: SetAllocatedResource_effect frame_heap split: option.split)
  then show "frame (fst (UpdateAllocationResources a b w)) = frame w"
    "saAllocations (fst (UpdateAllocationResources a b w)) = saAllocations w" by auto
qed

lemma asks_allocations [simp]:
  "saAllocations (fst (allocateAsk r w)) = saAllocations w" "saAllocations (fst (deallocateAsk r w)) = saAllocations w"
  "saAllocations (fst (AllocateAsk key w)) = saAllocations w"
  "saAllocations (fst (DeallocateAsk key w)) = saAllocations w"
  "saAllocations (RecoverAllocationAsk a w) = saAllocations w"
  by (simp_all add: allocateAsk_def deallocateAsk_def AllocateAsk_def DeallocateAsk_def
      RecoverAllocationAsk_def Let_def split: option.split)

lemma reservation_allocations [simp]:
  "saAllocations (fst (app_UnReserve nodeID r w)) = saAllocations w"
  "saAllocations (fst (reserveInternal nodeID r w)) = saAllocations w"
  by (auto simp: app_UnReserve_def reserveInternal_def Let_def split: option.split prod.split)

lemma removeAsks_allocations [simp]: "saAllocations (fst (removeAsksInternal key w)) = saAllocations w"
proof -
  have u: "saAllocations (fst (unReserveAll rs w)) = saAllocations w" for rs
  proof -
    have "saAllocations (fst (fold (\<lambda>reserve (w, total). case unReserveInternal reserve w of (w, num) \<Rightarrow> (w, total + num))
        rs (w, t))) = saAllocations w" for t
      by (induction rs arbitrary: w t) (simp_all add: prod.case_eq_if)
    then show ?thesis by (simp add: unReserveAll_def)
  qed
  have a: "saAllocations (fst (removeAllAsks w)) = saAllocations w"
    using u [of "map snd (saReservations w)"] by (simp add: removeAllAsks_def Let_def prod.case_eq_if)
  obtain w1 n where w1: "(case map_of (saReservations w) key of
            Some reserve \<Rightarrow>
              (case unReserveInternal reserve w of (w, releases) \<Rightarrow> (queue_UnReserve releases w, releases))
          | None \<Rightarrow> (w, 0)) = (w1, n)" by fastforce
  have "saAllocations w1 = saAllocations w"
  proof (cases "map_of (saReservations w) key")
    case (Some reserve)
    have "saAllocations (fst (unReserveInternal reserve w)) = saAllocations w" by simp
    then show ?thesis using w1 Some by (cases "unReserveInternal reserve w") auto
  qed (use w1 in simp)
  then have o: "saAllocations (fst (removeOneAsk key w)) = saAllocations w"
    unfolding removeOneAsk_def w1 prod.case by (simp add: Let_def split: option.split)
  obtain w2 d k where "(if key = [] then removeAllAsks w else removeOneAsk key w) = (w2, d, k)"
    by (metis prod_cases3)
  moreover from this have "saAllocations w2 = saAllocations w" using a o by (metis fst_conv)
  ultimately show ?thesis by (simp add: removeAsksInternal_def Let_def)
qed

section \<open>The total resource\<close>

definition capacity_sum :: "PartitionContext \<Rightarrow> string \<Rightarrow> int" where
  "capacity_sum pt k = (\<Sum>nodeID\<leftarrow>ptNodeIDs pt. amount (totalResource (ptNodes pt nodeID)) k)"

definition root_max :: "resource option \<Rightarrow> resource option" where
  "root_max tot = (if StrictlyGreaterThanZero tot then tot else None)"

definition total_ok :: "PartitionContext \<Rightarrow> bool" where
  "total_ok pt \<longleftrightarrow>
     distinct (ptNodeIDs pt) \<and> (\<forall>k. amount (ptTotal pt) k = capacity_sum pt k) \<and>
     maxResource (ptHeap pt rootPath) = root_max (ptTotal pt)"

definition small_partition :: "PartitionContext \<Rightarrow> bool" where
  "small_partition pt \<longleftrightarrow> small (ptTotal pt) \<and> (\<forall>nodeID. small (totalResource (ptNodes pt nodeID)))"

text \<open>What the total resource depends on.\<close>

definition pframe where
  "pframe pt = (ptNodeIDs pt, ptTotal pt, maxResource (ptHeap pt rootPath), \<lambda>n. totalResource (ptNodes pt n))"

lemma pframe_total:
  assumes "pframe pt' = pframe pt"
  shows "total_ok pt' = total_ok pt" "small_partition pt' = small_partition pt"
    "totalResource (ptNodes pt' n) = totalResource (ptNodes pt n)"
proof -
  have "totalResource (ptNodes pt' n) = totalResource (ptNodes pt n)" for n
    using assms by (simp add: pframe_def fun_eq_iff)
  then show "total_ok pt' = total_ok pt" "small_partition pt' = small_partition pt"
    "totalResource (ptNodes pt' n) = totalResource (ptNodes pt n)"
    using assms by (simp_all add: pframe_def total_ok_def small_partition_def capacity_sum_def)
qed

lemma shape_max: "shape h' = shape h \<Longrightarrow> maxResource (h' q) = maxResource (h q)"
  by (auto simp: shape_def fun_eq_iff)

lemma pframe_save: "frame w = frame (load pt app) \<Longrightarrow> pframe (save appID w pt) = pframe pt"
  using frameD [of w "load pt app"] shape_max [of "heap w" "ptHeap pt" rootPath]
  by (simp add: pframe_def fun_eq_iff)

lemma pframe_counters [simp]:
  "pframe (updateAllocationCount n pt) = pframe pt" "pframe (incPhAllocationCount pt) = pframe pt"
  "pframe (decPhAllocationCount n pt) = pframe pt" "pframe (incReservationCount pt) = pframe pt"
  "pframe (decReservationCount n pt) = pframe pt" "pframe (pt\<lparr>ptApps := a\<rparr>) = pframe pt"
  "pframe (pt\<lparr>ptMapping := m\<rparr>) = pframe pt" "pframe (pt\<lparr>ptForeign := f\<rparr>) = pframe pt"
  "pframe (pt\<lparr>ptStore := st\<rparr>) = pframe pt"
  by (simp_all add: pframe_def updateAllocationCount_def incPhAllocationCount_def decPhAllocationCount_def
      incReservationCount_def decReservationCount_def)

lemma pframe_onNode:
  "(\<And>sn. totalResource (f sn) = totalResource sn) \<Longrightarrow> pframe (onNode nodeID f pt) = pframe pt"
  by (auto simp: pframe_def onNode_def)

lemma pframe_unReserve [simp]: "pframe (pt_unReserve appID nodeID r pt) = pframe pt"
proof (cases "map_of (ptApps pt) appID")
  case (Some app)
  obtain w num where "app_UnReserve nodeID r (load pt app) = (w, num)" by fastforce
  moreover from this have "frame w = frame (load pt app)" using frame_reservations(2) by (metis fst_conv)
  ultimately show ?thesis by (simp add: pt_unReserve_def Some pframe_save)
qed (simp add: pt_unReserve_def)

lemma pframe_unReserveNode [simp]: "pframe (unReserveNode nodeID pt) = pframe pt"
proof -
  have "pframe (fold (\<lambda>(key, res) pt.
             case map_of (ptApps pt) (resAppID res) of
               None \<Rightarrow> pt
             | Some app \<Rightarrow>
                 (case objectOf app (resAllocKey res) of
                    None \<Rightarrow> pt
                  | Some r \<Rightarrow> pt_unReserve (resAppID res) nodeID r pt)) rs pt) = pframe pt" for rs
    by (induction rs arbitrary: pt) (auto split: option.split)
  then show ?thesis by (simp add: unReserveNode_def)
qed

lemma confirmReplacement_frame [simp]: "frame (confirmReplacement key r real w) = frame w"
  by (simp add: confirmReplacement_def Let_def frame_heap)

lemma reverseReplacement_effect [simp]:
  "frame (reverseReplacement r other a w) = frame w"
  "saAllocations (reverseReplacement r other a w) = saAllocations w"
  by (simp_all add: reverseReplacement_def Let_def)

lemma releaseFromApp_frame: "releaseFromApp key r queue w = (w', b) \<Longrightarrow> frame w' = frame w"
proof -
  assume a: "releaseFromApp key r queue w = (w', b)"
  obtain w1 o1 where w1: "removeAllocationInternal key UnknownTermination w = (w1, o1)" by fastforce
  have f: "frame w1 = frame w" using w1 frame_allocations(2) by (metis fst_conv)
  show "frame w' = frame w"
    using a f by (auto simp: releaseFromApp_def w1 Let_def frame_heap split: option.splits if_splits)
qed

text \<open>One step of the loop over the allocations of a node that is removed: what it does to the application.\<close>

definition node_step :: "string \<Rightarrow> nat \<Rightarrow> world \<Rightarrow> world \<times> bool \<times> nat list" where
  "node_step key r w =
     (let al = store w r; queue = saQueue w
      in case release al of
           Some other \<Rightarrow>
             if placeholder al \<and> allocNodeID al \<noteq> allocNodeID (store w other)
             then (confirmReplacement key r other w, True, [other])
             else (case releaseFromApp key r queue (reverseReplacement r other (if placeholder al then other else r) w) of
                     (w, b) \<Rightarrow> (w, b, []))
         | None \<Rightarrow> (case releaseFromApp key r queue w of (w, b) \<Rightarrow> (w, b, [])))"

lemma removeNodeAllocation_step:
  assumes "map_of (ptApps pt) (applicationID a) = Some app" "objectOf app (allocationKey a) = Some r"
    and "node_step (allocationKey a) r (load pt app) = (w, b, c)"
  shows "\<exists>n. removeNodeAllocation a (pt, rel, conf) =
    (decPhAllocationCount n (save (applicationID a) w pt), if b then rel @ [r] else rel, conf @ c)"
proof -
  have d0: "\<exists>n. pt' = decPhAllocationCount n pt'" for pt'
    by (rule exI [of _ 0]) (simp add: decPhAllocationCount_def)
  show ?thesis
    using assms
    by (auto simp: removeNodeAllocation_def node_step_def Let_def split: option.splits if_splits prod.splits bool.splits
        intro: d0)
qed

lemma removeNodeAllocation_skip:
  "map_of (ptApps pt) (applicationID a) = None \<Longrightarrow> removeNodeAllocation a (pt, rel, conf) = (pt, rel, conf)"
  "map_of (ptApps pt) (applicationID a) = Some app \<Longrightarrow> objectOf app (allocationKey a) = None \<Longrightarrow>
   removeNodeAllocation a (pt, rel, conf) = (pt, rel, conf)"
  by (simp_all add: removeNodeAllocation_def)

lemma node_step_frame: "node_step key r w = (w', b, c) \<Longrightarrow> frame w' = frame w"
  by (auto simp: node_step_def Let_def dest: releaseFromApp_frame split: option.splits if_splits prod.splits)

lemma pframe_removeNodeAllocation [simp]: "pframe (fst (removeNodeAllocation a st)) = pframe (fst st)"
proof (cases st)
  case (fields pt rel conf)
  consider "map_of (ptApps pt) (applicationID a) = None"
    | app where "map_of (ptApps pt) (applicationID a) = Some app" "objectOf app (allocationKey a) = None"
    | app r w b c where "map_of (ptApps pt) (applicationID a) = Some app" "objectOf app (allocationKey a) = Some r"
        "node_step (allocationKey a) r (load pt app) = (w, b, c)"
    by (metis not_None_eq prod_cases3)
  then show ?thesis
  proof cases
    case (3 app r w b c)
    from removeNodeAllocation_step [OF 3] obtain n where
      "removeNodeAllocation a (pt, rel, conf) =
        (decPhAllocationCount n (save (applicationID a) w pt), if b then rel @ [r] else rel, conf @ c)" by blast
    with pframe_save [OF node_step_frame [OF 3(3)]] show ?thesis by (simp add: fields)
  qed (simp_all add: fields removeNodeAllocation_skip)
qed

lemma pframe_removeNodeAllocations [simp]: "pframe (fst (removeNodeAllocations nodeID pt)) = pframe pt"
proof -
  have "pframe (fst (fold removeNodeAllocation as st)) = pframe (fst st)" for as st
    by (induction as arbitrary: st) simp_all
  then have "pframe (fst (fold removeNodeAllocation as (pt, [], []))) = pframe pt" for as by simp
  then show ?thesis by (simp add: removeNodeAllocations_def split: prod.split) (metis fst_conv)
qed

lemma updatePartitionResource_total:
  assumes "small (ptTotal pt)" "wf_res delta" "\<And>k. \<bar>amount delta k\<bar> \<le> 2 ^ 60" "maxResource (ptHeap pt rootPath) = root_max (ptTotal pt)"
  defines "pt' \<equiv> updatePartitionResource delta pt"
  shows "amount (ptTotal pt') k = amount (ptTotal pt) k + amount delta k"
    and "maxResource (ptHeap pt' rootPath) = root_max (ptTotal pt')"
    and "ptNodeIDs pt' = ptNodeIDs pt" "ptNodes pt' = ptNodes pt" "wf_res (ptTotal pt')"
proof -
  let ?sum = "if ptTotal pt = None then Clone delta else AddTo (ptTotal pt) delta"
  have wf: "wf_res ?sum" using assms(1,2) by (simp add: smallD wf_intros)
  show "ptNodeIDs pt' = ptNodeIDs pt" "ptNodes pt' = ptNodes pt"
    by (simp_all add: pt'_def updatePartitionResource_def Let_def)
  show wf': "wf_res (ptTotal pt')"
    using wf smallD(1) [OF assms(1)] by (simp add: pt'_def updatePartitionResource_def Let_def wf_intros)
  have "\<bar>amount (ptTotal pt) k + amount delta k\<bar> \<le> 2 ^ 62"
    using smallD(2) [OF assms(1), of k] assms(3) [of k] by simp
  then have "amount ?sum k = amount (ptTotal pt) k + amount delta k"
    using assms(2) smallD(1) [OF assms(1)] by (simp add: amount_simps sat64_small)
  then show "amount (ptTotal pt') k = amount (ptTotal pt) k + amount delta k"
    using wf amount_Prune [OF wf] by (auto simp: pt'_def updatePartitionResource_def Let_def)
  show "maxResource (ptHeap pt' rootPath) = root_max (ptTotal pt')"
    using assms(4) wf'
    by (auto simp: pt'_def updatePartitionResource_def Let_def SetMaxResource_def rootPath_def root_max_def Clone_id)
qed

lemma total_okI:
  assumes "small (ptTotal pt)" "wf_res delta" "\<And>k. \<bar>amount delta k\<bar> \<le> 2 ^ 60" "maxResource (ptHeap pt rootPath) = root_max (ptTotal pt)"
    and "distinct (ptNodeIDs pt)" "\<And>k. amount (ptTotal pt) k + amount delta k = capacity_sum pt k"
  shows "total_ok (updatePartitionResource delta pt)"
  using updatePartitionResource_total [OF assms(1-4)] assms(5,6) by (simp add: total_ok_def capacity_sum_def)

lemma sum_list_fun_upd:
  "distinct xs \<Longrightarrow> n \<in> set xs \<Longrightarrow>
   (\<Sum>x\<leftarrow>xs. f ((g(n := v)) x)) = (\<Sum>x\<leftarrow>xs. f (g x)) - f (g n) + (f v :: int)"
  by (induction xs) (auto simp: fun_upd_def cong: map_cong intro!: arg_cong [where f = sum_list])

lemma sum_list_removeAll:
  "distinct xs \<Longrightarrow> n \<in> set xs \<Longrightarrow> (\<Sum>x\<leftarrow>removeAll n xs. f x) = (\<Sum>x\<leftarrow>xs. f x) - (f n :: int)"
  by (induction xs) auto

lemma total_ok_addNode:
  assumes "total_ok pt" "small_partition pt" "small (totalResource sn)"
  shows "total_ok (fst (pt_AddNode (Some sn) pt))"
proof -
  let ?pt = "pt\<lparr>ptNodeIDs := ptNodeIDs pt @ [NodeID sn], ptNodes := (ptNodes pt)(NodeID sn := sn)\<rparr>"
  have "total_ok (updatePartitionResource (Clone (totalResource sn)) ?pt)" if "NodeID sn \<notin> set (ptNodeIDs pt)"
  proof (rule total_okI)
    have "(\<Sum>x\<leftarrow>ptNodeIDs pt. amount (totalResource (((ptNodes pt)(NodeID sn := sn)) x)) k) = capacity_sum pt k" for k
      unfolding capacity_sum_def using that by (intro arg_cong [where f = sum_list] map_cong) auto
    then show "amount (ptTotal ?pt) k + amount (Clone (totalResource sn)) k = capacity_sum ?pt k" for k
      using assms smallD(1) [OF assms(3)] by (simp add: capacity_sum_def [of ?pt] total_ok_def amount_simps)
    show "\<bar>amount (Clone (totalResource sn)) k\<bar> \<le> 2 ^ 60" for k
      using smallD(2) [OF assms(3), of k] smallD(1) [OF assms(3)] by (simp add: Clone_id)
  qed (use assms that in \<open>auto simp: total_ok_def small_partition_def Clone_id smallD\<close>)
  then show ?thesis using assms(1) by (auto simp: pt_AddNode_def addNodeToList_def GetNode_def)
qed

lemma total_ok_removeNode:
  assumes "total_ok pt" "small_partition pt"
  shows "total_ok (fst (removeNode nodeID pt))"
proof (cases "nodeID \<in> set (ptNodeIDs pt)")
  case True
  let ?pt = "pt\<lparr>ptNodeIDs := removeAll nodeID (ptNodeIDs pt)\<rparr>"
  obtain pt2 rel conf where r: "removeNodeAllocations nodeID (unReserveNode nodeID ?pt) = (pt2, rel, conf)"
    using prod_cases3 by blast
  have pf: "pframe pt2 = pframe ?pt"
    using pframe_removeNodeAllocations [of nodeID "unReserveNode nodeID ?pt"] by (simp add: r)
  have cap: "totalResource (ptNodes pt2 n) = totalResource (ptNodes pt n)" for n
    using pframe_total(3) [OF pf] by simp
  have same: "ptTotal pt2 = ptTotal pt" "ptNodeIDs pt2 = removeAll nodeID (ptNodeIDs pt)"
    "maxResource (ptHeap pt2 rootPath) = maxResource (ptHeap pt rootPath)"
    using pf by (simp_all add: pframe_def)
  have sm: "small (totalResource (ptNodes pt nodeID))" using assms(2) by (simp add: small_partition_def)
  have neg: "amount (Multiply (totalResource (ptNodes pt nodeID)) (Quantity (- 1))) k =
      - amount (totalResource (ptNodes pt nodeID)) k" for k
    using smallD(1) [OF sm] smallD(2) [OF sm, of k] by (simp add: amount_simps sat64_small)
  have "total_ok (updatePartitionResource (Multiply (totalResource (ptNodes pt2 nodeID)) (Quantity (- 1))) pt2)"
  proof (rule total_okI)
    show "wf_res (Multiply (totalResource (ptNodes pt2 nodeID)) (Quantity (- 1)))"
      using sm by (simp add: cap smallD wf_intros)
    show "\<bar>amount (Multiply (totalResource (ptNodes pt2 nodeID)) (Quantity (- 1))) k\<bar> \<le> 2 ^ 60" for k
      using smallD(2) [OF sm, of k] by (simp add: cap neg)
    show "amount (ptTotal pt2) k + amount (Multiply (totalResource (ptNodes pt2 nodeID)) (Quantity (- 1))) k =
        capacity_sum pt2 k" for k
      using assms(1) True by (simp add: capacity_sum_def same cap neg total_ok_def sum_list_removeAll)
  qed (use assms in \<open>simp_all add: same total_ok_def small_partition_def distinct_removeAll\<close>)
  then show ?thesis using True by (simp add: removeNode_def removeNodeFromList_def GetNode_def r)
qed (use assms in \<open>simp add: removeNode_def removeNodeFromList_def GetNode_def\<close>)

lemma total_ok_setCapacity:
  assumes "total_ok pt" "small_partition pt" "small cap" "nodeID \<in> set (ptNodeIDs pt)"
    and "SetCapacity (ptNodes pt nodeID) cap = (sn, delta)"
  shows "total_ok (updatePartitionResource delta (onNode nodeID (\<lambda>_. sn) pt))"
proof (cases "Equals (totalResource (ptNodes pt nodeID)) cap")
  case True
  then have "sn = ptNodes pt nodeID" "delta = None" using assms(5) by (simp_all add: SetCapacity_def)
  then show ?thesis using assms(1) by (simp add: updatePartitionResource_def onNode_def)
next
  case False
  let ?pt = "onNode nodeID (\<lambda>_. sn) pt"
  have sm: "small (totalResource (ptNodes pt nodeID))" using assms(2) by (simp add: small_partition_def)
  have d: "delta = Sub cap (totalResource (ptNodes pt nodeID))" "totalResource sn = Prune cap"
    using assms(5) False by (auto simp: SetCapacity_def Let_def refreshAvailableResource_def)
  have a: "amount delta k = amount cap k - amount (totalResource (ptNodes pt nodeID)) k" for k
    using small_ops(2) [OF assms(3) sm] by (simp add: d)
  show ?thesis
  proof (rule total_okI)
    show "wf_res delta" using sm assms(3) by (simp add: d smallD wf_intros)
    show "\<bar>amount delta k\<bar> \<le> 2 ^ 60" for k
      using smallD(2) [OF sm, of k] smallD(2) [OF assms(3), of k] by (simp add: a)
    show "amount (ptTotal ?pt) k + amount delta k = capacity_sum ?pt k" for k
      using assms smallD(1) [OF assms(3)]
        sum_list_fun_upd [of "ptNodeIDs pt" nodeID "\<lambda>x. amount (totalResource x) k" "ptNodes pt" sn]
      by (simp add: a onNode_def capacity_sum_def total_ok_def d(2) amount_simps)
  qed (use assms in \<open>simp_all add: onNode_def total_ok_def small_partition_def\<close>)
qed

lemma SetSchedulable_capacity [simp]: "totalResource (SetSchedulable sn b) = totalResource sn"
  by (simp add: SetSchedulable_def)

lemma total_ok_cc_addNode:
  assumes "total_ok pt" "small_partition pt" "small (niResource info)"
  shows "total_ok (fst (cc_addNode info sched pt))"
proof -
  obtain sn where sn: "NewNode (Some (niNodeID info, niResource info)) = Some sn" by (simp add: NewNode_def Let_def)
  have "small (Some (orZero (niResource info)))"
    using assms(3) by (cases "niResource info") (simp_all add: small_def amount_def)
  then have "small (totalResource sn)" using sn by (auto simp: NewNode_def Let_def intro: small_Prune)
  with total_ok_addNode [OF assms(1,2), of "SetSchedulable sn sched"] show ?thesis by (simp add: cc_addNode_def sn)
qed

lemma total_ok_cc_updateNode:
  assumes "total_ok pt" "small_partition pt" "small (niResource info)"
  shows "total_ok (fst (cc_updateNode info pt))"
proof -
  have on: "pframe (onNode n (\<lambda>sn. SetSchedulable sn b) pt) = pframe pt" for n b by (rule pframe_onNode) simp
  have rm: "total_ok (fst (removeNode n (onNode n (\<lambda>sn. SetSchedulable sn b) pt)))" for n b
    using pframe_total [OF on [of n b]] assms(1,2) by (simp add: total_ok_removeNode)
  show ?thesis
    using assms pframe_total(1) [OF on] total_ok_setCapacity [OF assms(1,2)] rm
    by (auto simp: cc_updateNode_def GetNode_def Let_def split: NodeAction.split option.split prod.split)
qed

text \<open>Every request of the resource manager to create, update, drain or decommission a node keeps the
  total resource.\<close>

lemma total_ok_processNode:
  assumes "total_ok pt" "small_partition pt" "small (niResource info)"
  shows "total_ok (processNode info pt)"
  using total_ok_cc_addNode [OF assms] total_ok_cc_updateNode [OF assms] by (simp add: processNode_def)

end
