(* ===== verification/PartitionMoves.thy ===== *)
theory PartitionMoves
  imports PartitionBooks
begin

text \<open>
  What the operations of a partition do to the capacities of the nodes and to the count of allocations, one
  operation at a time: reservations, nodes, updates and releases of allocations, removed applications.
\<close>

section \<open>The count of allocations\<close>

definition allocation_count :: "Application gomap \<Rightarrow> int" where
  "allocation_count apps = map_sum (\<lambda>app. int (length (saAllocations app))) apps"

definition wf_apps :: "PartitionContext \<Rightarrow> bool" where
  "wf_apps pt \<longleftrightarrow>
     wf_map (ptApps pt) \<and> (\<forall>appID app. map_of (ptApps pt) appID = Some app \<longrightarrow> wf_map (saAllocations app))"

definition counted :: "PartitionContext \<Rightarrow> bool" where
  "counted pt \<longleftrightarrow> wf_apps pt \<and> ptAllocations pt = allocation_count (ptApps pt)"

text \<open>An operation that leaves the capacities alone and moves the counter by \<open>d\<close> against the applications.\<close>

definition moves :: "int \<Rightarrow> PartitionContext \<Rightarrow> PartitionContext \<Rightarrow> bool" where
  "moves d pt pt' \<longleftrightarrow> pframe pt' = pframe pt \<and>
     (wf_apps pt \<longrightarrow> wf_apps pt' \<and>
        ptAllocations pt' - allocation_count (ptApps pt') = ptAllocations pt - allocation_count (ptApps pt) + d)"

lemma moves_refl [simp]: "moves 0 pt pt"
  by (simp add: moves_def)

lemma moves_trans [trans]: "moves a pt pt1 \<Longrightarrow> moves b pt1 pt2 \<Longrightarrow> moves (a + b) pt pt2"
  by (simp add: moves_def)

lemma moves_0 [trans]: "moves 0 pt pt1 \<Longrightarrow> moves b pt1 pt2 \<Longrightarrow> moves b pt pt2"
  using moves_trans [of 0] by simp

lemma moves_0' [trans]: "moves a pt pt1 \<Longrightarrow> moves 0 pt1 pt2 \<Longrightarrow> moves a pt pt2"
  using moves_trans [of a _ _ 0] by simp

lemma moves_counted: "moves 0 pt pt' \<Longrightarrow> counted pt \<Longrightarrow> counted pt'"
  by (auto simp: moves_def counted_def)

lemma moves_total: "moves d pt pt' \<Longrightarrow> total_ok pt' = total_ok pt"
  unfolding moves_def by (elim conjE) (rule pframe_total(1))

text \<open>Changes of the partition that the applications do not see.\<close>

lemma moves_frame:
  "pframe pt' = pframe pt \<Longrightarrow> ptApps pt' = ptApps pt \<Longrightarrow> ptAllocations pt' = ptAllocations pt + d \<Longrightarrow> moves d pt pt'"
  by (simp add: moves_def wf_apps_def)

lemma moves_updateAllocationCount: "moves d pt (updateAllocationCount d pt)"
  by (rule moves_frame) simp_all

lemma moves_onNode: "(\<And>sn. totalResource (f sn) = totalResource sn) \<Longrightarrow> moves 0 pt (onNode nodeID f pt)"
  by (rule moves_frame, rule pframe_onNode) (simp_all add: onNode_def)

lemma moves_heap: "shape h = shape (ptHeap pt) \<Longrightarrow> moves 0 pt (pt\<lparr>ptHeap := h\<rparr>)"
  by (rule moves_frame) (simp_all add: pframe_def shape_max [of h])

lemma moves_counters [simp]:
  "moves 0 pt (incPhAllocationCount pt)" "moves 0 pt (decPhAllocationCount n pt)"
  "moves 0 pt (incReservationCount pt)" "moves 0 pt (decReservationCount n pt)"
  "moves 0 pt (pt\<lparr>ptMapping := m\<rparr>)" "moves 0 pt (pt\<lparr>ptForeign := f\<rparr>)" "moves 0 pt (pt\<lparr>ptStore := st\<rparr>)"
  by (simp_all add: moves_frame)

lemma counter_store [simp]:
  "ptStore (decPhAllocationCount n pt) = ptStore pt" "ptStore (decReservationCount n pt) = ptStore pt"
  "ptStore (updateAllocationCount n pt) = ptStore pt" "ptStore (onNode nodeID f pt) = ptStore pt"
  by (simp_all add: decPhAllocationCount_def decReservationCount_def updateAllocationCount_def onNode_def)

lemma moves_countAllocation: "moves 1 pt (countAllocation ph pt)"
  using moves_0' [OF moves_updateAllocationCount [of 1 pt] moves_counters(1)] moves_updateAllocationCount [of 1 pt]
  by (simp add: countAllocation_def Let_def)

lemma moves_save:
  assumes "map_of (ptApps pt) appID = Some app" "frame w = frame (load pt app)"
    and "wf_map (saAllocations app) \<Longrightarrow> wf_map (saAllocations w)"
    and "wf_map (saAllocations app) \<Longrightarrow> d = int (length (saAllocations app)) - int (length (saAllocations w))"
  shows "moves d pt (save appID w pt)"
proof -
  have "wf_apps (save appID w pt) \<and>
      allocation_count (ptApps (save appID w pt)) = allocation_count (ptApps pt) - d" if "wf_apps pt"
    using that assms(1,3,4) by (simp add: wf_apps_def wf_map_update update_conv' allocation_count_def map_sum_update)
  then show ?thesis using pframe_save [OF assms(2)] by (simp add: moves_def)
qed

lemma moves_save_same:
  assumes "map_of (ptApps pt) appID = Some app" "frame w = frame (load pt app)" "saAllocations w = saAllocations app"
  shows "moves 0 pt (save appID w pt)"
  using assms by (intro moves_save) auto

lemma length_delete: "wf_map m \<Longrightarrow> map_of m k = Some v \<Longrightarrow> Suc (length (AList.delete k m)) = length m"
  using map_sum_delete [of m k v "\<lambda>_. 1"] by (simp add: map_sum_def sum_list_triv)

lemma length_update_new: "map_of m k = None \<Longrightarrow> length (AList.update k v m) = Suc (length m)"
  by (simp add: AList_update_new)

section \<open>Reservations\<close>

lemma moves_unReserve [simp]: "moves 0 pt (pt_unReserve appID nodeID r pt)"
proof (cases "map_of (ptApps pt) appID")
  case (Some app)
  obtain w num where w: "app_UnReserve nodeID r (load pt app) = (w, num)" by fastforce
  have f: "frame w = frame (load pt app)" using w frame_reservations(2) by (metis fst_conv)
  have a: "saAllocations w = saAllocations app"
    using w reservation_allocations(1) [of nodeID r "load pt app"] by simp
  have "moves 0 pt (save appID (queue_UnReserve num w) pt)"
    by (rule moves_save_same [OF Some]) (simp_all add: f, simp add: queue_UnReserve_def a)
  from moves_0 [OF this moves_counters(4)] show ?thesis by (simp add: pt_unReserve_def Some w)
qed (simp add: pt_unReserve_def)

lemma moves_reserveAsk [simp]: "moves 0 pt (reserveAsk appID nodeID r pt)"
proof (cases "map_of (ptApps pt) appID")
  case (Some app)
  obtain w err where w: "reserveInternal nodeID r (load pt app) = (w, err)" by fastforce
  have f: "frame w = frame (load pt app)" using w frame_reservations by (metis fst_conv)
  have a: "saAllocations w = saAllocations app"
    using w reservation_allocations(2) [of nodeID r "load pt app"] by simp
  have "moves 0 pt (save appID (w\<lparr>heap := (heap w)(saQueue w := Reserve (heap w (saQueue w)) appID)\<rparr>) pt)"
    by (rule moves_save_same [OF Some]) (simp_all add: f a frame_heap)
  from moves_0 [OF this moves_counters(3)] show ?thesis
    by (cases err) (simp_all add: reserveAsk_def Some w)
qed (simp add: reserveAsk_def)

lemma moves_reserve: "pt_reserve appID nodeID r pt = Some pt' \<Longrightarrow> moves 0 pt pt'"
  using moves_0 [OF moves_unReserve moves_reserveAsk]
  by (auto simp: pt_reserve_def Let_def split: option.splits if_splits)

section \<open>Removing a node\<close>

lemma moves_unReserveNode: "moves 0 pt (unReserveNode nodeID pt)"
proof -
  have "moves 0 pt (fold (\<lambda>(key, res) pt.
             case map_of (ptApps pt) (resAppID res) of
               None \<Rightarrow> pt
             | Some app \<Rightarrow>
                 (case objectOf app (resAllocKey res) of
                    None \<Rightarrow> pt
                  | Some r \<Rightarrow> pt_unReserve (resAppID res) nodeID r pt)) rs pt)" for rs
  proof (induction rs arbitrary: pt)
    case (Cons p rs)
    obtain key res where p: "p = (key, res)" by fastforce
    show ?case using Cons.IH moves_0 [OF moves_unReserve Cons.IH]
      by (auto simp: p split: option.split)
  qed simp
  then show ?thesis by (simp add: unReserveNode_def)
qed

text \<open>No placeholder is being replaced by an allocation on another node.\<close>

definition no_move :: "(nat \<Rightarrow> alloc) \<Rightarrow> bool" where
  "no_move st \<longleftrightarrow>
     (\<forall>r other. placeholder (st r) \<longrightarrow> release (st r) = Some other \<longrightarrow> allocNodeID (st r) = allocNodeID (st other))"

lemma releaseFromApp_allocations:
  assumes "releaseFromApp key r queue w = (w', b)"
  shows "store w' = store w"
    "saAllocations w' = (if b then AList.delete key (saAllocations w) else saAllocations w)"
    "b \<longleftrightarrow> map_of (saAllocations w) key \<noteq> None"
proof -
  have "store w' = store w \<and>
    saAllocations w' = (if b then AList.delete key (saAllocations w) else saAllocations w) \<and>
    (b \<longleftrightarrow> map_of (saAllocations w) key \<noteq> None)"
  proof (cases "map_of (saAllocations w) key")
    case None
    then show ?thesis using assms by (auto simp: releaseFromApp_def removeAllocationInternal_def)
  next
    case (Some r')
    obtain w1 o1 where w1: "removeAllocationInternal key UnknownTermination w = (w1, o1)" by fastforce
    have f: "o1 = Some r'" "store w1 = store w" "saAllocations w1 = AList.delete key (saAllocations w)"
      using removeAllocationInternal_fields [OF Some, of UnknownTermination] by (simp_all add: w1)
    show ?thesis using assms by (auto simp: releaseFromApp_def w1 f Let_def Some)
  qed
  then show "store w' = store w"
    "saAllocations w' = (if b then AList.delete key (saAllocations w) else saAllocations w)"
    "b \<longleftrightarrow> map_of (saAllocations w) key \<noteq> None" by auto
qed

lemma deallocateAsk_store:
  "allocNodeID (store (fst (deallocateAsk r w)) x) = allocNodeID (store w x)"
  "release (store (fst (deallocateAsk r w)) x) = release (store w x)"
  "placeholder (store (fst (deallocateAsk r w)) x) = placeholder (store w x)"
  by (auto simp: deallocateAsk_def Let_def mutate_def deallocate_def)

lemma no_move_reverse: "no_move (store w) \<Longrightarrow> no_move (store (reverseReplacement r other a w))"
  by (auto simp: no_move_def reverseReplacement_def Let_def DeallocateAsk_def deallocateAsk_store mutate_def
      ClearRelease_def split: option.splits)

lemma node_step_moves:
  assumes "map_of (ptApps pt) appID = Some app" "node_step key r (load pt app) = (w, b, c)" "no_move (ptStore pt)"
  shows "moves (if b then 1 else 0) pt (save appID w pt)" "c = []" "no_move (store w)"
proof -
  have "(\<exists>w0. (w0 = load pt app \<or> (\<exists>other a. w0 = reverseReplacement r other a (load pt app))) \<and>
      releaseFromApp key r (saQueue app) w0 = (w, b)) \<and> c = []"
    using assms(2,3)
    by (simp add: node_step_def Let_def no_move_def split: option.splits if_splits prod.splits) blast+
  then obtain w0 where w0: "w0 = load pt app \<or> (\<exists>other a. w0 = reverseReplacement r other a (load pt app))"
    and rel: "releaseFromApp key r (saQueue app) w0 = (w, b)" and c: "c = []" by blast
  have st: "no_move (store w0)" "saAllocations w0 = saAllocations app"
    using w0 assms(3) by (auto intro: no_move_reverse)
  note f = releaseFromApp_allocations [OF rel]
  show "c = []" by (rule c)
  show "no_move (store w)" using st f(1) by simp
  have "b \<Longrightarrow> wf_map (saAllocations app) \<Longrightarrow> Suc (length (saAllocations w)) = length (saAllocations app)"
    using f st(2) by (auto intro: length_delete)
  then show "moves (if b then 1 else 0) pt (save appID w pt)"
    using f st(2)
    by (intro moves_save [OF assms(1) node_step_frame [OF assms(2)]]) (auto simp: wf_map_delete)
qed

lemma removeNodeAllocation_moves:
  assumes "no_move (ptStore pt)" "removeNodeAllocation a (pt, rel, conf) = (pt', rel', conf')"
  shows "moves (int (length rel') - int (length rel)) pt pt'" "conf' = conf" "no_move (ptStore pt')"
proof -
  consider "map_of (ptApps pt) (applicationID a) = None"
    | app where "map_of (ptApps pt) (applicationID a) = Some app" "objectOf app (allocationKey a) = None"
    | app r w b c where "map_of (ptApps pt) (applicationID a) = Some app" "objectOf app (allocationKey a) = Some r"
        "node_step (allocationKey a) r (load pt app) = (w, b, c)"
    by (metis not_None_eq prod_cases3)
  then have "moves (int (length rel') - int (length rel)) pt pt' \<and> conf' = conf \<and> no_move (ptStore pt')"
  proof cases
    case (3 app r w b c)
    note m = node_step_moves [OF 3(1,3) assms(1)]
    from removeNodeAllocation_step [OF 3] obtain n where
      r: "removeNodeAllocation a (pt, rel, conf) =
        (decPhAllocationCount n (save (applicationID a) w pt), if b then rel @ [r] else rel, conf @ c)" by blast
    show ?thesis using assms(2) m moves_0' [OF m(1) moves_counters(2) [of _ n]] by (cases b) (auto simp: r)
  qed (use assms in \<open>auto simp: removeNodeAllocation_skip\<close>)
  then show "moves (int (length rel') - int (length rel)) pt pt'" "conf' = conf" "no_move (ptStore pt')" by auto
qed

lemma removeNodeAllocations_moves:
  assumes "no_move (ptStore pt)" "removeNodeAllocations nodeID pt = (pt', rel, conf)"
  shows "moves 0 pt pt'" "conf = []"
proof -
  have fold: "moves (int (length rel') - int (length rel)) pt pt' \<and> conf' = conf"
    if "no_move (ptStore pt)" "fold removeNodeAllocation as (pt, rel, conf) = (pt', rel', conf')"
    for as pt rel conf pt' rel' conf'
    using that
  proof (induction as arbitrary: pt rel conf)
    case (Cons a as)
    obtain pt1 rel1 conf1 where 1: "removeNodeAllocation a (pt, rel, conf) = (pt1, rel1, conf1)"
      using prod_cases3 by blast
    note m = removeNodeAllocation_moves [OF Cons.prems(1) 1]
    have "moves (int (length rel') - int (length rel1)) pt1 pt' \<and> conf' = conf1"
      using Cons.IH [OF m(3)] Cons.prems(2) 1 by simp
    then show ?case using m(2) moves_trans [OF m(1)] by force
  qed simp
  obtain pt1 rel1 conf1 where
    1: "fold removeNodeAllocation (getAllocations (ptNodes pt nodeID) False) (pt, [], []) = (pt1, rel1, conf1)"
    using prod_cases3 by blast
  from fold [OF assms(1) 1] have m: "moves (int (length rel1)) pt pt1" "conf1 = []" by auto
  with assms(2) 1 have e: "pt' = updateAllocationCount (- int (length rel1)) pt1" "conf = []"
    by (auto simp: removeNodeAllocations_def)
  from moves_trans [OF m(1) moves_updateAllocationCount [of "- int (length rel1)"]] e
  show "moves 0 pt pt'" "conf = []" by simp_all
qed

text \<open>The capacity of the partition changes with a node, the count of allocations does not.\<close>

lemma counted_frame: "ptApps pt' = ptApps pt \<Longrightarrow> ptAllocations pt' = ptAllocations pt \<Longrightarrow> counted pt' = counted pt"
  by (simp add: counted_def wf_apps_def)

lemma counted_updatePartitionResource [simp]: "counted (updatePartitionResource d pt) = counted pt"
  by (rule counted_frame) (simp_all add: updatePartitionResource_def Let_def)

lemma counted_onNode [simp]: "counted (onNode n f pt) = counted pt"
  by (rule counted_frame) (simp_all add: onNode_def)

lemma unReserve_store [simp]: "ptStore (pt_unReserve appID nodeID r pt) = ptStore pt"
proof (cases "map_of (ptApps pt) appID")
  case (Some app)
  obtain w num where w: "app_UnReserve nodeID r (load pt app) = (w, num)" by fastforce
  have "store (fst (app_UnReserve nodeID r w0)) = store w0" for w0
    by (auto simp: app_UnReserve_def unReserveInternal_def Let_def split: option.split prod.split)
  from this [of "load pt app"] show ?thesis by (simp add: pt_unReserve_def Some w queue_UnReserve_def)
qed (simp add: pt_unReserve_def)

lemma unReserveNode_store [simp]: "ptStore (unReserveNode nodeID pt) = ptStore pt"
proof -
  have "ptStore (fold (\<lambda>(key, res) pt.
             case map_of (ptApps pt) (resAppID res) of
               None \<Rightarrow> pt
             | Some app \<Rightarrow>
                 (case objectOf app (resAllocKey res) of
                    None \<Rightarrow> pt
                  | Some r \<Rightarrow> pt_unReserve (resAppID res) nodeID r pt)) rs pt) = ptStore pt" for rs
    by (induction rs arbitrary: pt) (auto split: option.split)
  then show ?thesis by (simp add: unReserveNode_def)
qed

lemma counted_removeNode:
  assumes "counted pt" "no_move (ptStore pt)"
  shows "counted (fst (removeNode nodeID pt))"
proof -
  let ?pt = "pt\<lparr>ptNodeIDs := removeAll nodeID (ptNodeIDs pt)\<rparr>"
  obtain pt2 rel conf where r: "removeNodeAllocations nodeID (unReserveNode nodeID ?pt) = (pt2, rel, conf)"
    using prod_cases3 by blast
  have "counted ?pt" using assms(1) counted_frame [of ?pt pt] by simp
  moreover have "moves 0 ?pt pt2"
    using moves_0 [OF moves_unReserveNode removeNodeAllocations_moves(1) [OF _ r]] assms(2) by simp
  ultimately have "counted pt2" by (rule moves_counted [rotated])
  then show ?thesis using assms(1) r by (simp add: removeNode_def removeNodeFromList_def)
qed

lemma counted_processNode:
  assumes "counted pt" "no_move (ptStore pt)"
  shows "counted (processNode info pt)"
proof -
  have "counted (fst (pt_AddNode sn pt))" for sn
    using assms(1) by (auto simp: pt_AddNode_def addNodeToList_def counted_def wf_apps_def split: option.split)
  then have add: "counted (fst (cc_addNode info b pt))" for b
    using assms(1) by (simp add: cc_addNode_def split: option.split)
  have "counted (fst (removeNode n (onNode n f pt)))" for n f
    by (rule counted_removeNode) (use assms in simp_all)
  then have "counted (fst (cc_updateNode info pt))"
    using assms(1) by (simp add: cc_updateNode_def Let_def split: NodeAction.split option.split prod.split)
  with add show ?thesis by (simp add: processNode_def)
qed

section \<open>Updating allocations\<close>

lemma moves_handleForeign: "moves 0 pt (fst (handleForeignAllocation a pt))"
proof -
  have "moves 0 pt (fst (getOrStoreForeignAlloc a pt))" by (simp add: getOrStoreForeignAlloc_def)
  from moves_0 [OF this moves_onNode] show ?thesis
    by (auto simp: handleForeignAllocation_def Let_def split: prod.split bool.split)
qed

lemma addAllocation_allocations:
  "saAllocations (addAllocationInternal_app t r w) = AList.update (allocationKey (store w r)) r (saAllocations w)"
  by (simp add: addAllocationInternal_app_def Let_def)

lemma ask_keys [simp]:
  "allocationKey (store (mutate r f w) x) = (if x = r then allocationKey (f (store w r)) else allocationKey (store w x))"
  "store (RecoverAllocationAsk a w) = store w"
  "allocationKey (store (fst (allocateAsk r w)) x) = allocationKey (store w x)"
  "allocationKey (store (fst (AllocateAsk key w)) x) = allocationKey (store w x)"
proof -
  show a: "allocationKey (store (fst (allocateAsk r w)) x) = allocationKey (store w x)" for r
    by (simp add: allocateAsk_def Let_def mutate_def allocate_def)
  show "allocationKey (store (fst (AllocateAsk key w)) x) = allocationKey (store w x)"
    by (simp add: AllocateAsk_def a split: option.split)
qed (simp_all add: mutate_def RecoverAllocationAsk_def Let_def split: option.split)

lemma bindAllocation_effect:
  assumes "\<And>w. frame (recover w) = frame w" "\<And>w. saAllocations (recover w) = saAllocations w"
    and "\<And>w. store (recover w) = store w"
  shows "frame (bindAllocation inst quota res nodeID r recover w) = frame w"
    and "saAllocations (bindAllocation inst quota res nodeID r recover w) =
      AList.update (allocationKey (store w r)) r (saAllocations w)"
proof -
  have "frame (w\<lparr>heap := IncAllocatedResource (heap w) (saQueue w) res quota (clock w),
      nodes := (nodes w)(nodeID := AddAllocation (nodes w nodeID) (Some (store w r)))\<rparr>) = frame w"
    by (auto simp: frame_def)
  then show "frame (bindAllocation inst quota res nodeID r recover w) = frame w"
    by (simp add: bindAllocation_def Let_def app_AddAllocation_def assms(1))
  show "saAllocations (bindAllocation inst quota res nodeID r recover w) =
      AList.update (allocationKey (store w r)) r (saAllocations w)"
    by (simp add: bindAllocation_def Let_def app_AddAllocation_def addAllocation_allocations assms)
qed

text \<open>A new allocation is not yet in the books of the application.\<close>

lemma moves_bind:
  assumes "map_of (ptApps pt) appID = Some app" "frame w = frame (load pt app)" "saAllocations w = saAllocations app"
    and "map_of (saAllocations app) (allocationKey (store w r)) = None"
    and "\<And>w. frame (recover w) = frame w" "\<And>w. saAllocations (recover w) = saAllocations w"
      "\<And>w. store (recover w) = store w"
  shows "moves 0 pt (countAllocation ph (save appID (bindAllocation inst quota res nodeID r recover w) pt))"
proof -
  note b = bindAllocation_effect [of recover inst quota res nodeID r w, OF assms(5-7)]
  have "moves (- 1) pt (save appID (bindAllocation inst quota res nodeID r recover w) pt)"
    by (rule moves_save [OF assms(1)])
      (use assms(2-4) in \<open>simp_all add: b wf_map_update length_update_new\<close>)
  from moves_trans [OF this moves_countAllocation] show ?thesis by simp
qed

definition fresh :: "PartitionContext \<Rightarrow> nat \<Rightarrow> bool" where
  "fresh pt r \<longleftrightarrow>
     (let a = ptStore pt r; key = allocationKey a
      in case map_of (ptApps pt) (applicationID a) of
           None \<Rightarrow> True
         | Some app \<Rightarrow>
             (case map_of (saRequests app) key of
                None \<Rightarrow> GetNode pt (allocNodeID a) \<longrightarrow> map_of (saAllocations app) key = None
              | Some e \<Rightarrow>
                  allocationKey (ptStore pt e) = key \<and>
                  (allocated a \<and> \<not> allocated (ptStore pt e) \<longrightarrow> map_of (saAllocations app) key = None)))"

lemma moves_addNewAllocation:
  assumes "map_of (ptApps pt) appID = Some app"
    and "GetNode pt (allocNodeID (ptStore pt r)) \<longrightarrow> map_of (saAllocations app) (allocationKey (ptStore pt r)) = None"
  shows "moves 0 pt (fst (addNewAllocation inst appID r (load pt app) pt))"
proof (cases "GetNode pt (allocNodeID (ptStore pt r))")
  case True
  then have "moves 0 pt (countAllocation ph (save appID (bindAllocation inst quota res nodeID r
      (RecoverAllocationAsk (Some r)) (load pt app)) pt))" for ph quota res nodeID
    by (intro moves_bind [OF assms(1)]) (use assms(2) in simp_all)
  with True show ?thesis by (simp add: addNewAllocation_def Let_def)
next
  case False
  obtain w err where w: "AddAllocationAsk (Some r) (load pt app) = (w, err)" by fastforce
  have f: "frame w = frame (load pt app)" using w frame_AddAllocationAsk by (metis fst_conv)
  have "saAllocations (fst (AddAllocationAsk (Some r) w0)) = saAllocations w0" for w0
    by (simp add: AddAllocationAsk_def Let_def split: option.split)
  from this [of "load pt app"] have "saAllocations w = saAllocations app" by (simp add: w)
  from moves_save_same [OF assms(1) f this] False show ?thesis
    by (cases err) (simp_all add: addNewAllocation_def Let_def w)
qed

lemma updateResources_effect:
  assumes "updateResources a e quota w = (w', err)"
  shows "frame w' = frame w" "saAllocations w' = saAllocations w"
    "allocationKey (store w' x) = allocationKey (store w x)" "allocated (store w' x) = allocated (store w x)"
proof -
  obtain w1 err1 where w1: "UpdateAllocationResources (Some a) quota w = (w1, err1)" by fastforce
  have f: "frame w1 = frame w" "saAllocations w1 = saAllocations w"
    using UpdateAllocationResources_effect [of "Some a" quota w] by (simp_all add: w1)
  have "allocationKey (store (fst (UpdateAllocationResources (Some a) quota w)) x) = allocationKey (store w x)"
    "allocated (store (fst (UpdateAllocationResources (Some a) quota w)) x) = allocated (store w x)"
    unfolding UpdateAllocationResources_def Let_def
    by (auto simp: SetAllocatedResource_def mutate_def Let_def split: option.split)
  then have k: "allocationKey (store w1 x) = allocationKey (store w x)" "allocated (store w1 x) = allocated (store w x)"
    by (simp_all add: w1)
  have "\<exists>n. w' = w \<or> w' = w1 \<or> w' = w1\<lparr>nodes := n\<rparr> \<and> frame w' = frame w1"
    using assms by (auto simp: updateResources_def Let_def w1 frame_nodes split: option.splits if_splits)
  then show "frame w' = frame w" "saAllocations w' = saAllocations w"
    "allocationKey (store w' x) = allocationKey (store w x)" "allocated (store w' x) = allocated (store w x)"
    using f k by auto
qed

lemma moves_updateExisting:
  assumes "map_of (ptApps pt) appID = Some app"
    and "allocated a \<and> \<not> allocated (ptStore pt e) \<longrightarrow> map_of (saAllocations app) (allocationKey (ptStore pt e)) = None"
  shows "moves 0 pt (fst (updateExisting inst appID a e (load pt app) pt))"
proof -
  obtain w err where w: "updateResources a e (ptQuotaPreemption pt) (load pt app) = (w, err)" by fastforce
  note u = updateResources_effect [OF w]
  define w1 where "w1 = mutate e (\<lambda>x. x\<lparr>allocNodeID := allocNodeID a, bindTime := bindTime a\<rparr>) w"
  obtain w2 out where w2: "AllocateAsk (allocationKey a) w1 = (w2, out)" by fastforce
  have f: "frame w2 = frame (load pt app)" "saAllocations w2 = saAllocations app"
    "allocationKey (store w2 e) = allocationKey (ptStore pt e)"
    using frame_asks(3) [of "allocationKey a" w1] asks_allocations(3) [of "allocationKey a" w1]
      ask_keys(4) [of "allocationKey a" w1 e] u
    by (simp_all add: w2, simp_all add: w1_def)
  have "moves 0 pt (save appID w pt)" by (rule moves_save_same [OF assms(1)]) (simp_all add: u)
  moreover have "moves 0 pt (save appID w2 pt)" by (rule moves_save_same [OF assms(1) f(1,2)])
  moreover have "moves 0 pt (countAllocation ph (save appID (bindAllocation inst quota res nodeID e (\<lambda>w. w) w2) pt))"
    if "allocated a \<and> \<not> allocated (ptStore pt e)" for ph quota res nodeID
    by (rule moves_bind [OF assms(1) f(1,2)]) (use that assms(2) f(3) in simp_all)
  ultimately show ?thesis
    using u(4)
    by (cases err; cases out) (auto simp: updateExisting_def w Let_def w1_def [symmetric] w2)
qed

lemma moves_UpdateAllocation:
  assumes "\<And>r. al = Some r \<Longrightarrow> fresh pt r"
  shows "moves 0 pt (fst (pt_UpdateAllocation inst al pt))"
proof (cases al)
  case (Some r)
  let ?a = "ptStore pt r"
  show ?thesis
  proof (cases "map_of (ptApps pt) (applicationID ?a)")
    case None
    then show ?thesis using moves_handleForeign by (simp add: pt_UpdateAllocation_def Some Let_def)
  next
    case app: (Some app)
    show ?thesis
    proof (cases "map_of (saRequests app) (allocationKey ?a)")
      case None
      with assms [OF Some] app show ?thesis
        using moves_handleForeign moves_addNewAllocation [OF app, of r inst]
        by (simp add: pt_UpdateAllocation_def Some Let_def fresh_def)
    next
      case e: (Some e)
      with assms [OF Some] app show ?thesis
        using moves_handleForeign moves_updateExisting [OF app, of ?a e inst]
        by (simp add: pt_UpdateAllocation_def Some Let_def fresh_def)
    qed
  qed
qed (simp add: pt_UpdateAllocation_def)

section \<open>Releasing allocations\<close>

definition release_guard :: "PartitionContext \<Rightarrow> AllocationRelease \<Rightarrow> bool" where
  "release_guard pt rel \<longleftrightarrow>
     (relType rel = PlaceholderReplaced \<longrightarrow>
        relKey rel \<noteq> [] \<and>
        (case map_of (ptApps pt) (relAppID rel) of
           None \<Rightarrow> True
         | Some app \<Rightarrow>
             (case map_of (saAllocations app) (relKey rel) of
                None \<Rightarrow> True
              | Some ph \<Rightarrow>
                  (case release (ptStore pt ph) of
                     None \<Rightarrow> True
                   | Some r \<Rightarrow>
                       r \<noteq> ph \<and> GetNode pt (allocNodeID (ptStore pt ph)) \<and>
                       map_of (saAllocations app) (allocationKey (ptStore pt r)) = None))))"

lemma replacePlaceholder_moves:
  assumes "replacePlaceholderOnNode r nodeID tot pt = Some (pt', c, tot')"
  shows "moves 0 pt pt'"
proof -
  have cap: "totalResource sn = totalResource (ptNodes pt nodeID)"
    if "node_ReplaceAllocation (ptNodes pt nodeID) key al d = Some (sn, al')" for sn key al d al'
    using that by (auto simp: node_ReplaceAllocation_def Let_def split: option.splits)
  have "moves 0 pt ((onNode nodeID (\<lambda>_. sn) pt)\<lparr>ptStore := st\<rparr>)"
    if "totalResource sn = totalResource (ptNodes pt nodeID)" for sn st
    using that by (intro moves_frame) (auto simp: pframe_def onNode_def)
  then show ?thesis
    using assms cap
    by (auto simp: replacePlaceholderOnNode_def Let_def moves_onNode split: option.splits if_splits)
qed

lemma releaseOnNodes_moves:
  "releaseOnNodes t rs tot pre conf pt = Some (pt', tot', pre', conf') \<Longrightarrow> moves 0 pt pt'"
proof (induction rs arbitrary: tot pre conf pt)
  case (Cons r rs)
  let ?n = "allocNodeID (ptStore pt r)"
  consider "\<not> GetNode pt ?n" | "GetNode pt ?n" "t = PlaceholderReplaced" | "GetNode pt ?n" "t \<noteq> PlaceholderReplaced"
    by blast
  then show ?case
  proof cases
    case 2
    then obtain pt1 c tot1 pre1 where 1: "replacePlaceholderOnNode r ?n tot pt = Some (pt1, c, tot1)"
      and rest: "releaseOnNodes t rs tot1 pre1 (Some c) pt1 = Some (pt', tot', pre', conf')"
      using Cons.prems by (auto simp: Let_def split: option.splits)
    show ?thesis by (rule moves_0 [OF replacePlaceholder_moves [OF 1] Cons.IH [OF rest]])
  next
    case 3
    obtain sn removed where 1: "RemoveAllocation (ptNodes pt ?n) (allocationKey (ptStore pt r)) = (sn, removed)"
      by fastforce
    have "totalResource sn = totalResource (ptNodes pt ?n)"
      using capacity_same(1) [of "ptNodes pt ?n" "allocationKey (ptStore pt r)"] by (simp add: 1)
    then have m: "moves 0 pt (onNode ?n (\<lambda>_. sn) pt)" by (intro moves_frame) (auto simp: pframe_def onNode_def)
    obtain tot1 pre1 where
      rest: "releaseOnNodes t rs tot1 pre1 conf (onNode ?n (\<lambda>_. sn) pt) = Some (pt', tot', pre', conf')"
      using Cons.prems 3 1 by (auto simp: Let_def)
    show ?thesis by (rule moves_0 [OF m Cons.IH [OF rest]])
  qed (use Cons in \<open>simp add: Let_def\<close>)
qed simp

lemma releaseOnNodes_confirmed:
  "t \<noteq> PlaceholderReplaced \<Longrightarrow> releaseOnNodes t rs tot pre conf pt = Some (pt', tot', pre', conf') \<Longrightarrow> conf' = conf"
  "releaseOnNodes PlaceholderReplaced [r] tot pre None pt = Some (pt', tot', pre', conf') \<Longrightarrow>
   conf' = (if GetNode pt (allocNodeID (ptStore pt r)) then release (ptStore pt r) else None)"
proof -
  show "t \<noteq> PlaceholderReplaced \<Longrightarrow> releaseOnNodes t rs tot pre conf pt = Some (pt', tot', pre', conf') \<Longrightarrow> conf' = conf"
    by (induction rs arbitrary: tot pre conf pt) (auto simp: Let_def split: if_splits prod.splits)
qed (auto simp: Let_def replacePlaceholderOnNode_def split: if_splits option.splits)

lemma removeOne_effect:
  assumes "removeAllocationInternal key t w = (w', out)"
  shows "frame w' = frame w" "store w' = store w" "out = map_of (saAllocations w) key"
    "saAllocations w' = AList.delete key (saAllocations w)"
proof -
  have "store w' = store w \<and> out = map_of (saAllocations w) key \<and> saAllocations w' = AList.delete key (saAllocations w)"
  proof (cases "map_of (saAllocations w) key")
    case None
    then show ?thesis using assms by (auto simp: removeAllocationInternal_def delete_absent)
  next
    case (Some r)
    show ?thesis using removeAllocationInternal_fields [OF Some, of t] by (simp add: assms Some)
  qed
  then show "store w' = store w" "out = map_of (saAllocations w) key"
    "saAllocations w' = AList.delete key (saAllocations w)" by auto
  show "frame w' = frame w" using assms frame_allocations(2) by (metis fst_conv)
qed

lemma replaceOne_effect:
  assumes "app_ReplaceAllocation key w = (w', out)"
  shows "frame w' = frame w" "out = map_of (saAllocations w) key"
    "saAllocations w' =
       (case map_of (saAllocations w) key of
          None \<Rightarrow> saAllocations w
        | Some ph \<Rightarrow>
            (case release (store w ph) of
               None \<Rightarrow> AList.delete key (saAllocations w)
             | Some r \<Rightarrow> AList.update (allocationKey (store w r)) r (AList.delete key (saAllocations w))))"
    "release (store w ph) \<noteq> Some ph \<Longrightarrow> out = Some ph \<Longrightarrow> store w' ph = store w ph"
proof -
  obtain w1 out1 where w1: "removeAllocationInternal key PlaceholderReplaced w = (w1, out1)" by fastforce
  note e = removeOne_effect [OF w1]
  show "frame w' = frame w" using assms frame_allocations(3) by (metis fst_conv)
  have st: "store (addAllocationInternal_app t r w0) = store w0" for t r w0
    by (simp add: addAllocationInternal_app_def Let_def)
  show "out = map_of (saAllocations w) key"
    using assms by (auto simp: app_ReplaceAllocation_def w1 e Let_def split: option.splits)
  show "saAllocations w' =
       (case map_of (saAllocations w) key of
          None \<Rightarrow> saAllocations w
        | Some ph \<Rightarrow>
            (case release (store w ph) of
               None \<Rightarrow> AList.delete key (saAllocations w)
             | Some r \<Rightarrow> AList.update (allocationKey (store w r)) r (AList.delete key (saAllocations w))))"
    using assms e(2-4)
    by (cases "map_of (saAllocations w) key")
      (auto simp: app_ReplaceAllocation_def w1 Let_def addAllocation_allocations delete_absent split: option.splits)
  show "release (store w ph) \<noteq> Some ph \<Longrightarrow> out = Some ph \<Longrightarrow> store w' ph = store w ph"
    using assms e(2,3) by (auto simp: app_ReplaceAllocation_def w1 Let_def st mutate_def split: option.splits)
qed

text \<open>The allocations that are released, or the one placeholder that is replaced.\<close>

lemma release_drop:
  assumes "processAllocationRelease rel w = (w', rs)" "relType rel \<noteq> PlaceholderReplaced"
  shows "frame w' = frame w" "wf_map (saAllocations w) \<Longrightarrow> wf_map (saAllocations w')"
    "wf_map (saAllocations w) \<Longrightarrow> int (length rs) = int (length (saAllocations w)) - int (length (saAllocations w'))"
proof -
  have "frame w' = frame w \<and> (wf_map (saAllocations w) \<longrightarrow> wf_map (saAllocations w') \<and>
    int (length rs) = int (length (saAllocations w)) - int (length (saAllocations w')))"
  proof (cases "relKey rel = []")
    case True
    then show ?thesis
      using assms(1) RemoveAllAllocations_effect [of w] by (auto simp: processAllocationRelease_def)
  next
    case False
    obtain w1 out where w1: "removeAllocationInternal (relKey rel) (relType rel) w = (w1, out)" by fastforce
    show ?thesis
      using assms False removeOne_effect [OF w1] length_delete [of "saAllocations w" "relKey rel"]
      by (cases "map_of (saAllocations w) (relKey rel)")
        (auto simp: processAllocationRelease_def w1 wf_map_delete delete_absent)
  qed
  then show "frame w' = frame w" "wf_map (saAllocations w) \<Longrightarrow> wf_map (saAllocations w')"
    "wf_map (saAllocations w) \<Longrightarrow> int (length rs) = int (length (saAllocations w)) - int (length (saAllocations w'))"
    by auto
qed

lemma moves_releaseFromQueue: "moves 0 pt (releaseFromQueue q tot pre pt)"
proof -
  have "moves 0 pt (if StrictlyGreaterThanZero tot
      then pt\<lparr>ptHeap := fst (DecAllocatedResource (ptHeap pt) q tot)\<rparr> else pt)" (is "moves 0 pt ?pt")
    by (simp add: moves_heap)
  moreover have "moves 0 ?pt (releaseFromQueue q tot pre pt)" by (simp add: releaseFromQueue_def Let_def moves_heap)
  ultimately show ?thesis by (rule moves_0)
qed

lemma moves_releaseAsks: "moves 0 pt (releaseAsks appID key pt)"
proof (cases "map_of (ptApps pt) appID")
  case (Some app)
  obtain w num where w: "removeAsksInternal key (load pt app) = (w, num)" by fastforce
  have "frame w = frame (load pt app)" "saAllocations w = saAllocations app"
    using frame_removeAsksInternal [of key "load pt app"] removeAsks_allocations [of key "load pt app"]
    by (simp_all add: w)
  from moves_0 [OF moves_save_same [OF Some this] moves_counters(4)] show ?thesis
    by (simp add: releaseAsks_def Some w)
qed (simp add: releaseAsks_def)

lemma moves_removeForeign: "moves 0 pt (removeForeignAllocation key pt)"
  using moves_0 [OF moves_counters(6) moves_onNode]
  by (auto simp: removeForeignAllocation_def Let_def split: option.split)

lemma moves_updatePhAllocationCount: "moves 0 pt (updatePhAllocationCount rs pt)"
  by (simp add: updatePhAllocationCount_def Let_def)

lemma moves_rollback:
  assumes "map_of (ptApps pt) appID = Some app"
  shows "moves 0 pt (rollbackAllocation appID key app pt)"
proof (cases "snd (RollbackAllocation key (load pt app))")
  case (Inl err)
  then show ?thesis by (simp add: rollbackAllocation_def Let_def prod.case_eq_if)
next
  case (Inr res)
  define w where "w = fst (RollbackAllocation key (load pt app))"
  have e: "frame w = frame (load pt app)" "saAllocations w = AList.delete key (saAllocations app)"
    "map_of (saAllocations app) key \<noteq> None"
    using RollbackAllocation_effect(1) [of key "load pt app"] RollbackAllocation_effect(2) [of key "load pt app"]
      RollbackAllocation_effect(3) [of key "load pt app" res] Inr by (simp_all add: w_def)
  then obtain v where v: "map_of (saAllocations app) key = Some v" by blast
  have "moves 1 pt (save appID w pt)"
    using length_delete [of "saAllocations app" key v] v
    by (intro moves_save [OF assms e(1)]) (auto simp: e(2) wf_map_delete)
  moreover define pt1 where "pt1 n = (if GetNode (save appID w pt) n
      then onNode n (\<lambda>sn. fst (RemoveAllocation sn key)) (save appID w pt) else save appID w pt)" for n
  moreover have "moves 0 (save appID w pt) (pt1 n)" for n by (simp add: pt1_def moves_onNode)
  ultimately have "moves 1 pt (pt1 n)" for n using moves_0' by blast
  moreover have "moves 0 (pt1 n) ((pt1 n)\<lparr>ptHeap := fst (DecAllocatedResource (ptHeap (pt1 n)) q res)\<rparr>)" for n q
    by (simp add: moves_heap)
  ultimately have "moves 1 pt ((pt1 n)\<lparr>ptHeap := fst (DecAllocatedResource (ptHeap (pt1 n)) q res)\<rparr>)" for n q
    using moves_0' by blast
  from moves_trans [OF this moves_updateAllocationCount [of "- 1"]]
  have "moves 0 pt (updateAllocationCount (- 1) ((pt1 n)\<lparr>ptHeap := fst (DecAllocatedResource (ptHeap (pt1 n)) q res)\<rparr>))"
    for n q by simp
  then show ?thesis
    unfolding rollbackAllocation_def Let_def prod.case_eq_if w_def [symmetric] Inr sum.case pt1_def .
qed

lemma length_replace:
  "wf_map m \<Longrightarrow> map_of m k = Some v \<Longrightarrow> map_of m k' = None \<Longrightarrow>
   length (AList.update k' v' (AList.delete k m)) = length m"
  using length_delete [of m k v] by (simp add: length_update_new delete_conv')

lemma release_replace:
  assumes "processAllocationRelease rel (load pt app) = (w, rs)" "relType rel = PlaceholderReplaced"
    and "release_guard pt rel" "map_of (ptApps pt) (relAppID rel) = Some app"
  shows "moves (if rs \<noteq> [] \<and> release (ptStore pt (hd rs)) = None then 1 else 0) pt (save (relAppID rel) w pt)"
    and "rs = [] \<or> (\<exists>ph. rs = [ph] \<and> store w ph = ptStore pt ph \<and>
      (release (ptStore pt ph) \<noteq> None \<longrightarrow> GetNode pt (allocNodeID (ptStore pt ph))))"
proof -
  obtain w1 out where w1: "app_ReplaceAllocation (relKey rel) (load pt app) = (w1, out)" by fastforce
  note e = replaceOne_effect [OF w1]
  have key: "relKey rel \<noteq> []" using assms(2,3) by (simp add: release_guard_def)
  have w: "w = w1" "rs = (case out of Some r \<Rightarrow> [r] | None \<Rightarrow> [])"
    using assms(1,2) key by (auto simp: processAllocationRelease_def w1 split: option.splits)
  note g = assms(3) [unfolded release_guard_def, rule_format, OF assms(2)]
  show "rs = [] \<or> (\<exists>ph. rs = [ph] \<and> store w ph = ptStore pt ph \<and>
      (release (ptStore pt ph) \<noteq> None \<longrightarrow> GetNode pt (allocNodeID (ptStore pt ph))))"
    using e(2,4) g assms(4) by (auto simp: w split: option.splits)
  show "moves (if rs \<noteq> [] \<and> release (ptStore pt (hd rs)) = None then 1 else 0) pt (save (relAppID rel) w pt)"
  proof (rule moves_save [OF assms(4)])
    show "frame w = frame (load pt app)" using e(1) w by simp
    show "wf_map (saAllocations app) \<Longrightarrow> wf_map (saAllocations w)"
      by (simp add: w e(3) wf_map_update wf_map_delete split: option.split)
    assume wf: "wf_map (saAllocations app)"
    show "(if rs \<noteq> [] \<and> release (ptStore pt (hd rs)) = None then 1 else 0) =
        int (length (saAllocations app)) - int (length (saAllocations w))"
      using e(2,3) g assms(4) length_delete [OF wf, of "relKey rel"] length_replace [OF wf, of "relKey rel"]
      by (cases "map_of (saAllocations app) (relKey rel)")
        (auto simp: w split: option.splits)
  qed
qed

lemma moves_removeAllocation:
  assumes "pt_removeAllocation rel pt = Some (pt', rs', c)" "\<And>r. rel = Some r \<Longrightarrow> release_guard pt r"
  shows "moves 0 pt pt'"
proof (cases "\<exists>r app. rel = Some r \<and> relAppID r \<noteq> [] \<and> map_of (ptApps pt) (relAppID r) = Some app \<and>
    relType r \<noteq> SchedulingFailedOnRM")
  case False
  then show ?thesis
    using assms(1) moves_removeForeign moves_rollback
    by (auto simp: pt_removeAllocation_def Let_def split: option.splits if_splits)
next
  case True
  then obtain r app where r: "rel = Some r" "relAppID r \<noteq> []" "map_of (ptApps pt) (relAppID r) = Some app"
    "relType r \<noteq> SchedulingFailedOnRM" by blast
  obtain w rs where w: "processAllocationRelease r (load pt app) = (w, rs)" by fastforce
  define pt1 where "pt1 = updatePhAllocationCount rs (save (relAppID r) w pt)"
  obtain pt2 tot pre conf where
    n: "releaseOnNodes (relType r) rs (Some NewResource) (Some NewResource) None pt1 = Some (pt2, tot, pre, conf)"
    using assms(1) r by (auto simp: pt_removeAllocation_def Let_def w pt1_def split: option.splits)
  define pt3 where "pt3 = releaseFromQueue (saQueue app) tot pre pt2"
  define d where "d = (if conf \<noteq> None then 0 else int (length rs))"
  define pt4 where "pt4 = (if d \<noteq> 0 then updateAllocationCount (- d) pt3 else pt3)"
  have pt': "pt' = (if relType r \<noteq> Timeout then releaseAsks (relAppID r) (relKey r) pt4 else pt4)"
    using assms(1) unfolding pt_removeAllocation_def r(1) option.case Let_def r(3) w prod.case pt1_def [symmetric] n
      pt3_def [symmetric]
    using r(2,4) by (cases conf) (simp_all add: pt4_def d_def split: if_splits, clarify)
  have st: "ptStore pt1 = store w" "GetNode pt1 = GetNode pt"
    by (simp_all add: pt1_def updatePhAllocationCount_def Let_def GetNode_def fun_eq_iff decPhAllocationCount_def)
  have "moves d pt (save (relAppID r) w pt)"
  proof (cases "relType r = PlaceholderReplaced")
    case False
    have "conf = None" using releaseOnNodes_confirmed(1) [OF False n] .
    then show ?thesis
      using release_drop [OF w False] by (intro moves_save [OF r(3)]) (simp_all add: d_def)
  next
    case True
    note m = release_replace [OF w True assms(2) [OF r(1)] r(3)]
    have "d = (if rs \<noteq> [] \<and> release (ptStore pt (hd rs)) = None then 1 else 0)"
    proof (cases "rs = []")
      case False
      with m(2) obtain ph where ph: "rs = [ph]" "store w ph = ptStore pt ph"
        "release (ptStore pt ph) \<noteq> None \<longrightarrow> GetNode pt (allocNodeID (ptStore pt ph))" by blast
      have "conf = (if GetNode pt (allocNodeID (ptStore pt ph)) then release (ptStore pt ph) else None)"
        using releaseOnNodes_confirmed(2) n unfolding True ph(1) by (metis st ph(2))
      then show ?thesis using ph by (simp add: d_def)
    qed (simp add: d_def)
    then show ?thesis using m(1) by simp
  qed
  also have "moves 0 \<dots> pt1" by (simp add: pt1_def moves_updatePhAllocationCount)
  also have "moves 0 \<dots> pt2" by (rule releaseOnNodes_moves [OF n])
  also have "moves 0 \<dots> pt3" by (simp add: pt3_def moves_releaseFromQueue)
  finally have "moves d pt pt3" .
  moreover have "moves (- d) pt3 pt4" by (simp add: pt4_def moves_updateAllocationCount)
  ultimately have "moves 0 pt pt4" using moves_trans by fastforce
  then show ?thesis using moves_0 [OF _ moves_releaseAsks] by (simp add: pt')
qed

section \<open>Removing applications\<close>

lemma shape_RemoveApplication:
  "maxResource (RemoveApplication h q u q') = maxResource (h q')"
  "applications (RemoveApplication h q u q') =
     (if q' = q then removeAll (ApplicationID u) (applications (h q')) else applications (h q'))"
proof -
  define h1 where "h1 = releaseApplication h q u"
  define sq where "sq = (h1 q)\<lparr>applications := removeAll (ApplicationID u) (applications (h1 q)),
      appPriorities := AList.delete (ApplicationID u) (appPriorities (h1 q)),
      allocatingAcceptedApps := removeAll (ApplicationID u) (allocatingAcceptedApps (h1 q))\<rparr>"
  obtain sq2 v where v: "recalculatePriority sq = (sq2, v)" by fastforce
  have "shape h1 = shape h" by (simp add: h1_def releaseApplication_def Let_def)
  then have h1: "maxResource (h1 x) = maxResource (h x)" "applications (h1 x) = applications (h x)" for x
    by (auto simp: shape_def fun_eq_iff)
  have sq2: "maxResource sq2 = maxResource (h q)"
    "applications sq2 = removeAll (ApplicationID u) (applications (h q))"
    using shape_recalculate [OF v, of q] by (auto simp: shape_def sq_def h1)
  have e: "RemoveApplication h q u = (if ApplicationID u \<notin> set (applications (h q)) then h
      else UpdateQueuePriority (h1(q := sq2)) (tl q) (hd q) v)"
    by (simp add: RemoveApplication_def Let_def h1_def [symmetric] sq_def [symmetric] v)
  have u: "maxResource (UpdateQueuePriority h' p n v x) = maxResource (h' x)"
    "applications (UpdateQueuePriority h' p n v x) = applications (h' x)" for h' p n v x
    using fun_cong [OF shape_UpdateQueuePriority [of h' p n v], of x] unfolding shape_def by simp_all
  show "maxResource (RemoveApplication h q u q') = maxResource (h q')"
    "applications (RemoveApplication h q u q') =
     (if q' = q then removeAll (ApplicationID u) (applications (h q')) else applications (h q'))"
    by (simp_all add: e u h1 sq2)
qed

lemma removeAsks_store [simp]: "store (fst (removeAsksInternal [] w)) = store w"
proof -
  have "store (fst (fold (\<lambda>reserve (w, total). case unReserveInternal reserve w of (w, num) \<Rightarrow> (w, total + num))
        rs (w, t))) = store w" for rs t
    by (induction rs arbitrary: w t) (simp_all add: prod.case_eq_if unReserveInternal_def Let_def)
  then have "store (fst (unReserveAll rs w)) = store w" for rs by (simp add: unReserveAll_def)
  from this [of "map snd (saReservations w)"] show ?thesis
    by (simp add: removeAsksInternal_def removeAllAsks_def Let_def prod.case_eq_if queue_UnReserve_def)
qed

lemma removeFromNode_fields:
  "ptApps (removeFromNode r pt) = ptApps pt" "ptMapping (removeFromNode r pt) = ptMapping pt"
  "ptHeap (removeFromNode r pt) = ptHeap pt" "ptStore (removeFromNode r pt) = ptStore pt"
  "ptAllocations (removeFromNode r pt) = ptAllocations pt" "ptNodeIDs (removeFromNode r pt) = ptNodeIDs pt"
  "pframe (removeFromNode r pt) = pframe pt"
  by (simp_all add: removeFromNode_def Let_def pframe_onNode) (simp_all add: onNode_def)

lemma removeFromNodes_fields:
  "ptApps (fold removeFromNode rs pt) = ptApps pt" "ptMapping (fold removeFromNode rs pt) = ptMapping pt"
  "ptHeap (fold removeFromNode rs pt) = ptHeap pt" "ptStore (fold removeFromNode rs pt) = ptStore pt"
  "ptAllocations (fold removeFromNode rs pt) = ptAllocations pt"
  "ptNodeIDs (fold removeFromNode rs pt) = ptNodeIDs pt" "pframe (fold removeFromNode rs pt) = pframe pt"
  by (induction rs arbitrary: pt) (simp_all add: removeFromNode_fields)

lemma RemoveAllocation_gone:
  "map_of (allocations (fst (RemoveAllocation sn key))) key = None"
  "map_of (allocations sn) k = None \<Longrightarrow> map_of (allocations (fst (RemoveAllocation sn key))) k = None"
  by (simp_all add: RemoveAllocation_def Let_def refreshAvailableResource_def delete_conv' split: option.split)

lemma removeFromNodes_gone:
  assumes "r \<in> set rs" "allocNodeID (ptStore pt r) \<in> set (ptNodeIDs pt)"
  shows "map_of (allocations (ptNodes (fold removeFromNode rs pt) (allocNodeID (ptStore pt r))))
    (allocationKey (ptStore pt r)) = None"
proof -
  have keep: "map_of (allocations (ptNodes (removeFromNode r' pt) n)) k = None"
    if "map_of (allocations (ptNodes pt n)) k = None" for pt r' n k
    using that by (auto simp: removeFromNode_def Let_def onNode_def RemoveAllocation_gone)
  have keeps: "map_of (allocations (ptNodes (fold removeFromNode rs pt) n)) k = None"
    if "map_of (allocations (ptNodes pt n)) k = None" for pt rs n k
    using that by (induction rs arbitrary: pt) (simp_all add: keep)
  show ?thesis
    using assms
  proof (induction rs arbitrary: pt)
    case (Cons r' rs)
    show ?case
    proof (cases "r' = r")
      case True
      then show ?thesis
        using Cons.prems by (simp, intro keeps) (simp add: removeFromNode_def GetNode_def onNode_def Let_def RemoveAllocation_gone)
    next
      case False
      then show ?thesis
        using Cons.IH [of "removeFromNode r' pt"] Cons.prems by (simp add: removeFromNode_fields)
    qed
  qed simp
qed

lemma removeApplication_effect:
  assumes "map_of (ptApps pt) appID = Some app" "removeApplication appID pt = (pt', allocs)"
  shows "ptApps pt' = AList.delete appID (ptApps pt)" "ptMapping pt' = AList.delete appID (ptMapping pt)"
    "allocs = map snd (saAllocations app)" "ptStore pt' = ptStore pt" "ptNodeIDs pt' = ptNodeIDs pt"
    "ptAllocations pt' = ptAllocations pt - int (length (saAllocations app))" "pframe pt' = pframe pt"
    "applications (ptHeap pt' q) =
       (if q = saQueue app \<and> q \<noteq> [] then removeAll (saID app) (applications (ptHeap pt q)) else applications (ptHeap pt q))"
    "r \<in> set allocs \<Longrightarrow> allocNodeID (ptStore pt r) \<in> set (ptNodeIDs pt) \<Longrightarrow>
     map_of (allocations (ptNodes pt' (allocNodeID (ptStore pt r)))) (allocationKey (ptStore pt r)) = None"
proof -
  define pt0 where "pt0 = pt\<lparr>ptApps := AList.delete appID (ptApps pt)\<rparr>"
  obtain w1 num where w1: "removeAsksInternal [] (load pt0 app) = (w1, num)" by fastforce
  define w2 where "w2 = (if saQueue w1 \<noteq> []
      then w1\<lparr>heap := RemoveApplication (heap w1) (saQueue w1) (usageOf w1)\<rparr> else w1)"
  obtain w3 where w3: "RemoveAllAllocations w2 = (w3, map snd (saAllocations w2))"
    by (metis RemoveAllAllocations_effect(1) prod.collapse)
  define pt1 where "pt1 = updateAllocationCount (- int (length (saAllocations w2)))
      (flush w3 ((decReservationCount num pt0)\<lparr>ptMapping := AList.delete appID (ptMapping pt)\<rparr>))"
  have e: "pt' = fold removeFromNode (map snd (saAllocations w2)) pt1" "allocs = map snd (saAllocations w2)"
    using assms
    by (simp_all add: removeApplication_def Let_def pt0_def [symmetric] w1 w2_def [symmetric] w3 pt1_def)
      (auto simp: pt0_def decReservationCount_def)
  have f1: "frame w1 = frame (load pt0 app)" "saAllocations w1 = saAllocations app" "store w1 = ptStore pt"
    using frame_removeAsksInternal [of "[]" "load pt0 app"] removeAsks_allocations [of "[]" "load pt0 app"]
      removeAsks_store [of "load pt0 app"] by (simp_all add: w1) (simp_all add: pt0_def)
  note d1 = frameD [OF f1(1)]
  have sh: "maxResource (heap w1 x) = maxResource (ptHeap pt x)" "applications (heap w1 x) = applications (ptHeap pt x)" for x
    using fun_cong [OF d1(3), of x] by (simp_all add: shape_def pt0_def)
  have f2: "saAllocations w2 = saAllocations app" "store w2 = ptStore pt"
    "totalResource (nodes w2 n) = totalResource (ptNodes pt n)"
    "maxResource (heap w2 x) = maxResource (ptHeap pt x)"
    "applications (heap w2 x) = (if x = saQueue app \<and> x \<noteq> [] then removeAll (saID app) (applications (ptHeap pt x))
       else applications (ptHeap pt x))" for n x
    using f1 d1 sh by (simp_all add: w2_def shape_RemoveApplication usageOf_def) (simp add: pt0_def)
  have f3: "store w3 = ptStore pt" "frame w3 = frame w2"
    using RemoveAllAllocations_effect(3,4) [of w2] by (simp_all add: w3 f2)
  note d3 = frameD [OF f3(2)]
  have sh3: "maxResource (heap w3 x) = maxResource (heap w2 x)" "applications (heap w3 x) = applications (heap w2 x)" for x
    using fun_cong [OF d3(3), of x] by (simp_all add: shape_def)
  have p1: "ptApps pt1 = AList.delete appID (ptApps pt)" "ptMapping pt1 = AList.delete appID (ptMapping pt)"
    "ptHeap pt1 = heap w3" "ptStore pt1 = ptStore pt" "ptNodeIDs pt1 = ptNodeIDs pt" "ptNodes pt1 = nodes w3"
    "ptAllocations pt1 = ptAllocations pt - int (length (saAllocations app))" "ptTotal pt1 = ptTotal pt"
    by (simp_all add: pt1_def updateAllocationCount_def pt0_def decReservationCount_def f3 f2)
  show "ptApps pt' = AList.delete appID (ptApps pt)" "ptMapping pt' = AList.delete appID (ptMapping pt)"
    "allocs = map snd (saAllocations app)" "ptStore pt' = ptStore pt" "ptNodeIDs pt' = ptNodeIDs pt"
    "ptAllocations pt' = ptAllocations pt - int (length (saAllocations app))"
    by (simp_all add: e removeFromNodes_fields p1 f2)
  show "pframe pt' = pframe pt"
    unfolding e(1) removeFromNodes_fields by (simp add: pframe_def p1 d3(4) f2 sh3)
  show "applications (ptHeap pt' q) =
       (if q = saQueue app \<and> q \<noteq> [] then removeAll (saID app) (applications (ptHeap pt q)) else applications (ptHeap pt q))"
    by (simp add: e removeFromNodes_fields p1 sh3 f2)
  show "r \<in> set allocs \<Longrightarrow> allocNodeID (ptStore pt r) \<in> set (ptNodeIDs pt) \<Longrightarrow>
     map_of (allocations (ptNodes pt' (allocNodeID (ptStore pt r)))) (allocationKey (ptStore pt r)) = None"
    using removeFromNodes_gone [of r "map snd (saAllocations w2)" pt1] by (simp add: e p1)
qed

lemma moves_removeApplication: "moves 0 pt (fst (removeApplication appID pt))"
proof (cases "map_of (ptApps pt) appID")
  case (Some app)
  obtain pt' allocs where r: "removeApplication appID pt = (pt', allocs)" by fastforce
  note e = removeApplication_effect [OF Some r]
  show ?thesis
    using map_sum_delete [of "ptApps pt" appID app] Some
    by (auto simp: r moves_def e wf_apps_def allocation_count_def wf_map_delete delete_conv' split: if_splits)
qed (simp add: removeApplication_def)

end
