(* ===== verification/PartitionRuns.thy ===== *)
theory PartitionRuns
  imports PartitionMoves
begin

text \<open>
  The operations of a partition as steps, and the books that every run of them keeps: the total resource
  and the count of allocations. Applications are added to a leaf queue and leave nothing behind when they
  are removed.
\<close>

section \<open>Adding applications\<close>

text \<open>The root queue keeps its limits when queues are created below it.\<close>

definition root_view :: "qheap \<Rightarrow> resource option \<times> bool" where
  "root_view h = (maxResource (h rootPath), isManaged (h rootPath))"

lemma UpdateQueueProperties_leaf [simp]: "isLeaf (UpdateQueueProperties now path sq m) = isLeaf sq"
proof -
  have "isLeaf (resetProperties sq) = isLeaf sq" by (simp add: resetProperties_def)
  then have "isLeaf (fold updateProperty (properties (resetProperties sq)) (resetProperties sq)) = isLeaf sq" by simp
  moreover have "isLeaf (setPreemptionTime now x m d) = isLeaf x" for x d
    by (simp add: setPreemptionTime_def Let_def)
  ultimately show ?thesis by (simp add: UpdateQueueProperties_def Let_def)
qed

lemma root_view_newDynamic:
  assumes "newDynamicQueueInternal now name leaf h parent = (h', out)" "parent \<noteq> []"
  shows "root_view h' = root_view h" "out = Inr q \<Longrightarrow> q \<noteq> [] \<and> q \<noteq> rootPath \<and> isLeaf (h' q) = leaf"
proof -
  obtain h1 err where a: "addChildQueue h parent (ToLower name) (newBlankQueue\<lparr>isManaged := False, isLeaf := leaf\<rparr>) =
      (h1, err)" by fastforce
  have 1: "root_view h1 = root_view h" "err = None \<Longrightarrow> isLeaf (h1 (ToLower name # parent)) = leaf"
    using a assms(2)
    by (auto simp: addChildQueue_def Let_def root_view_def rootPath_def applyTemplate_def
        split: if_splits option.splits)
  have "root_view h' = root_view h1" "out = Inr q \<Longrightarrow> q \<noteq> [] \<and> q \<noteq> rootPath \<and> isLeaf (h' q) = leaf"
    using assms a 1
    by (auto simp: newDynamicQueueInternal_def Let_def root_view_def rootPath_def split: option.splits)
  with 1 show "root_view h' = root_view h" "out = Inr q \<Longrightarrow> q \<noteq> [] \<and> q \<noteq> rootPath \<and> isLeaf (h' q) = leaf"
    by auto
qed

lemma root_view_NewDynamicQueue:
  assumes "NewDynamicQueue now name leaf h parent = (h', out)"
  shows "root_view h' = root_view h" "out = Inr q \<Longrightarrow> q \<noteq> []"
  using assms root_view_newDynamic(1) [of now name leaf h parent h' out]
    root_view_newDynamic(2) [of now name leaf h parent h' out q]
  by (auto simp: NewDynamicQueue_def split: if_splits)

lemma root_view_createQueues: "createQueues now names h queue = (h', out) \<Longrightarrow> root_view h' = root_view h"
proof (induction names arbitrary: h queue)
  case (Cons name names)
  obtain h1 out1 where 1: "NewDynamicQueue now name (names = []) h queue = (h1, out1)" by fastforce
  with Cons root_view_NewDynamicQueue [OF 1] show ?case by (cases out1) auto
qed simp

lemma root_view_queueForApp:
  assumes "queueForApp now h name user = Some (h', out)"
  shows "root_view h' = root_view h"
proof -
  have dyn: "root_view h1 = root_view h" if "newDynamicQueueInternal now n l h rootPath = (h1, o1)" for n l h1 o1
    using root_view_newDynamic(1) [OF that] by (simp add: rootPath_def)
  have "root_view (fst (createRecoveryQueue now h)) = root_view h"
  proof -
    obtain h1 o1 where 1: "newDynamicQueueInternal now ''@recovery@'' True h rootPath = (h1, o1)" by fastforce
    show ?thesis
      using dyn [OF 1] root_view_newDynamic(2) [OF 1]
      by (cases o1) (auto simp: createRecoveryQueue_def NewRecoveryQueue_def 1 root_view_def)
  qed
  moreover have "root_view h' = root_view h" if "createQueue now h name user = Some (h', out)"
    using that root_view_createQueues by (auto simp: createQueue_def split: if_splits option.splits)
  ultimately show ?thesis
    using assms by (auto simp: queueForApp_def split: option.splits if_splits)
qed

text \<open>What \<open>AddApplication\<close> does to the books of the partition, whether it fails or not.\<close>

lemma addToQueue_outcome:
  assumes "addToQueue si um app q pt = (pt', app', err)"
  shows "ptNodeIDs pt' = ptNodeIDs pt" "ptNodes pt' = ptNodes pt" "ptTotal pt' = ptTotal pt"
    "ptAllocations pt' = ptAllocations pt" "isManaged (ptHeap pt rootPath) \<Longrightarrow> root_view (ptHeap pt') = root_view (ptHeap pt)"
    "err \<noteq> None \<Longrightarrow> ptApps pt' = ptApps pt \<and> ptMapping pt' = ptMapping pt"
    "err = None \<Longrightarrow> app' = app\<lparr>saQueuePath := QueuePath q, saQueue := q\<rparr> \<and>
       ptApps pt' = AList.update (saID app) app' (ptApps pt) \<and>
       ptMapping pt' = AList.update (saID app) q (ptMapping pt) \<and>
       isLeaf (ptHeap pt' q) \<and> saID app \<in> set (applications (ptHeap pt' q))"
proof -
  define h where "h = (if \<not> IsRecoveryQueue (saQueuePath app) \<and>
       (getResourceFromTags um app (tagGuaranteed si) \<noteq> None \<or> getResourceFromTags um app (tagQuota si) \<noteq> None \<or>
        getUint64Tag app (tagMaxApps si) \<noteq> 0)
      then (ptHeap pt)(q := setQueueFromTags (getResourceFromTags um app (tagGuaranteed si))
        (getResourceFromTags um app (tagQuota si)) (getUint64Tag app (tagMaxApps si)) (ptHeap pt q))
      else ptHeap pt)"
  have tags: "isLeaf (setQueueFromTags g m n sq) = isLeaf sq" "isManaged sq \<Longrightarrow> setQueueFromTags g m n sq = sq" for g m n sq
    by (simp_all add: setQueueFromTags_def Let_def SetMaxRunningApps_def setResources_def)
  have h: "isLeaf (h x) = isLeaf (ptHeap pt x)" "isManaged (ptHeap pt rootPath) \<Longrightarrow> root_view h = root_view (ptHeap pt)" for x
    by (auto simp: h_def tags root_view_def)
  have e: "(pt', app', err) = (if \<not> isLeaf (ptHeap pt q) then (pt, app, Some (NotALeaf (saQueuePath app)))
      else case checkGang h q app of
             Some err \<Rightarrow> (pt\<lparr>ptHeap := h\<rparr>, app, Some err)
           | None \<Rightarrow>
               (pt\<lparr>ptHeap := h(q := AddApplication (h q) (saID app)),
                   ptApps := AList.update (saID app) (app\<lparr>saQueuePath := QueuePath q, saQueue := q\<rparr>) (ptApps pt),
                   ptMapping := AList.update (saID app) q (ptMapping pt)\<rparr>,
                app\<lparr>saQueuePath := QueuePath q, saQueue := q\<rparr>, None))"
    using assms unfolding addToQueue_def Let_def h_def [symmetric] by (cases "checkGang h q app") auto
  show "ptNodeIDs pt' = ptNodeIDs pt" "ptNodes pt' = ptNodes pt" "ptTotal pt' = ptTotal pt"
    "ptAllocations pt' = ptAllocations pt"
    "err \<noteq> None \<Longrightarrow> ptApps pt' = ptApps pt \<and> ptMapping pt' = ptMapping pt"
    using e by (auto split: if_splits option.splits)
  show "isManaged (ptHeap pt rootPath) \<Longrightarrow> root_view (ptHeap pt') = root_view (ptHeap pt)"
    using e h(2) by (auto simp: root_view_def AddApplication_def split: if_splits option.splits)
  show "err = None \<Longrightarrow> app' = app\<lparr>saQueuePath := QueuePath q, saQueue := q\<rparr> \<and>
       ptApps pt' = AList.update (saID app) app' (ptApps pt) \<and>
       ptMapping pt' = AList.update (saID app) q (ptMapping pt) \<and>
       isLeaf (ptHeap pt' q) \<and> saID app \<in> set (applications (ptHeap pt' q))"
    using e h(1) by (auto simp: AddApplication_def split: if_splits option.splits)
qed

lemma addApplication_outcome:
  assumes "pt_AddApplication si um app pt = Some (pt', app', err)"
  shows "ptNodeIDs pt' = ptNodeIDs pt" "ptNodes pt' = ptNodes pt" "ptTotal pt' = ptTotal pt"
    "ptAllocations pt' = ptAllocations pt" "isManaged (ptHeap pt rootPath) \<Longrightarrow> root_view (ptHeap pt') = root_view (ptHeap pt)"
    "err \<noteq> None \<Longrightarrow> ptApps pt' = ptApps pt \<and> ptMapping pt' = ptMapping pt"
    "err = None \<Longrightarrow> map_of (ptApps pt) (saID app) = None \<and> ptState pt \<noteq> Draining \<and> ptState pt \<noteq> Stopped \<and>
       saID app' = saID app \<and> saAllocations app' = saAllocations app \<and> saQueuePath app' = QueuePath (saQueue app') \<and>
       ptApps pt' = AList.update (saID app) app' (ptApps pt) \<and>
       ptMapping pt' = AList.update (saID app) (saQueue app') (ptMapping pt) \<and>
       isLeaf (ptHeap pt' (saQueue app')) \<and> saID app \<in> set (applications (ptHeap pt' (saQueue app')))"
proof -
  consider "pt' = pt" "err \<noteq> None"
    | app1 :: Application and h e1 where "queueForApp (ptClock pt) (ptHeap pt) (saQueuePath app1) (saUser app1) = Some (h, Inl e1)"
        "pt' = pt\<lparr>ptHeap := h\<rparr>" "err \<noteq> None"
    | app1 :: Application and h q where "queueForApp (ptClock pt) (ptHeap pt) (saQueuePath app1) (saUser app1) = Some (h, Inr q)"
        "addToQueue si um app1 q (pt\<lparr>ptHeap := h\<rparr>) = (pt', app', err)"
        "saID app1 = saID app" "saAllocations app1 = saAllocations app" "map_of (ptApps pt) (saID app) = None"
        "ptState pt \<noteq> Draining" "ptState pt \<noteq> Stopped"
  proof -
    have place: "saID app1 = saID app \<and> saAllocations app1 = saAllocations app"
      if "PlaceApplication ft h f m app = Some (app1, e)" for ft h f m app1 e
      using that by (auto simp: PlaceApplication_def split: option.splits sum.splits if_splits)
    show thesis
    proof (cases "ptState pt = Draining \<or> ptState pt = Stopped \<or> map_of (ptApps pt) (saID app) \<noteq> None")
      case True
      then show thesis using assms by (intro that(1)) (auto simp: pt_AddApplication_def split: if_splits)
    next
      case False
      let ?place = "PlaceApplication (tagCreateForce si) (ptHeap pt) (getQueueInternal (ptHeap pt)) (ptPlacement pt) app"
      obtain app1 e1 where 1: "?place = Some (app1, e1)"
        using assms False by (cases ?place) (auto simp: pt_AddApplication_def)
      show thesis
      proof (cases e1)
        case None
        obtain h out where 2: "queueForApp (ptClock pt) (ptHeap pt) (saQueuePath app1) (saUser app1) = Some (h, out)"
          using assms False 1 None
          by (cases "queueForApp (ptClock pt) (ptHeap pt) (saQueuePath app1) (saUser app1)")
            (auto simp: pt_AddApplication_def)
        show thesis
        proof (cases out)
          case (Inl e2)
          have "Some (pt\<lparr>ptHeap := h\<rparr>, app1, Some (QueueError e2)) = Some (pt', app', err)"
            using assms False 1 None 2 Inl by (simp add: pt_AddApplication_def)
          then show thesis using that(2) [OF 2 [unfolded Inl]] by blast
        next
          case (Inr q)
          have "addToQueue si um app1 q (pt\<lparr>ptHeap := h\<rparr>) = (pt', app', err)"
            using assms False 1 None 2 Inr by (simp add: pt_AddApplication_def)
          then show thesis using that(3) [OF 2 [unfolded Inr]] place [OF 1] False by blast
        qed
      next
        case (Some e)
        then show thesis using assms False 1 by (intro that(1)) (auto simp: pt_AddApplication_def)
      qed
    qed
  qed
  then have "ptNodeIDs pt' = ptNodeIDs pt \<and> ptNodes pt' = ptNodes pt \<and> ptTotal pt' = ptTotal pt \<and>
    ptAllocations pt' = ptAllocations pt \<and>
    (isManaged (ptHeap pt rootPath) \<longrightarrow> root_view (ptHeap pt') = root_view (ptHeap pt)) \<and>
    (err \<noteq> None \<longrightarrow> ptApps pt' = ptApps pt \<and> ptMapping pt' = ptMapping pt) \<and>
    (err = None \<longrightarrow> map_of (ptApps pt) (saID app) = None \<and> ptState pt \<noteq> Draining \<and> ptState pt \<noteq> Stopped \<and>
       saID app' = saID app \<and> saAllocations app' = saAllocations app \<and> saQueuePath app' = QueuePath (saQueue app') \<and>
       ptApps pt' = AList.update (saID app) app' (ptApps pt) \<and>
       ptMapping pt' = AList.update (saID app) (saQueue app') (ptMapping pt) \<and>
       isLeaf (ptHeap pt' (saQueue app')) \<and> saID app \<in> set (applications (ptHeap pt' (saQueue app'))))"
  proof cases
    case (2 app1 h e1)
    then show ?thesis using root_view_queueForApp [OF 2(1)] by auto
  next
    case (3 app1 h q)
    have "isManaged (h rootPath) = isManaged (ptHeap pt rootPath)" "root_view h = root_view (ptHeap pt)"
      using root_view_queueForApp [OF 3(1)] by (simp_all add: root_view_def)
    with 3(3-7) addToQueue_outcome [OF 3(2)] show ?thesis by (cases err) simp_all
  qed auto
  then show "ptNodeIDs pt' = ptNodeIDs pt" "ptNodes pt' = ptNodes pt" "ptTotal pt' = ptTotal pt"
    "ptAllocations pt' = ptAllocations pt" "isManaged (ptHeap pt rootPath) \<Longrightarrow> root_view (ptHeap pt') = root_view (ptHeap pt)"
    "err \<noteq> None \<Longrightarrow> ptApps pt' = ptApps pt \<and> ptMapping pt' = ptMapping pt"
    "err = None \<Longrightarrow> map_of (ptApps pt) (saID app) = None \<and> ptState pt \<noteq> Draining \<and> ptState pt \<noteq> Stopped \<and>
       saID app' = saID app \<and> saAllocations app' = saAllocations app \<and> saQueuePath app' = QueuePath (saQueue app') \<and>
       ptApps pt' = AList.update (saID app) app' (ptApps pt) \<and>
       ptMapping pt' = AList.update (saID app) (saQueue app') (ptMapping pt) \<and>
       isLeaf (ptHeap pt' (saQueue app')) \<and> saID app \<in> set (applications (ptHeap pt' (saQueue app')))"
    by blast+
qed

section \<open>Scheduling\<close>

text \<open>An ask is tried on a node, and the partition takes over the result.\<close>

definition scheduleOn ::
    "predicates \<Rightarrow> (string \<Rightarrow> string) \<Rightarrow> string \<Rightarrow> string \<Rightarrow> nat \<Rightarrow> PartitionContext \<Rightarrow>
     (PartitionContext \<times> AllocationResult option) option" where
  "scheduleOn plugin instanceType appID nodeID r pt =
     (case map_of (ptApps pt) appID of
        None \<Rightarrow> Some (pt, None)
      | Some app \<Rightarrow>
          (case tryNode plugin nodeID r (load pt app) of
             (w, None, _) \<Rightarrow> Some (save appID w pt, None)
           | (w, Some result, _) \<Rightarrow> pt_allocate instanceType result (save appID w pt)))"

lemma tryNode_effect:
  assumes "tryNode plugin nodeID r w = (w', res, msg)"
  shows "frame w' = frame w" "applicationID (store w' r) = applicationID (store w r)"
    "res = None \<Longrightarrow> saAllocations w' = saAllocations w"
    "res \<noteq> None \<Longrightarrow> res = Some (newAllocationResultInternal Allocated nodeID r)"
    "res \<noteq> None \<Longrightarrow> saAllocations w' = AList.update (allocationKey (store w r)) r (saAllocations w)"
proof -
  obtain w1 err where w1: "preConditions plugin nodeID r True w = (w1, err)" by fastforce
  have 1: "frame w1 = frame w" "allocationKey (store w1 r) = allocationKey (store w r)"
    "applicationID (store w1 r) = applicationID (store w r)" "saAllocations w1 = saAllocations w"
    using w1
    by (auto simp: preConditions_def mutate_def LogAllocationFailure_def frame_def Let_def split: option.splits)
  obtain sn ok where sn: "TryAddAllocation (nodes w1 nodeID) (Some (store w1 r)) = (sn, ok)" by fastforce
  have cap: "totalResource sn = totalResource (nodes w1 nodeID)"
    by (metis TryAddAllocation_def capacity_same(5) fst_conv sn)
  define w2 where "w2 = w1\<lparr>nodes := (nodes w1)(nodeID := sn)\<rparr>"
  obtain h e where h: "TryIncAllocatedResource (heap w1) (saQueue w1) (resource_of w r) = (h, e)" by fastforce
  have sh: "shape h = shape (heap w1)"
    using shape_guarded(1) [of "heap w1" "saQueue w1" "resource_of w r"] unfolding h by simp
  define w3 where "w3 = w2\<lparr>heap := h\<rparr>"
  have 3: "frame w3 = frame w" "allocationKey (store w3 r) = allocationKey (store w r)"
    "applicationID (store w3 r) = applicationID (store w r)" "saAllocations w3 = saAllocations w"
  proof -
    have "frame w2 = frame w1" unfolding w2_def by (rule frame_nodes [OF cap])
    moreover have "frame w3 = frame w2" unfolding w3_def by (rule frame_heap) (simp add: w2_def sh)
    ultimately show "frame w3 = frame w" using 1 by simp
  qed (use 1 in \<open>simp_all add: w3_def w2_def\<close>)
  define w4 where "w4 = w3\<lparr>nodes := (nodes w3)(nodeID := fst (RemoveAllocation sn (allocationKey (store w r))))\<rparr>"
  have 4: "frame w4 = frame w" "applicationID (store w4 r) = applicationID (store w r)" "saAllocations w4 = saAllocations w"
  proof -
    have "frame w4 = frame w3" unfolding w4_def by (rule frame_nodes) (simp add: w3_def w2_def)
    then show "frame w4 = frame w" using 3 by simp
  qed (use 3 in \<open>simp_all add: w4_def\<close>)
  have st: "store (addAllocationInternal_app t r w0) = store w0" for t w0
    by (simp add: addAllocationInternal_app_def Let_def)
  have ask: "applicationID (store (fst (allocateAsk r w0)) r) = applicationID (store w0 r)" for w0
    by (simp add: allocateAsk_def Let_def mutate_def allocate_def)
  define w5 where "w5 = addAllocationInternal_app Allocated r (fst (allocateAsk r w3))"
  have 5: "frame w5 = frame w" "applicationID (store w5 r) = applicationID (store w r)"
    "saAllocations w5 = AList.update (allocationKey (store w r)) r (saAllocations w)"
    using 3 by (simp_all add: w5_def st ask addAllocation_allocations)
  have eq: "tryNode plugin nodeID r w =
    (if \<not> preAllocateCheck (nodes w nodeID) (resource_of w r) (allocationKey (store w r)) then (w, None, None)
     else case err of Some msg \<Rightarrow> (w1, None, Some msg)
     | None \<Rightarrow> if \<not> ok then (w1, None, None) else
         case e of Some _ \<Rightarrow> (w4, None, None)
         | None \<Rightarrow> (w5, Some (newAllocationResultInternal Allocated nodeID r), None))"
    by (simp add: tryNode_def w1 sn Let_def newAllocationResultInternal_def h w2_def w3_def w4_def w5_def
        split: option.split bool.split)
  show "frame w' = frame w" "applicationID (store w' r) = applicationID (store w r)"
    "res = None \<Longrightarrow> saAllocations w' = saAllocations w"
    "res \<noteq> None \<Longrightarrow> res = Some (newAllocationResultInternal Allocated nodeID r)"
    "res \<noteq> None \<Longrightarrow> saAllocations w' = AList.update (allocationKey (store w r)) r (saAllocations w)"
    using assms 1 4 5 unfolding eq by (auto split: if_splits option.splits)
qed

lemma moves_allocateOnNode: "allocateOnNode inst result pt = (pt', out) \<Longrightarrow> moves 1 pt pt'"
  using moves_0 [OF moves_counters(7) moves_countAllocation]
  by (auto simp: allocateOnNode_def Let_def countAllocation_def)

lemma moves_scheduleOn:
  assumes "scheduleOn plugin inst appID nodeID r pt = Some (pt', out)" "GetNode pt nodeID"
    and "\<And>app. map_of (ptApps pt) appID = Some app \<Longrightarrow>
      applicationID (ptStore pt r) = appID \<and> map_of (saAllocations app) (allocationKey (ptStore pt r)) = None"
  shows "moves 0 pt pt'"
proof (cases "map_of (ptApps pt) appID")
  case None
  then show ?thesis using assms(1) by (simp add: scheduleOn_def)
next
  case (Some app)
  obtain w res msg where t: "tryNode plugin nodeID r (load pt app) = (w, res, msg)" using prod_cases3 by blast
  note e = tryNode_effect [OF t] and g = assms(3) [OF Some]
  show ?thesis
  proof (cases "res = None")
    case True
    then have "pt' = save appID w pt" using assms(1) by (simp add: scheduleOn_def Some t)
    then show ?thesis using moves_save_same [OF Some] e(1) e(3) [OF True] by simp
  next
    case False
    have "moves (- 1) pt (save appID w pt)"
      by (rule moves_save [OF Some e(1)])
        (use g in \<open>simp_all add: e(5) [OF False] wf_map_update length_update_new\<close>)
    moreover have "\<exists>app1. map_of (ptApps (save appID w pt)) appID = Some app1" by (simp add: update_conv')
    moreover have "GetNode (save appID w pt) nodeID" using assms(2) by (simp add: GetNode_def)
    moreover have "applicationID (ptStore (save appID w pt) r) = appID" using e(2) g by simp
    ultimately show ?thesis
      using assms(1) e(4) [OF False] moves_0 [OF moves_counters(4) moves_allocateOnNode]
        moves_trans [of "- 1" pt "save appID w pt" 1 pt']
      by (auto simp: scheduleOn_def Some t pt_allocate_def Let_def newAllocationResultInternal_def)
  qed
qed

section \<open>Runs of a partition\<close>

text \<open>
  The operations of a partition. The guards are what the callers provide: amounts that do not saturate, an
  application that is submitted without allocations and ends without them, an allocation that is not booked
  twice, and a replacement that the partition can confirm. An object is created where no application refers
  to it.
\<close>

inductive partition_step ::
    "predicates \<Rightarrow> (string \<Rightarrow> string) \<Rightarrow> si_tags \<Rightarrow> (string \<Rightarrow> resource option) \<Rightarrow>
     PartitionContext \<Rightarrow> PartitionContext \<Rightarrow> bool"
  for plugin inst si um where
  node_request:
    "small_partition pt \<Longrightarrow> small (niResource info) \<Longrightarrow> no_move (ptStore pt) \<Longrightarrow>
     partition_step plugin inst si um pt (processNode info pt)"
| application_added:
    "saAllocations app = [] \<Longrightarrow> isManaged (ptHeap pt rootPath) \<Longrightarrow>
     pt_AddApplication si um app pt = Some (pt', app', err) \<Longrightarrow> partition_step plugin inst si um pt pt'"
| application_removed:
    "partition_step plugin inst si um pt (fst (removeApplication appID pt))"
| application_terminated:
    "(\<And>app. map_of (ptApps pt) appID = Some app \<Longrightarrow> saAllocations app = []) \<Longrightarrow>
     partition_step plugin inst si um pt (moveTerminatedApp appID pt)"
| application_rejected:
    "partition_step plugin inst si um pt (AddRejectedApplication app msg pt)"
| applications_expired:
    "(\<And>appID app. map_of (ptApps pt) appID = Some app \<Longrightarrow> saState app = Expired \<Longrightarrow> saAllocations app = []) \<Longrightarrow>
     partition_step plugin inst si um pt (cleanupExpiredApps pt)"
| object_created:
    "(\<And>appID app key. map_of (ptApps pt) appID = Some app \<Longrightarrow>
        map_of (saRequests app) key \<noteq> Some r \<and> map_of (saAllocations app) key \<noteq> Some r) \<Longrightarrow>
     partition_step plugin inst si um pt (pt\<lparr>ptStore := (ptStore pt)(r := a)\<rparr>)"
| allocation_updated:
    "fresh pt r \<Longrightarrow> partition_step plugin inst si um pt (fst (pt_UpdateAllocation inst (Some r) pt))"
| allocation_released:
    "release_guard pt rel \<Longrightarrow> pt_removeAllocation (Some rel) pt = Some (pt', rs, confirmed) \<Longrightarrow>
     partition_step plugin inst si um pt pt'"
| scheduled:
    "GetNode pt nodeID \<Longrightarrow>
     (\<And>app. map_of (ptApps pt) appID = Some app \<Longrightarrow>
        applicationID (ptStore pt r) = appID \<and> map_of (saAllocations app) (allocationKey (ptStore pt r)) = None) \<Longrightarrow>
     scheduleOn plugin inst appID nodeID r pt = Some (pt', result) \<Longrightarrow> partition_step plugin inst si um pt pt'"
| reserved:
    "pt_reserve appID nodeID r pt = Some pt' \<Longrightarrow> partition_step plugin inst si um pt pt'"
| unreserved:
    "partition_step plugin inst si um pt (pt_unReserve appID nodeID r pt)"
| clock_ticked:
    "partition_step plugin inst si um pt (pt\<lparr>ptClock := now\<rparr>)"

lemma moves_AddApplication:
  assumes "pt_AddApplication si um app pt = Some (pt', app', err)" "saAllocations app = []"
    and "isManaged (ptHeap pt rootPath)"
  shows "moves 0 pt pt'"
proof -
  note o = addApplication_outcome [OF assms(1)]
  have "pframe pt' = pframe pt"
    using o(1-3) o(5) [OF assms(3)] by (simp add: pframe_def root_view_def)
  moreover have "wf_apps pt' \<and> allocation_count (ptApps pt') = allocation_count (ptApps pt)" if "wf_apps pt"
    using that o(6,7) assms(2)
    by (cases err) (auto simp: wf_apps_def allocation_count_def map_sum_update_new wf_map_update update_conv')
  ultimately show ?thesis by (simp add: moves_def o(4))
qed

lemma moves_delete_app:
  assumes "pframe pt' = pframe pt" "ptAllocations pt' = ptAllocations pt" "ptApps pt' = AList.delete appID (ptApps pt)"
    and "\<And>app. map_of (ptApps pt) appID = Some app \<Longrightarrow> saAllocations app = []"
  shows "moves 0 pt pt'"
proof -
  have "allocation_count (ptApps pt') = allocation_count (ptApps pt)" if "wf_apps pt"
    using that assms(3,4) map_sum_delete [of "ptApps pt" appID]
    by (cases "map_of (ptApps pt) appID") (auto simp: allocation_count_def wf_apps_def delete_absent)
  then show ?thesis
    using assms(1-3) by (auto simp: moves_def wf_apps_def wf_map_delete delete_conv' split: if_splits)
qed

lemma moves_terminated:
  assumes "\<And>app. map_of (ptApps pt) appID = Some app \<Longrightarrow> saAllocations app = []"
  shows "moves 0 pt (moveTerminatedApp appID pt)"
proof (cases "map_of (ptApps pt) appID")
  case (Some app)
  define w where "w = UnSetQueue (load pt app)"
  have "maxResource (heap w rootPath) = maxResource (ptHeap pt rootPath)" "nodes w = ptNodes pt"
    by (simp_all add: w_def UnSetQueue_def Let_def shape_RemoveApplication)
  then have "pframe (moveTerminatedApp appID pt) = pframe pt"
    by (simp add: moveTerminatedApp_def Some Let_def w_def [symmetric] pframe_def)
  moreover have "ptAllocations (moveTerminatedApp appID pt) = ptAllocations pt"
    "ptApps (moveTerminatedApp appID pt) = AList.delete appID (ptApps pt)"
    by (simp_all add: moveTerminatedApp_def Some Let_def)
  ultimately show ?thesis using moves_delete_app assms by blast
qed (simp add: moveTerminatedApp_def)

lemma map_sum_filter_zero: "(\<And>k v. (k, v) \<in> set m \<Longrightarrow> \<not> P (k, v) \<Longrightarrow> f v = 0) \<Longrightarrow> map_sum f (filter P m) = map_sum f m"
proof (induction m)
  case (Cons p m)
  obtain k v where p: "p = (k, v)" by fastforce
  have "map_sum f (filter P m) = map_sum f m" using Cons by auto
  moreover have "\<not> P (k, v) \<Longrightarrow> f v = 0" using Cons.prems [of k v] p by simp
  ultimately show ?case by (simp add: map_sum_def p)
qed simp

lemma map_of_filter_SomeD: "wf_map m \<Longrightarrow> map_of (filter P m) k = Some v \<Longrightarrow> map_of m k = Some v"
  using map_of_wf wf_map_filter map_of_SomeD by (metis filter_is_subset subsetD)

lemma moves_expired:
  assumes "\<And>appID app. map_of (ptApps pt) appID = Some app \<Longrightarrow> saState app = Expired \<Longrightarrow> saAllocations app = []"
  shows "moves 0 pt (cleanupExpiredApps pt)"
proof -
  have "pframe (cleanupExpiredApps pt) = pframe pt" by (simp add: cleanupExpiredApps_def pframe_def)
  moreover have "allocation_count (ptApps (cleanupExpiredApps pt)) = allocation_count (ptApps pt)" if "wf_apps pt"
    using that assms unfolding allocation_count_def cleanupExpiredApps_def
    by (simp, intro map_sum_filter_zero) (auto simp: wf_apps_def map_of_wf)
  moreover have "wf_apps (cleanupExpiredApps pt)" if "wf_apps pt"
    using that by (auto simp: wf_apps_def cleanupExpiredApps_def wf_map_filter dest: map_of_filter_SomeD)
  ultimately show ?thesis by (simp add: moves_def) (simp add: cleanupExpiredApps_def)
qed

lemma moves_rejected: "moves 0 pt (AddRejectedApplication app msg pt)"
proof -
  define w where "w = fst (app_RejectApplication msg (load pt app))"
  have f: "frame w = frame (load pt app)" by (simp add: w_def app_RejectApplication_def)
  have "pframe (AddRejectedApplication app msg pt) = pframe pt"
    using frameD [OF f] shape_max [of "heap w" "ptHeap pt" rootPath]
    by (simp add: AddRejectedApplication_def w_def [symmetric] Let_def pframe_def fun_eq_iff)
  then show ?thesis by (rule moves_frame) (simp_all add: AddRejectedApplication_def Let_def)
qed

lemma partition_step_books:
  assumes "partition_step plugin inst si um pt pt'" "total_ok pt" "counted pt"
  shows "total_ok pt' \<and> counted pt'"
proof -
  have by_moves: ?thesis if "moves 0 pt pt'"
    using moves_total [OF that] moves_counted [OF that] assms(2,3) by simp
  from assms(1) show ?thesis
  proof cases
    case (node_request info)
    then show ?thesis using assms(2,3) by (simp add: total_ok_processNode counted_processNode)
  next
    case (application_added app app' err)
    then show ?thesis using by_moves moves_AddApplication by blast
  next
    case (application_removed appID)
    then show ?thesis using by_moves moves_removeApplication by simp
  next
    case (application_terminated appID)
    then show ?thesis using by_moves moves_terminated by simp
  next
    case (application_rejected app msg)
    then show ?thesis using by_moves moves_rejected by simp
  next
    case applications_expired
    then show ?thesis using by_moves moves_expired by simp
  next
    case (object_created r a)
    then show ?thesis using by_moves moves_counters(7) by simp
  next
    case (allocation_updated r)
    then show ?thesis using by_moves moves_UpdateAllocation [of "Some r" pt inst] by simp
  next
    case (allocation_released rel rs confirmed)
    then show ?thesis using by_moves moves_removeAllocation [of "Some rel" pt pt' rs confirmed] by simp
  next
    case (scheduled nodeID appID r result)
    then show ?thesis using by_moves moves_scheduleOn by blast
  next
    case (reserved appID nodeID r)
    then show ?thesis using by_moves moves_reserve by blast
  next
    case (unreserved appID nodeID r)
    then show ?thesis using by_moves moves_unReserve by simp
  next
    case (clock_ticked now)
    then show ?thesis by (intro by_moves) (simp add: moves_frame pframe_def)
  qed
qed

section \<open>A new partition\<close>

lemma newPartition_fields:
  assumes "newPartitionContext cpuName fsm regexp conf rmID enabled quotaEnabled silence pt0 = Inr pt"
  shows "ptApps pt = ptApps pt0" "ptNodeIDs pt = ptNodeIDs pt0" "ptNodes pt = ptNodes pt0" "ptTotal pt = ptTotal pt0"
    "ptAllocations pt = ptAllocations pt0" "ptStore pt = ptStore pt0"
  using assms
  by (auto simp: newPartitionContext_def initialPartitionFromConfig_def updateLimits_def updatePreemption_def Let_def
      split: if_splits prod.splits sum.splits option.splits)

lemma newPartition_books:
  assumes "newPartitionContext cpuName fsm regexp conf rmID enabled quotaEnabled silence (emptyPartition st ns m now) = Inr pt"
    and "maxResource (ptHeap pt rootPath) = None"
  shows "total_ok pt \<and> counted pt"
  using newPartition_fields [OF assms(1)] assms(2)
  by (simp add: total_ok_def counted_def wf_apps_def allocation_count_def emptyPartition_def capacity_sum_def root_max_def
      StrictlyGreaterThanZero_def amount_def map_get_def)

definition idleNode :: node where
  "idleNode =
     \<lparr>NodeID = [], totalResource = Some [], occupiedResource = Some [], nodeAllocated = Some [],
      availableResource = Some [], allocations = [], schedulable = False, reservations = []\<rparr>"

definition examplePool :: "PartitionConfig" where
  "examplePool =
     \<lparr>pcName = ''default'',
      pcQueues = Some [QueueConfig ''root'' True \<lparr>confGuaranteed = [], confMax = []\<rparr> 0 [] [] ''*''
        \<lparr>ctMaxApplications = 0, ctProperties = [], ctResources = \<lparr>confGuaranteed = [], confMax = []\<rparr>\<rparr> [] []],
      pcPlacementRules = [], pcLimits = [], pcNodeSortPolicy = \<lparr>nspType = ''fair'', nspResourceWeights = []\<rparr>\<rparr>"

definition freshPartition :: "init_error + PartitionContext" where
  "freshPartition =
     newPartitionContext ''vcore'' looplab_event (\<lambda>_. None) examplePool ''rm'' None None False
       (emptyPartition (\<lambda>_. exampleAsk ''ask-0'' 0 0) (\<lambda>_. idleNode) newManager 0)"


definition nodeInfo :: NodeInfo where
  "nodeInfo = \<lparr>niNodeID = ''node-1'', niAction = CREATE, niResource = Some [(''vcore'', Quantity 10)]\<rparr>"

definition siTags :: si_tags where
  "siTags = \<lparr>tagCreateForce = ''force'', tagGuaranteed = ''guaranteed'', tagQuota = ''quota'', tagMaxApps = ''maxapps''\<rparr>"


text \<open>A partition with a leaf queue below the root queue, where everybody may submit.\<close>

definition poolPartition :: PartitionContext where
  "poolPartition =
     (emptyPartition (\<lambda>_. (exampleAsk ''ask-0'' 0 0)\<lparr>allocated := True, allocNodeID := ''node-1''\<rparr>) (\<lambda>_. idleNode) newManager 0)
       \<lparr>ptHeap := (\<lambda>_. newBlankQueue)
          ([''root''] := newBlankQueue\<lparr>children := [''a''], isManaged := True, submitACL := fst (NewACL ''*'')\<rparr>,
           [''a'', ''root''] := newBlankQueue\<lparr>isLeaf := True, isManaged := True\<rparr>),
        ptPlacement := NewPlacementManager (\<lambda>_. None) []\<rparr>"

text \<open>C11. An application that a partition accepts is registered exactly once, with its identifier unchanged: under its identifier, in the
  mapping to its queue, and in the list of applications of that queue, which is a leaf. The partition was
  active and did not know the application. An application that is refused changes neither the applications
  nor the mapping. The other applications, the nodes and the count of allocations stay as they were.\<close>

theorem accepted_application_registered:
  assumes "pt_AddApplication si um app pt = Some (pt', app', err)"
  shows "(if err = None
      then ptState pt \<noteq> Draining \<and> ptState pt \<noteq> Stopped \<and> map_of (ptApps pt) (saID app) = None \<and>
        saID app' = saID app \<and> saQueuePath app' = QueuePath (saQueue app') \<and>
        map_of (ptApps pt') (saID app) = Some app' \<and> map_of (ptMapping pt') (saID app) = Some (saQueue app') \<and>
        isLeaf (ptHeap pt' (saQueue app')) \<and> saID app \<in> set (applications (ptHeap pt' (saQueue app')))
      else ptApps pt' = ptApps pt \<and> ptMapping pt' = ptMapping pt) \<and>
    (\<forall>other. other \<noteq> saID app \<longrightarrow> map_of (ptApps pt') other = map_of (ptApps pt) other) \<and>
    ptNodeIDs pt' = ptNodeIDs pt \<and> ptNodes pt' = ptNodes pt \<and> ptAllocations pt' = ptAllocations pt"
  using addApplication_outcome [OF assms] by (cases err) (simp_all add: update_conv')

theorem accepted_application_registered_witness:
  "\<exists>pt' app'. pt_AddApplication siTags (\<lambda>_. None) (submitted ''alice'' ''root.a'') poolPartition = Some (pt', app', None) \<and>
     saQueue app' = [''a'', ''root''] \<and> map_of (ptMapping pt') ''app-1'' = Some [''a'', ''root''] \<and>
     ''app-1'' \<in> set (applications (ptHeap pt' [''a'', ''root'']))"
proof -
  have "map_option (\<lambda>(pt, app, err). (saQueue app, saID app, err))
      (pt_AddApplication siTags (\<lambda>_. None) (submitted ''alice'' ''root.a'') poolPartition) =
    Some ([''a'', ''root''], ''app-1'', None)"
    by code_simp
  then obtain pt' app' where a: "saQueue app' = [''a'', ''root'']" "saID app' = ''app-1''"
    "pt_AddApplication siTags (\<lambda>_. None) (submitted ''alice'' ''root.a'') poolPartition = Some (pt', app', None)"
    by auto
  with accepted_application_registered [OF a(3)] show ?thesis by (metis (full_types))
qed


text \<open>A partition with one node and one application that holds an allocation on the node.\<close>

definition busyPartition :: PartitionContext where
  "busyPartition =
     poolPartition
       \<lparr>ptNodeIDs := [''node-1''], ptAllocations := 1,
        ptNodes := (\<lambda>_. idleNode\<lparr>allocations := [(''ask-0'', ptStore poolPartition 0)]\<rparr>),
        ptApps := [(''app-1'', (submitted ''alice'' ''root.a'')
          \<lparr>saQueue := [''a'', ''root''], saAllocations := [(''ask-0'', 0)]\<rparr>)],
        ptMapping := [(''app-1'', [''a'', ''root''])]\<rparr>"


section \<open>Gaps in the books\<close>

text \<open>A removed application takes its allocations off the count of allocations, but its placeholders stay in
  the count of placeholders.\<close>

lemma removed_placeholders_counted: "ptPlaceholders (fst (removeApplication appID pt)) = ptPlaceholders pt"
proof -
  have "ptPlaceholders (fold removeFromNode rs pt) = ptPlaceholders pt" for rs pt
    by (induction rs arbitrary: pt) (simp_all add: removeFromNode_def Let_def onNode_def)
  then show ?thesis
    by (simp add: removeApplication_def Let_def updateAllocationCount_def decReservationCount_def split: option.split prod.split)
qed

text \<open>An application that terminates leaves its entry in the mapping to the queues. Removing it later
  changes nothing, as it is no longer known.\<close>

lemma terminated_application_mapped:
  "ptMapping (moveTerminatedApp appID pt) = ptMapping pt"
  "removeApplication appID (moveTerminatedApp appID pt) = (moveTerminatedApp appID pt, [])"
proof -
  show "ptMapping (moveTerminatedApp appID pt) = ptMapping pt"
    by (simp add: moveTerminatedApp_def Let_def split: option.split)
  have "map_of (ptApps (moveTerminatedApp appID pt)) appID = None"
    by (simp add: moveTerminatedApp_def Let_def delete_conv' split: option.split)
  then show "removeApplication appID (moveTerminatedApp appID pt) = (moveTerminatedApp appID pt, [])"
    by (simp add: removeApplication_def)
qed

text \<open>Confirming the replacement of a placeholder that is not being replaced dereferences nil.\<close>

lemma unlinked_replacement_panics:
  "release (ptStore pt r) = None \<Longrightarrow> GetNode pt (allocNodeID (ptStore pt r)) \<Longrightarrow>
   releaseOnNodes PlaceholderReplaced [r] tot pre conf pt = None"
  by (simp add: replacePlaceholderOnNode_def Let_def)

text \<open>When the node is gone before the partition takes over a result, the ask is returned, but the allocation
  stays with the application.\<close>

lemma unwound_allocation_stays:
  assumes "map_of (ptApps pt) (applicationID (ptStore pt (Request result))) = Some app" "\<not> GetNode pt (resultNodeID result)"
  shows "\<exists>pt' app'. pt_allocate inst result pt = Some (pt', None) \<and>
    map_of (ptApps pt') (applicationID (ptStore pt (Request result))) = Some app' \<and> saAllocations app' = saAllocations app"
  using assms by (simp add: pt_allocate_def Let_def update_conv')

end
