(* ===== verification/Spec2Isabelle.thy ===== *)
theory Spec2Isabelle
  imports Prelude Quantities QuantityParse Resources StateMachines GoStrings Acl Queues QueueApps
    Configs GoTime QueueConf ConfigValid
    Allocations Nodes EventBuffer QueueTracker UserGroupManager ApplicationRuns PartitionRuns
begin

text \<open>
  Verification of the YuniKorn scheduler core.

  YuniKorn schedules the applications of a resource manager onto nodes. A tree of queues shares the
  resources of the cluster; every queue can have a maximum and a guaranteed resource, a limit on the number
  of running applications, a priority, and access lists. Users and groups have limits of their own in every
  queue. Nodes keep the books of what runs on them. All of this is state that one lock per object protects;
  each exported operation runs under its lock and is one function of the model, from the state before to
  the state after.

  \<^bold>\<open>How code becomes definitions.\<close> A Go map is an association list without duplicate keys
  (\<open>wf_map\<close>); ranging over it is a fold, and where the result could depend on the order that Go
  leaves open, a lemma shows that it does not. A nil pointer is \<open>None\<close>. A resource quantity is a 64 bit
  word; counters of type uint64 are natural numbers with the wrap-around written out (\<open>add64\<close>,
  \<open>sub64\<close>). A Go error is a value of an error type. Logging, metrics and events are left out. The
  pointers between queues are paths: a heap maps the path of a queue, leaf first, to its record, and the
  walk of the code to the parent is the tail of the path.

  \<^bold>\<open>The theories.\<close>

  \<^item> \<open>Prelude\<close>: Go maps, wrap-around arithmetic, and the collections of simplification rules.
  \<^item> \<open>Quantities\<close>, \<open>QuantityParse\<close>, \<open>Resources\<close>
    (\<open>pkg/common/resources\<close>): saturating arithmetic of quantities, their parser, and the resource
    type with its arithmetic, comparisons and fit checks. The lemmas say what every operation does to each
    resource type, and all later proofs use only these.
  \<^item> \<open>StateMachines\<close> (\<open>object_state.go\<close>, \<open>application_state.go\<close>): the two tables of
    transitions. The state machine library is a parameter with its documented behaviour
    (\<open>fsm_documented\<close>).
  \<^item> \<open>GoStrings\<close>, \<open>GoTime\<close>: the parts of the Go library for strings, numbers and
    durations that the code calls. The loop of \<open>ParseDuration\<close> has a termination proof.
  \<^item> \<open>Acl\<close> (\<open>security/acl.go\<close>): parsing and checking of access lists.
  \<^item> \<open>Queues\<close>, \<open>QueueApps\<close>, \<open>QueueConf\<close> (\<open>objects/queue.go\<close>,
    \<open>template.go\<close>, \<open>policies\<close>): accounting of allocated and pending resources, headroom and
    maximum; applications, limits on running applications, cached priorities, quota preemption, access; and the
    configuration of a queue. The locales \<open>queue_walk\<close> and \<open>guarded_walk\<close> prove once what an
    operation that walks to the root does, with and without a check on the way; they are interpreted for
    each such operation. The locale \<open>queue_setting\<close> says which property a setting depends on.
  \<^item> \<open>Configs\<close> (\<open>common/configs/config.go\<close>): the data of the configuration and the
    text that its checksum covers.
  \<^item> \<open>Allocations\<close>, \<open>Nodes\<close> (\<open>allocation.go\<close>, \<open>sorted_asks.go\<close>,
    \<open>node.go\<close>): asks and allocations, their order, and the books and reservations of a node.
  \<^item> \<open>EventBuffer\<close> (\<open>event_ringbuffer.go\<close>, \<open>event_store.go\<close>): the buffer of events
    refines the log of all events.
  \<^item> \<open>QueueTracker\<close>, \<open>UserGroupManager\<close> (\<open>scheduler/ugm\<close>): usage and limits of users and
    groups in every queue. The tracker refines a ledger of booked usage. The locale \<open>manager_check\<close> is the
    shape that the headroom check and the application check of the manager share.

  \<^item> \<open>ConfigChecks\<close>, \<open>ConfigValid\<close> (\<open>configvalidator.go\<close>): all checks of a configuration, and what
    a configuration that passes them satisfies.
  \<^item> \<open>Applications\<close> (\<open>application.go\<close>): an application with its asks, allocations, placeholders,
    reservations and timers, as functions on a \<open>world\<close> that holds the application together with the
    queues, users, nodes and allocation objects it refers to. \<open>ApplicationBooks\<close> states its invariant,
    \<open>ApplicationSteps\<close> shows it for every operation, and \<open>ApplicationRuns\<close> for every run of them.
  \<^item> \<open>Placement\<close> (\<open>scheduler/placement\<close>): the placement rules and the placement manager. The locale
    \<open>queue_lookup\<close> is what the rules rely on when they look up a queue by name, interpreted for the
    lookup of the partition.
  \<^item> \<open>Partition\<close> (\<open>partition.go\<close>, \<open>partition_manager.go\<close>, the node requests of \<open>context.go\<close>): a
    partition with its applications, nodes, queues, placement and counters. An operation on an application
    loads it into a \<open>world\<close> and saves it back. \<open>PartitionBooks\<close> and \<open>PartitionMoves\<close> show
    what every operation does to the capacities and to the count of allocations, and
    \<open>PartitionRuns\<close> that every run of the operations keeps them in step.

  This theory holds the properties that span components: the callbacks of the application state machine on the
  counters of the queues.

  \<^bold>\<open>Fuel and bounds.\<close> Loops are recursions with a termination proof. The walks down the tree of queues
  (\<open>MarkQueueForRemoval\<close>, \<open>cleanQueues\<close>, \<open>updateQueues\<close>) take the depth of the tree as an
  argument, as the heap of queues is a function; the depth of the configured tree is enough. Where a counter or
  a quantity could wrap around or saturate, the theorem has the bound as a hypothesis and its witness meets it.

  \<^bold>\<open>Not modelled.\<close> The cycle that picks the next application to schedule: it sorts queues,
  applications and nodes by floating point shares. The search for preemption victims. The dispatch of
  messages between the resource manager and the partitions, and the conversion of messages. All output (REST,
  metrics, events, logging). Looking up users in the operating system or LDAP is input. Locks: every modelled operation is
  atomic, the interleaving of operations is the order of steps in a run.
\<close>

section \<open>Application states and the running counters of the queues\<close>

text \<open>The callbacks of the application state machine that touch the queues: entering Running from
  another state counts the application in every queue up to the root, leaving it for another
  state takes it off again.\<close>

definition stateCallbacks ::
    "qheap \<Rightarrow> qpath \<Rightarrow> string \<Rightarrow> applicationState \<Rightarrow> applicationState \<Rightarrow> qheap" where
  "stateCallbacks h path appID src dst =
     (let h = (if src = Running \<and> dst \<noteq> Running then decRunningApps h path else h)
      in if dst = Running \<and> src \<noteq> Running then incRunningApps h path appID else h)"

definition applicationEventOnQueue ::
    "(applicationState, applicationEvent) fsm_event \<Rightarrow> qpath \<Rightarrow> string \<Rightarrow> applicationEvent \<Rightarrow>
     qheap \<times> applicationState \<Rightarrow> qheap \<times> applicationState" where
  "applicationEventOnQueue fsm path appID event =
     (\<lambda>(h, s). let s' = fst (HandleApplicationEvent fsm s event)
               in (stateCallbacks h path appID s s', s'))"

definition isRunning :: "applicationState \<Rightarrow> nat" where
  "isRunning s = (if s = Running then 1 else 0)"

lemma stateCallbacks_counts:
  assumes "on_path path q" "maxRunningApps (h q) = 0" "runningApps (h q) = r + isRunning s"
    and "r + 1 < 2 ^ 64"
  shows "runningApps (stateCallbacks h path appID s s' q) = r + isRunning s' \<and>
    maxRunningApps (stateCallbacks h path appID s s' q) = 0"
  using assms
  by (auto simp: stateCallbacks_def isRunning_def dec_running.walk_apply inc_running.walk_apply
      incRunningQueue_def Let_def add64_exact)



end
